theory Spec2Isabelle
  imports Main "HOL-Library.Sublist"
begin

section \<open>Values of the automation\<close>

text \<open>
  The repository drives a remote browser through three login flows:
  \<^verbatim>\<open>LoginToLinkedin\<close> (apps/linkedin/auth/basic-2fa-login.ts),
  \<^verbatim>\<open>LoginToComplyAdvantageMesh\<close> (apps/comply-advantage/mesh/auth/basic-login.ts) and
  \<^verbatim>\<open>loginWithAgent\<close>. Functions of the three files that share a name are prefixed
  \<open>li_\<close>, \<open>ca_\<close> and \<open>ag_\<close>. Console output is not modelled. A string is the list
  of its UTF-16 code units, and a \<^typ>\<open>char\<close> is a code unit below 256 (U+0000 to
  U+00FF): strings with other code units lie outside the model. Timeouts are integers
  (milliseconds).
\<close>

text \<open>A thrown JavaScript value: an \<^verbatim>\<open>Error\<close> instance with its message, or any other
  value with its \<^verbatim>\<open>String(...)\<close> rendering.\<close>

datatype thrown = ErrorObj string | Other string

text \<open>\<^verbatim>\<open>error instanceof Error ? error.message : String(error)\<close>\<close>

fun errorMessage :: "thrown \<Rightarrow> string" where
  "errorMessage (ErrorObj m) = m"
| "errorMessage (Other s) = s"

text \<open>\<^verbatim>\<open>a || b\<close> on strings: the empty string is falsy.\<close>

definition or_else :: "string \<Rightarrow> string \<Rightarrow> string" where
  "or_else a b = (if a = [] then b else a)"

record LoginResult =
  success :: bool
  message :: string

text \<open>A credential record of the identity provider (\<^verbatim>\<open>cred.type\<close> is the tag). The
  \<^verbatim>\<open>otp\<close> of an authenticator record may be absent.\<close>

datatype credential =
    UsernamePassword string string
  | Authenticator "string option"
  | Custom "(string \<times> string) list"

record IdentityCredentialsResponse =
  ir_name :: string
  ir_source :: string
  ir_credentials :: "credential list"

record LinkedinCredentials =
  li_username :: string
  li_password :: string
  li_otp :: string

record ComplyAdvantageCredentials =
  ca_organization :: string
  ca_username :: string
  ca_password :: string

subsection \<open>Strings\<close>

text \<open>\<^verbatim>\<open>haystack.includes(needle)\<close>\<close>

fun js_includes :: "string \<Rightarrow> string \<Rightarrow> bool" where
  "js_includes [] n = (n = [])"
| "js_includes (c # cs) n = (prefix n (c # cs) \<or> js_includes cs n)"

text \<open>\<^verbatim>\<open>toLowerCase\<close>: below U+0100 the letters with a lower case are A to Z and
  U+00C0 to U+00DE without U+00D7 (the multiplication sign); the lower case of each is
  32 code units above it.\<close>

definition upper_letters :: string where
  "upper_letters =
     ''ABCDEFGHIJKLMNOPQRSTUVWXYZ'' @
     [CHR 0xC0, CHR 0xC1, CHR 0xC2, CHR 0xC3, CHR 0xC4, CHR 0xC5, CHR 0xC6, CHR 0xC7,
      CHR 0xC8, CHR 0xC9, CHR 0xCA, CHR 0xCB, CHR 0xCC, CHR 0xCD, CHR 0xCE, CHR 0xCF,
      CHR 0xD0, CHR 0xD1, CHR 0xD2, CHR 0xD3, CHR 0xD4, CHR 0xD5, CHR 0xD6, CHR 0xD8,
      CHR 0xD9, CHR 0xDA, CHR 0xDB, CHR 0xDC, CHR 0xDD, CHR 0xDE]"

definition lower_letters :: string where
  "lower_letters =
     ''abcdefghijklmnopqrstuvwxyz'' @
     [CHR 0xE0, CHR 0xE1, CHR 0xE2, CHR 0xE3, CHR 0xE4, CHR 0xE5, CHR 0xE6, CHR 0xE7,
      CHR 0xE8, CHR 0xE9, CHR 0xEA, CHR 0xEB, CHR 0xEC, CHR 0xED, CHR 0xEE, CHR 0xEF,
      CHR 0xF0, CHR 0xF1, CHR 0xF2, CHR 0xF3, CHR 0xF4, CHR 0xF5, CHR 0xF6, CHR 0xF8,
      CHR 0xF9, CHR 0xFA, CHR 0xFB, CHR 0xFC, CHR 0xFD, CHR 0xFE]"

definition lower_char :: "char \<Rightarrow> char" where
  "lower_char c = (case map_of (zip upper_letters lower_letters) c of None \<Rightarrow> c | Some d \<Rightarrow> d)"

definition js_toLowerCase :: "string \<Rightarrow> string" where
  "js_toLowerCase s = map lower_char s"

text \<open>\<^verbatim>\<open>s.trim()\<close> removes white space and line terminators from both ends, so it is
  falsy exactly when every code unit of \<open>s\<close> is one of them. Below U+0100 these are
  U+0009 to U+000D, U+0020 and U+00A0 (the no-break space); the others (U+1680, U+2000 to
  U+200A, U+2028, U+2029, U+202F, U+205F, U+3000 and U+FEFF) are not code units of the
  strings of the model.\<close>

definition white_space :: string where
  "white_space = [CHR 0x09, CHR 0x0A, CHR 0x0B, CHR 0x0C, CHR 0x0D, CHR 0x20, CHR 0xA0]"

definition trim_is_empty :: "string \<Rightarrow> bool" where
  "trim_is_empty s = list_all (\<lambda>c. c \<in> set white_space) s"

text \<open>The rendering of a boolean inside a template literal.\<close>

definition js_bool :: "bool \<Rightarrow> string" where
  "js_bool b = (if b then ''true'' else ''false'')"

section \<open>Credential extraction\<close>

text \<open>The body of the \<^verbatim>\<open>forEach\<close> callback of \<^verbatim>\<open>parseLinkedinCredentials\<close>: the three
  mutable locals are the state.\<close>

fun li_cred_step :: "string \<times> string \<times> string \<Rightarrow> credential \<Rightarrow> string \<times> string \<times> string" where
  "li_cred_step (username, password, otp) (UsernamePassword u p) = (u, p, otp)"
| "li_cred_step (username, password, otp) (Authenticator v) =
     (username, password, (case v of None \<Rightarrow> [] | Some s \<Rightarrow> or_else s []))"
| "li_cred_step (username, password, otp) (Custom flds) = (username, password, otp)"

definition parseLinkedinCredentials :: "credential list \<Rightarrow> thrown + LinkedinCredentials" where
  "parseLinkedinCredentials credentials =
     (case foldl li_cred_step ([], [], []) credentials of
        (username, password, otp) \<Rightarrow>
          if username = [] \<or> password = [] then
            Inl (ErrorObj (''Missing required credentials. Found: username='' @ js_bool (username \<noteq> [])
                   @ '', password='' @ js_bool (password \<noteq> [])))
          else Inr \<lparr>li_username = username, li_password = password, li_otp = otp\<rparr>)"

text \<open>\<^verbatim>\<open>cred.fields.find(field => ...)\<close> of \<^verbatim>\<open>parseComplyAdvantageCredentials\<close>.\<close>

definition is_org_field :: "string \<times> string \<Rightarrow> bool" where
  "is_org_field field =
     (js_includes (js_toLowerCase (fst field)) ''organization'' \<or>
      js_includes (js_toLowerCase (fst field)) ''company'')"

fun ca_cred_step :: "string \<times> string \<times> string \<Rightarrow> credential \<Rightarrow> string \<times> string \<times> string" where
  "ca_cred_step (organization, username, password) (UsernamePassword u p) = (organization, u, p)"
| "ca_cred_step (organization, username, password) (Custom flds) =
     (case find is_org_field flds of
        None \<Rightarrow> (organization, username, password)
      | Some orgField \<Rightarrow> (snd orgField, username, password))"
| "ca_cred_step (organization, username, password) (Authenticator v) = (organization, username, password)"

definition parseComplyAdvantageCredentials :: "credential list \<Rightarrow> thrown + ComplyAdvantageCredentials" where
  "parseComplyAdvantageCredentials credentials =
     (case foldl ca_cred_step ([], [], []) credentials of
        (organization, username, password) \<Rightarrow>
          if organization = [] \<or> username = [] \<or> password = [] then
            Inl (ErrorObj (''Missing required credentials. Found: organization='' @ js_bool (organization \<noteq> [])
                   @ '', username='' @ js_bool (username \<noteq> [])
                   @ '', password='' @ js_bool (password \<noteq> [])))
          else Inr \<lparr>ca_organization = organization, ca_username = username, ca_password = password\<rparr>)"

section \<open>Collaborators and the trace of an attempt\<close>

type_synonym page = nat

text \<open>A Playwright locator: \<^verbatim>\<open>page.locator(sel)\<close>, \<^verbatim>\<open>loc.first()\<close>, \<^verbatim>\<open>loc.nth(i)\<close> and
  \<^verbatim>\<open>loc.locator(sel)\<close>.\<close>

datatype locator =
    Locator page string
  | First locator
  | Nth locator int
  | Within locator string

text \<open>The argument of \<^verbatim>\<open>client.browser.create\<close>: none, \<^verbatim>\<open>{}\<close>, or the session options
  with proxy, captcha solver and extra stealth active.\<close>

datatype browser_configuration = NoConfiguration | EmptyConfiguration | ExtraStealth

text \<open>Calls of the collaborators that resolve to no value.\<close>

datatype action =
    Connect string
  | Create browser_configuration
  | Goto page string int
  | WaitForSelector page string int
  | Fill locator string
  | Press locator string
  | TypeText locator string
  | Click locator "int option"
  | EvaluateClick locator
  | EvaluateScroll page
  | WaitForURL page string int
  | WaitForNavigation page int
  | AgentTask string string
  | Close

text \<open>One entry of the trace: a call of a collaborator together with what it answered
  (\<open>Inl\<close> is a rejection or a throw). A call that is awaited at once is one entry. An
  \<^verbatim>\<open>isVisible\<close> call that is made while others are pending is two entries: the call
  (\<open>IsVisibleIssued\<close>) and, later, its settling with the answer (\<open>IsVisibleSettled\<close>).\<close>

datatype event =
    Act action "thrown + unit"
  | RetrieveCredentials string "thrown + IdentityCredentialsResponse"
  | IsVisible locator "int option" "thrown + bool"
  | IsVisibleIssued locator "int option"
  | IsVisibleSettled locator "int option" "thrown + bool"
  | Count locator "thrown + nat"
  | Url page string
  | Contexts "nat list"
  | Pages nat "page list"
  | WaitForEvent int "thrown + page"

text \<open>The collaborators (credential provider, session provisioner, page driver, agent):
  any answer to any call, depending on everything that happened before. \<open>e_latency\<close> is
  the time that the call made last in the given history takes to settle; it orders the
  completions of calls that are pending together.\<close>

record env =
  e_act :: "event list \<Rightarrow> action \<Rightarrow> thrown + unit"
  e_retrieveCredentials :: "event list \<Rightarrow> string \<Rightarrow> thrown + IdentityCredentialsResponse"
  e_isVisible :: "event list \<Rightarrow> locator \<Rightarrow> int option \<Rightarrow> thrown + bool"
  e_count :: "event list \<Rightarrow> locator \<Rightarrow> thrown + nat"
  e_url :: "event list \<Rightarrow> page \<Rightarrow> string"
  e_contexts :: "event list \<Rightarrow> nat list"
  e_pages :: "event list \<Rightarrow> nat \<Rightarrow> page list"
  e_waitForEvent :: "event list \<Rightarrow> int \<Rightarrow> thrown + page"
  e_latency :: "event list \<Rightarrow> nat"

text \<open>An asynchronous computation: from the history so far to its completion (a thrown
  value or a result) and the events it added.\<close>

type_synonym 'a prog = "event list \<Rightarrow> (thrown + 'a) \<times> event list"

definition ret :: "'a \<Rightarrow> 'a prog" where
  "ret a h = (Inr a, [])"

definition throw :: "thrown \<Rightarrow> 'a prog" where
  "throw e h = (Inl e, [])"

definition lift :: "thrown + 'a \<Rightarrow> 'a prog" where
  "lift r h = (r, [])"

definition andThen :: "'a prog \<Rightarrow> ('a \<Rightarrow> 'b prog) \<Rightarrow> 'b prog" where
  "andThen m f h =
     (case m h of
        (Inl e, t) \<Rightarrow> (Inl e, t)
      | (Inr a, t) \<Rightarrow> (case f a (h @ t) of (r, t') \<Rightarrow> (r, t @ t')))"

text \<open>\<^verbatim>\<open>try { m } catch (e) { f e }\<close> and \<^verbatim>\<open>promise.catch(f)\<close>\<close>

definition tryCatch :: "'a prog \<Rightarrow> (thrown \<Rightarrow> 'a prog) \<Rightarrow> 'a prog" where
  "tryCatch m f h =
     (case m h of
        (Inl e, t) \<Rightarrow> (case f e (h @ t) of (r, t') \<Rightarrow> (r, t @ t'))
      | (Inr a, t) \<Rightarrow> (Inr a, t))"

text \<open>\<^verbatim>\<open>try { m } finally { c }\<close>: \<open>c\<close> runs on every completion of \<open>m\<close>; a throw of \<open>c\<close>
  replaces the completion of \<open>m\<close>.\<close>

definition tryFinally :: "'a prog \<Rightarrow> unit prog \<Rightarrow> 'a prog" where
  "tryFinally m c h =
     (case m h of
        (r, t) \<Rightarrow> (case c (h @ t) of (Inl e, t') \<Rightarrow> (Inl e, t @ t') | (Inr u, t') \<Rightarrow> (r, t @ t')))"

text \<open>A \<^verbatim>\<open>for\<close> loop over the elements of a list.\<close>

primrec forEach :: "('a \<Rightarrow> unit prog) \<Rightarrow> 'a list \<Rightarrow> unit prog" where
  "forEach f [] = ret ()"
| "forEach f (x # xs) = andThen (f x) (\<lambda>u. forEach f xs)"

subsection \<open>The calls\<close>

definition act :: "env \<Rightarrow> action \<Rightarrow> unit prog" where
  "act E a h = (e_act E h a, [Act a (e_act E h a)])"

definition retrieveCredentials :: "env \<Rightarrow> string \<Rightarrow> IdentityCredentialsResponse prog" where
  "retrieveCredentials E identityId h =
     (e_retrieveCredentials E h identityId, [RetrieveCredentials identityId (e_retrieveCredentials E h identityId)])"

definition isVisible :: "env \<Rightarrow> locator \<Rightarrow> int option \<Rightarrow> bool prog" where
  "isVisible E loc timeout h = (e_isVisible E h loc timeout, [IsVisible loc timeout (e_isVisible E h loc timeout)])"

definition count_of :: "env \<Rightarrow> locator \<Rightarrow> nat prog" where
  "count_of E loc h = (e_count E h loc, [Count loc (e_count E h loc)])"

definition url :: "env \<Rightarrow> page \<Rightarrow> string prog" where
  "url E p h = (Inr (e_url E h p), [Url p (e_url E h p)])"

text \<open>\<^verbatim>\<open>browser.contexts()[0]\<close> and \<^verbatim>\<open>context.pages()\<close>\<close>

definition contexts :: "env \<Rightarrow> nat list prog" where
  "contexts E h = (Inr (e_contexts E h), [Contexts (e_contexts E h)])"

definition pages :: "env \<Rightarrow> nat \<Rightarrow> page list prog" where
  "pages E c h = (Inr (e_pages E h c), [Pages c (e_pages E h c)])"

definition waitForEvent :: "env \<Rightarrow> int \<Rightarrow> page prog" where
  "waitForEvent E timeout h = (e_waitForEvent E h timeout, [WaitForEvent timeout (e_waitForEvent E h timeout)])"

text \<open>\<^verbatim>\<open>Promise.all([page.waitForNavigation({ timeout: 45000 }).catch(() => null), a])\<close>: the
  navigation wait is issued first and its failure is discarded; the completion is that
  of the action.\<close>

definition withNavigation :: "env \<Rightarrow> page \<Rightarrow> action \<Rightarrow> unit prog" where
  "withNavigation E p a h =
     (case act E (WaitForNavigation p 45000) h of
        (n, t) \<Rightarrow> (case act E a (h @ t) of (r, t') \<Rightarrow> (r, t @ t')))"

section \<open>Configuration\<close>

text \<open>\<^verbatim>\<open>process.env\<close>. The value of \<^verbatim>\<open>ANCHOR_TIMEOUT_MS\<close> is given as
  \<^verbatim>\<open>z.coerce.number()\<close> sees it: \<^verbatim>\<open>Number(...)\<close> of the variable, which is \<open>NaN\<close> or a
  number.\<close>

datatype js_number = NaN | Num int

record process_env =
  ANCHOR_SESSION_ID :: "string option"
  ANCHOR_IDENTITY_ID :: "string option"
  ANCHOR_TIMEOUT_MS :: "js_number option"
  ANCHORBROWSER_API_KEY :: "string option"

text \<open>A \<^verbatim>\<open>ZodError\<close> is an \<^verbatim>\<open>Error\<close>; of its message (the JSON rendering of the
  issues) the model keeps the message of each issue, one per line.\<close>

definition zodError :: "string list \<Rightarrow> thrown" where
  "zodError issues = ErrorObj (concat (map (\<lambda>m. m @ [CHR 0x0A]) issues))"

text \<open>\<^verbatim>\<open>z.string().min(1, msg)\<close>, \<^verbatim>\<open>z.string().default('')\<close> and
  \<^verbatim>\<open>z.coerce.number().default(10000)\<close>: the issues and the parsed value.\<close>

definition required_string_issues :: "string option \<Rightarrow> string \<Rightarrow> string list" where
  "required_string_issues v msg = (case v of None \<Rightarrow> [''Required''] | Some s \<Rightarrow> if s = [] then [msg] else [])"

definition string_default :: "string option \<Rightarrow> string" where
  "string_default v = (case v of None \<Rightarrow> [] | Some s \<Rightarrow> s)"

definition number_issues :: "js_number option \<Rightarrow> string list" where
  "number_issues v = (case v of Some NaN \<Rightarrow> [''Expected number, received nan''] | _ \<Rightarrow> [])"

definition number_default :: "js_number option \<Rightarrow> int" where
  "number_default v = (case v of Some (Num n) \<Rightarrow> n | _ \<Rightarrow> 10000)"

record li_Config =
  li_sessionId :: string
  li_identityId :: string
  li_timeoutMs :: int
  li_homeUrl :: string

definition li_getConfig :: "process_env \<Rightarrow> thrown + li_Config" where
  "li_getConfig env =
     (let issues = required_string_issues (ANCHOR_IDENTITY_ID env) ''ANCHOR_IDENTITY_ID is required''
                   @ number_issues (ANCHOR_TIMEOUT_MS env)
      in if issues \<noteq> [] then Inl (zodError issues)
         else Inr \<lparr>li_sessionId = string_default (ANCHOR_SESSION_ID env),
                   li_identityId = string_default (ANCHOR_IDENTITY_ID env),
                   li_timeoutMs = number_default (ANCHOR_TIMEOUT_MS env),
                   li_homeUrl = ''https://www.linkedin.com/uas/login''\<rparr>)"

section \<open>The LinkedIn flow\<close>

definition li_getAnchorBrowser :: "env \<Rightarrow> li_Config \<Rightarrow> bool \<Rightarrow> unit prog" where
  "li_getAnchorBrowser E config extraStealthRequired =
     (if li_sessionId config \<noteq> [] then act E (Connect (li_sessionId config))
      else act E (Create (if extraStealthRequired then ExtraStealth else EmptyConfiguration)))"

definition li_fetchIdentityCredentials :: "env \<Rightarrow> string \<Rightarrow> IdentityCredentialsResponse prog" where
  "li_fetchIdentityCredentials E identityId = retrieveCredentials E identityId"

definition li_waitForVisible :: "env \<Rightarrow> page \<Rightarrow> string \<Rightarrow> int \<Rightarrow> unit prog" where
  "li_waitForVisible E page selector timeout = act E (WaitForSelector page selector timeout)"

definition loginNavButton :: string where
  "loginNavButton = ''#login-nav-button''"

definition li_navigateToHomepage :: "env \<Rightarrow> page \<Rightarrow> li_Config \<Rightarrow> unit prog" where
  "li_navigateToHomepage E page config =
     tryCatch (act E (Goto page (li_homeUrl config) (li_timeoutMs config)))
       (\<lambda>navErr.
          andThen (tryCatch (isVisible E (First (Locator page loginNavButton)) None) (\<lambda>e. ret False))
            (\<lambda>hasLoginButton. if \<not> hasLoginButton then throw navErr else ret ()))"

definition li_usernameField :: string where
  \<open>li_usernameField = ''input#username[name="session_key"][type="email"]''\<close>

definition li_passwordField :: string where
  \<open>li_passwordField = ''input#password[name="session_password"][type="password"]''\<close>

definition li_enterUsername :: "env \<Rightarrow> page \<Rightarrow> string \<Rightarrow> int \<Rightarrow> unit prog" where
  "li_enterUsername E page username timeoutMs =
     andThen (li_waitForVisible E page li_usernameField timeoutMs) (\<lambda>u.
     andThen (act E (Fill (Locator page li_usernameField) username)) (\<lambda>u.
     act E (Press (Locator page li_usernameField) ''Tab'')))"

definition enterPasswordAndSubmit :: "env \<Rightarrow> page \<Rightarrow> string \<Rightarrow> int \<Rightarrow> unit prog" where
  "enterPasswordAndSubmit E page password timeoutMs =
     andThen (li_waitForVisible E page li_passwordField timeoutMs) (\<lambda>u.
     andThen (act E (Fill (Locator page li_passwordField) password)) (\<lambda>u.
     act E (Press (Locator page li_passwordField) ''Enter'')))"

text \<open>\<open>fallbackTimeout\<close> is an optional parameter with the default 60000. The parameter
  \<open>step\<close> only feeds the console output.\<close>

definition feedPattern :: string where
  "feedPattern = ''**linkedin.com/feed/**''"

definition verifyLogin :: "env \<Rightarrow> page \<Rightarrow> nat \<Rightarrow> int \<Rightarrow> int option \<Rightarrow> bool prog" where
  "verifyLogin E page step timeoutMs fallbackTimeout =
     tryCatch
       (andThen (act E (WaitForURL page feedPattern
                   (max timeoutMs (case fallbackTimeout of None \<Rightarrow> 60000 | Some f \<Rightarrow> f))))
          (\<lambda>u. ret True))
       (\<lambda>e. andThen (url E page) (\<lambda>currentUrl. ret (js_includes currentUrl ''linkedin.com/feed/'')))"

text \<open>\<^verbatim>\<open>Promise.all(selectors.map(async (sel) => { ... }))\<close>, the expression shared by
  \<^verbatim>\<open>clickCommonSubmit\<close> and \<^verbatim>\<open>locateOtpInputs\<close>. The callback is
  \<^verbatim>\<open>const loc = page.locator(sel).first();\<close>
  \<^verbatim>\<open>const isVisible = await loc.isVisible().catch(() => false);\<close>
  \<^verbatim>\<open>return isVisible ? sel : null;\<close>
  An async function runs synchronously up to its first \<^verbatim>\<open>await\<close>: when \<^verbatim>\<open>map\<close> returns,
  \<^verbatim>\<open>isVisible()\<close> has been called for every selector, in the order of the list, and
  none of the calls has settled (\<open>issueProbes\<close>). The pending calls settle in the order
  of their completion times, two calls of the same completion time in the order in
  which they were made (\<open>settleOrder\<close>); the page driver gives the answer of a call
  when it settles. When a call settles the rest of its callback runs
  (\<open>probeValue\<close>), and \<^verbatim>\<open>Promise.all\<close> stores the value at the index of the selector
  (\<open>settleProbe\<close>). The array is read once every call has settled.\<close>

definition issueProbes :: "page \<Rightarrow> string list \<Rightarrow> event list" where
  "issueProbes page selectors = map (\<lambda>sel. IsVisibleIssued (First (Locator page sel)) None) selectors"

definition settleOrder :: "env \<Rightarrow> event list \<Rightarrow> event list \<Rightarrow> nat list" where
  "settleOrder E h issued = sort_key (\<lambda>k. e_latency E (h @ take (Suc k) issued)) [0..<length issued]"

definition probeValue :: "string \<Rightarrow> thrown + bool \<Rightarrow> string option" where
  "probeValue sel r = (case r of Inl e \<Rightarrow> None | Inr visible \<Rightarrow> if visible then Some sel else None)"

definition settleProbe ::
  "env \<Rightarrow> page \<Rightarrow> string list \<Rightarrow> nat \<Rightarrow> event list \<times> string option list \<Rightarrow> event list \<times> string option list" where
  "settleProbe E page selectors k s =
     (case s of
        (hist, results) \<Rightarrow>
          (hist @ [IsVisibleSettled (First (Locator page (selectors ! k))) None
                     (e_isVisible E hist (First (Locator page (selectors ! k))) None)],
           results[k := probeValue (selectors ! k) (e_isVisible E hist (First (Locator page (selectors ! k))) None)]))"

definition probeSelectors :: "env \<Rightarrow> page \<Rightarrow> string list \<Rightarrow> string option list prog" where
  "probeSelectors E page selectors h =
     (case fold (settleProbe E page selectors) (settleOrder E h (issueProbes page selectors))
             (h @ issueProbes page selectors, replicate (length selectors) None) of
        (hist, results) \<Rightarrow> (Inr results, drop (length h) hist))"

definition submitSelectors :: "string list" where
  \<open>submitSelectors =
     [''button:has-text("Submit")'',
      ''button:has-text("Verify")'',
      ''button:has-text("Continue")'',
      ''button[type="submit"]'',
      ''input[type="submit"]'']\<close>

definition clickCommonSubmit :: "env \<Rightarrow> page \<Rightarrow> bool prog" where
  "clickCommonSubmit E page =
     andThen (probeSelectors E page submitSelectors) (\<lambda>results.
       case find (\<lambda>r. r \<noteq> None) results of
         Some (Some visibleSelector) \<Rightarrow>
           andThen (withNavigation E page (Click (First (Locator page visibleSelector)) None)) (\<lambda>u. ret True)
       | _ \<Rightarrow> ret False)"

datatype OtpInputResult = Single locator | Multi locator

definition singleSelectors :: "string list" where
  \<open>singleSelectors =
     [''input[name="pin"][maxlength="6"]'',
      ''input[name="code"]'',
      ''input[autocomplete="one-time-code"]'',
      ''input[id*="verification" i]'',
      ''input[inputmode="numeric"][maxlength="6"]'']\<close>

definition digitInputsSelector :: string where
  \<open>digitInputsSelector =
     ''input[aria-label*="digit" i], input[pattern="'' @ [CHR 0x5C] @
     ''d*"][maxlength="1"], input[inputmode="numeric"][maxlength="1"]''\<close>

definition locateOtpInputs :: "env \<Rightarrow> page \<Rightarrow> OtpInputResult option prog" where
  "locateOtpInputs E page =
     andThen (probeSelectors E page singleSelectors) (\<lambda>singleResults.
       case find (\<lambda>r. r \<noteq> None) singleResults of
         Some (Some visibleSingleSelector) \<Rightarrow> ret (Some (Single (First (Locator page visibleSingleSelector))))
       | _ \<Rightarrow>
           andThen (tryCatch (count_of E (Locator page digitInputsSelector)) (\<lambda>e. ret 0)) (\<lambda>count.
             if count \<ge> 6 then ret (Some (Multi (Locator page digitInputsSelector))) else ret None))"

text \<open>The body of the loop that fills the digit fields: field \<open>i\<close> is cleared, then
  \<^verbatim>\<open>arr[i] ?? ''\<close> is typed into it.\<close>

definition fillDigit :: "env \<Rightarrow> locator \<Rightarrow> string \<Rightarrow> nat \<Rightarrow> unit prog" where
  "fillDigit E loc arr i =
     andThen (act E (Fill (Nth loc (int i)) [])) (\<lambda>u.
     act E (TypeText (Nth loc (int i)) (if i < length arr then [arr ! i] else [])))"

text \<open>The last statement of both branches of \<^verbatim>\<open>submitOtpCode\<close>: the verification with
  its one fallback, \<^verbatim>\<open>await clickCommonSubmit(page).catch(() => null)\<close>.\<close>

definition afterOtpSubmit :: "env \<Rightarrow> page \<Rightarrow> nat \<Rightarrow> int \<Rightarrow> unit prog" where
  "afterOtpSubmit E page step timeoutMs =
     andThen (verifyLogin E page step timeoutMs (Some 10000)) (\<lambda>ok.
       if \<not> ok then tryCatch (andThen (clickCommonSubmit E page) (\<lambda>b. ret ())) (\<lambda>e. ret ())
       else ret ())"

definition submitOtpCode :: "env \<Rightarrow> page \<Rightarrow> string \<Rightarrow> nat \<Rightarrow> int \<Rightarrow> unit prog" where
  "submitOtpCode E page otp step timeoutMs =
     andThen (locateOtpInputs E page) (\<lambda>inputs.
       case inputs of
         None \<Rightarrow> throw (ErrorObj ''OTP inputs not found'')
       | Some (Single loc) \<Rightarrow>
           andThen (act E (Fill loc [])) (\<lambda>u.
           andThen (act E (Fill loc otp)) (\<lambda>u.
           andThen (withNavigation E page (Press loc ''Enter'')) (\<lambda>u.
           afterOtpSubmit E page step timeoutMs)))
       | Some (Multi loc) \<Rightarrow>
           andThen (count_of E loc) (\<lambda>n.
             let total = min n (length otp) in
             andThen (forEach (fillDigit E loc otp) [0..<total]) (\<lambda>u.
             andThen (withNavigation E page (Press (Nth loc (int total - 1)) ''Enter'')) (\<lambda>u.
             afterOtpSubmit E page step timeoutMs))))"

text \<open>The statements of \<^verbatim>\<open>LoginToLinkedin\<close> inside its \<^verbatim>\<open>try\<close> block.
  \<open>li_secondFactor\<close> is the statement \<^verbatim>\<open>if (credentials.otp) { ... }\<close>; it returns the
  variable \<^verbatim>\<open>credentials\<close>, which is reassigned when the one-time code is refreshed.\<close>

definition li_secondFactor :: "env \<Rightarrow> li_Config \<Rightarrow> page \<Rightarrow> LinkedinCredentials \<Rightarrow> LinkedinCredentials prog" where
  "li_secondFactor E config page credentials =
     (if li_otp credentials \<noteq> [] then
        andThen (li_fetchIdentityCredentials E (li_identityId config)) (\<lambda>updatedCredentials.
        andThen (lift (parseLinkedinCredentials (ir_credentials updatedCredentials))) (\<lambda>credentials'.
        andThen (submitOtpCode E page (li_otp credentials') 6 (li_timeoutMs config)) (\<lambda>u.
        ret credentials')))
      else ret credentials)"

definition li_tryBlock :: "env \<Rightarrow> li_Config \<Rightarrow> page \<Rightarrow> LinkedinCredentials \<Rightarrow> LoginResult prog" where
  "li_tryBlock E config page credentials =
     andThen (li_navigateToHomepage E page config) (\<lambda>u.
     andThen (verifyLogin E page 2 (li_timeoutMs config) (Some 10000)) (\<lambda>loggedIn.
       if loggedIn then ret \<lparr>success = True, message = ''Already authenticated. Landed on /feed.''\<rparr>
       else
         andThen (li_enterUsername E page (li_username credentials) (li_timeoutMs config)) (\<lambda>u.
         andThen (enterPasswordAndSubmit E page (li_password credentials) (li_timeoutMs config)) (\<lambda>u.
         andThen (li_secondFactor E config page credentials) (\<lambda>credentials.
         andThen (verifyLogin E page (if li_otp credentials \<noteq> [] then 7 else 6) (li_timeoutMs config) (Some 10000))
           (\<lambda>finalLoggedIn.
              if \<not> finalLoggedIn then
                andThen (url E page) (\<lambda>finalUrl.
                  ret \<lparr>success = False,
                       message = ''Login flow completed but Linkedin Feed URL not confirmed. Current URL: '' @ finalUrl\<rparr>)
              else ret \<lparr>success = True, message = ''Logged in to Linkedin as '' @ li_username credentials @ ''.''\<rparr>))))))"

definition li_catchBlock :: "thrown \<Rightarrow> LoginResult prog" where
  "li_catchBlock error =
     ret \<lparr>success = False, message = or_else (errorMessage error) ''Unknown error during Linkedin login.''\<rparr>"

definition LoginToLinkedin :: "env \<Rightarrow> process_env \<Rightarrow> LoginResult prog" where
  "LoginToLinkedin E penv =
     andThen (lift (li_getConfig penv)) (\<lambda>config.
     andThen (li_fetchIdentityCredentials E (li_identityId config)) (\<lambda>identityResponse.
     andThen (lift (parseLinkedinCredentials (ir_credentials identityResponse))) (\<lambda>credentials.
     andThen (li_getAnchorBrowser E config (li_otp credentials = [])) (\<lambda>browser.
     andThen (contexts E) (\<lambda>cs.
       case cs of
         [] \<Rightarrow> ret \<lparr>success = False, message = ''Failed to get browser context''\<rparr>
       | context # cs' \<Rightarrow>
           andThen (pages E context) (\<lambda>ps.
             case ps of
               [] \<Rightarrow> ret \<lparr>success = False, message = ''Failed to get browser page''\<rparr>
             | page # ps' \<Rightarrow>
                 tryFinally (tryCatch (li_tryBlock E config page credentials) li_catchBlock)
                   (act E Close)))))))"

section \<open>The ComplyAdvantage Mesh flow\<close>

record ca_Config =
  ca_sessionId :: string
  ca_apiKey :: string
  ca_identityId :: string
  ca_timeoutMs :: int
  ca_homeUrl :: string
  ca_meshUrl :: string

definition ca_getConfig :: "process_env \<Rightarrow> thrown + ca_Config" where
  "ca_getConfig env =
     (let issues = required_string_issues (ANCHOR_IDENTITY_ID env) ''ANCHOR_IDENTITY_ID is required''
                   @ number_issues (ANCHOR_TIMEOUT_MS env)
      in if issues \<noteq> [] then Inl (zodError issues)
         else Inr \<lparr>ca_sessionId = string_default (ANCHOR_SESSION_ID env),
                   ca_apiKey = string_default (ANCHORBROWSER_API_KEY env),
                   ca_identityId = string_default (ANCHOR_IDENTITY_ID env),
                   ca_timeoutMs = number_default (ANCHOR_TIMEOUT_MS env),
                   ca_homeUrl = ''https://complyadvantage.com/'',
                   ca_meshUrl = ''https://mesh.complyadvantage.com/''\<rparr>)"

definition ca_getAnchorBrowser :: "env \<Rightarrow> process_env \<Rightarrow> unit prog" where
  "ca_getAnchorBrowser E penv =
     andThen (lift (ca_getConfig penv)) (\<lambda>config.
       if ca_sessionId config \<noteq> [] then act E (Connect (ca_sessionId config))
       else act E (Create NoConfiguration))"

definition ca_fetchIdentityCredentials :: "env \<Rightarrow> string \<Rightarrow> IdentityCredentialsResponse prog" where
  "ca_fetchIdentityCredentials E identityId = retrieveCredentials E identityId"

definition validateRequiredInputs :: "process_env \<Rightarrow> thrown + unit" where
  "validateRequiredInputs penv =
     (case ca_getConfig penv of
        Inl e \<Rightarrow> Inl e
      | Inr config \<Rightarrow>
          if trim_is_empty (ca_identityId config) then
            Inl (ErrorObj ''Missing required input ANCHOR_IDENTITY_ID. Please set ANCHOR_IDENTITY_ID environment variable.'')
          else if trim_is_empty (ca_apiKey config) then
            Inl (ErrorObj ''Missing required input ANCHOR_API_KEY. Please set ANCHOR_API_KEY environment variable.'')
          else Inr ())"

text \<open>\<^verbatim>\<open>waitForVisible\<close> is always called without its third argument, whose default is
  \<^verbatim>\<open>getConfig().timeoutMs\<close>.\<close>

definition ca_waitForVisible :: "env \<Rightarrow> process_env \<Rightarrow> page \<Rightarrow> string \<Rightarrow> unit prog" where
  "ca_waitForVisible E penv page selector =
     andThen (lift (ca_getConfig penv)) (\<lambda>config.
       act E (WaitForSelector page selector (ca_timeoutMs config)))"

definition scrollToTop :: "env \<Rightarrow> page \<Rightarrow> unit prog" where
  "scrollToTop E page = act E (EvaluateScroll page)"

definition clickWithFallback :: "env \<Rightarrow> process_env \<Rightarrow> page \<Rightarrow> string \<Rightarrow> string \<Rightarrow> bool prog" where
  "clickWithFallback E penv page selector description =
     andThen (lift (ca_getConfig penv)) (\<lambda>config.
     andThen (ca_waitForVisible E penv page selector) (\<lambda>u.
     andThen (scrollToTop E page) (\<lambda>u.
       tryCatch
         (andThen (act E (Click (First (Locator page selector)) (Some (ca_timeoutMs config)))) (\<lambda>u. ret True))
         (\<lambda>e. tryCatch
                 (andThen (act E (EvaluateClick (First (Locator page selector)))) (\<lambda>u. ret True))
                 (\<lambda>e2. ret False)))))"

definition ca_navigateToHomepage :: "env \<Rightarrow> process_env \<Rightarrow> page \<Rightarrow> unit prog" where
  "ca_navigateToHomepage E penv page =
     andThen (lift (ca_getConfig penv)) (\<lambda>config.
       tryCatch (act E (Goto page (ca_homeUrl config) (ca_timeoutMs config)))
         (\<lambda>navErr.
            andThen (tryCatch (isVisible E (First (Locator page loginNavButton)) None) (\<lambda>e. ret False))
              (\<lambda>hasLoginButton. if \<not> hasLoginButton then throw navErr else ret ())))"

definition acceptAllButton :: string where
  \<open>acceptAllButton = ''button[title='Accept all'], button[aria-label='Accept all']''\<close>

definition dismissCookieBanner :: "env \<Rightarrow> page \<Rightarrow> unit prog" where
  "dismissCookieBanner E page =
     tryCatch
       (andThen (tryCatch (isVisible E (Locator page ''#notice'') (Some 2000)) (\<lambda>e. ret False)) (\<lambda>isVisible'.
          if isVisible' then
            andThen (tryCatch (isVisible E (First (Within (Locator page ''#notice'') acceptAllButton)) None)
                       (\<lambda>e. ret False))
              (\<lambda>v. if v then act E (Click (First (Within (Locator page ''#notice'') acceptAllButton)) None)
                    else ret ())
          else ret ()))
       (\<lambda>e. ret ())"

definition meshModalButton :: string where
  "meshModalButton = ''#mesh-li-modal-button''"

text \<open>\<^verbatim>\<open>page.goto(config.meshUrl, ...).catch(() => {})\<close>\<close>

definition gotoMesh :: "env \<Rightarrow> ca_Config \<Rightarrow> page \<Rightarrow> unit prog" where
  "gotoMesh E config page =
     tryCatch (act E (Goto page (ca_meshUrl config) (ca_timeoutMs config))) (\<lambda>e. ret ())"

definition openLoginModal :: "env \<Rightarrow> process_env \<Rightarrow> page \<Rightarrow> bool prog" where
  "openLoginModal E penv page =
     andThen (lift (ca_getConfig penv)) (\<lambda>config.
     andThen (clickWithFallback E penv page loginNavButton ''Login button'') (\<lambda>clicked.
       if \<not> clicked then andThen (gotoMesh E config page) (\<lambda>u. ret False)
       else
         andThen (tryCatch (isVisible E (First (Locator page ''#mesh-li-modal-button, #loginModal'')) None)
                    (\<lambda>e. ret False))
           (\<lambda>modalVisible.
              if \<not> modalVisible then andThen (gotoMesh E config page) (\<lambda>u. ret False)
              else ret True)))"

text \<open>\<^verbatim>\<open>Promise.all([p, q])\<close> of two calls that may both reject: \<open>p\<close> is issued before
  \<open>q\<close>; if one rejects it is the completion, and if both reject the one that settled
  first is.\<close>

definition promiseAllPair :: "env \<Rightarrow> 'a prog \<Rightarrow> 'b prog \<Rightarrow> ('a \<times> 'b) prog" where
  "promiseAllPair E p q h =
     (case p h of
        (r1, t1) \<Rightarrow>
          (case q (h @ t1) of
             (r2, t2) \<Rightarrow>
               ((case r1 of
                   Inr a \<Rightarrow> (case r2 of Inr b \<Rightarrow> Inr (a, b) | Inl e2 \<Rightarrow> Inl e2)
                 | Inl e1 \<Rightarrow>
                     (case r2 of
                        Inr b \<Rightarrow> Inl e1
                      | Inl e2 \<Rightarrow> if e_latency E (h @ t1) \<le> e_latency E (h @ t1 @ t2) then Inl e1 else Inl e2)),
                t1 @ t2)))"

text \<open>\<^verbatim>\<open>/complyadvantage|auth0|mesh/i.test(u)\<close>\<close>

definition isAuthUrl :: "string \<Rightarrow> bool" where
  "isAuthUrl u =
     (js_includes (js_toLowerCase u) ''complyadvantage'' \<or>
      js_includes (js_toLowerCase u) ''auth0'' \<or>
      js_includes (js_toLowerCase u) ''mesh'')"

text \<open>\<^verbatim>\<open>pages.find((p) => /.../i.test(p.url()))\<close>: the URL of each page is read until one
  matches.\<close>

primrec findAuthPage :: "env \<Rightarrow> page list \<Rightarrow> page option prog" where
  "findAuthPage E [] = ret None"
| "findAuthPage E (p # ps) = andThen (url E p) (\<lambda>u. if isAuthUrl u then ret (Some p) else findAuthPage E ps)"

definition selectMeshLoginOption :: "env \<Rightarrow> process_env \<Rightarrow> page \<Rightarrow> nat \<Rightarrow> page prog" where
  "selectMeshLoginOption E penv page context =
     andThen (pages E context) (\<lambda>ps.
     andThen
       (case find (\<lambda>p. p \<noteq> page) ps of
          Some authPage \<Rightarrow> ret (Some authPage)
        | None \<Rightarrow>
            andThen (tryCatch (isVisible E (First (Locator page meshModalButton)) None) (\<lambda>e. ret False))
              (\<lambda>isVisible'.
                 if isVisible' then
                   andThen (lift (ca_getConfig penv)) (\<lambda>config.
                   andThen (promiseAllPair E (waitForEvent E (ca_timeoutMs config))
                                             (act E (Click (First (Locator page meshModalButton)) None)))
                     (\<lambda>r. ret (Some (fst r))))
                 else ret None))
       (\<lambda>authPage.
          andThen
            (case authPage of
               Some a \<Rightarrow> ret a
             | None \<Rightarrow>
                 andThen (pages E context) (\<lambda>ps'.
                 andThen (findAuthPage E ps') (\<lambda>found.
                   ret (case found of Some a \<Rightarrow> a | None \<Rightarrow> page))))
            (\<lambda>authPage. andThen (url E authPage) (\<lambda>u. ret authPage))))"

definition waitForAuth0Page :: "env \<Rightarrow> process_env \<Rightarrow> page \<Rightarrow> unit prog" where
  "waitForAuth0Page E penv page =
     andThen
       (tryCatch
          (andThen (lift (ca_getConfig penv)) (\<lambda>config.
             act E (WaitForURL page ''**auth0.com/**'' (ca_timeoutMs config))))
          (\<lambda>e. ret ()))
       (\<lambda>u. andThen (url E page) (\<lambda>u. ret ()))"

definition enterOrganization :: "env \<Rightarrow> page \<Rightarrow> string \<Rightarrow> unit prog" where
  "enterOrganization E page organization =
     tryCatch
       (andThen (act E (WaitForSelector page ''#organizationName'' 7000)) (\<lambda>u.
        andThen (act E (Fill (Locator page ''#organizationName'') organization)) (\<lambda>u.
        act E (Press (Locator page ''#organizationName'') ''Enter''))))
       (\<lambda>e. ret ())"

definition ca_enterUsername :: "env \<Rightarrow> process_env \<Rightarrow> page \<Rightarrow> string \<Rightarrow> unit prog" where
  "ca_enterUsername E penv page username =
     andThen (ca_waitForVisible E penv page ''#username'') (\<lambda>u.
     andThen (act E (Fill (Locator page ''#username'') username)) (\<lambda>u.
     act E (Press (Locator page ''#username'') ''Enter'')))"

definition enterPassword :: "env \<Rightarrow> process_env \<Rightarrow> page \<Rightarrow> string \<Rightarrow> unit prog" where
  "enterPassword E penv page password =
     andThen (ca_waitForVisible E penv page ''#password'') (\<lambda>u.
     andThen (act E (Fill (Locator page ''#password'') password)) (\<lambda>u.
     act E (Press (Locator page ''#password'') ''Enter'')))"

definition meshPattern :: string where
  "meshPattern = ''**mesh.complyadvantage.com/**''"

definition verifyMeshLogin :: "env \<Rightarrow> process_env \<Rightarrow> page \<Rightarrow> bool prog" where
  "verifyMeshLogin E penv page =
     tryCatch
       (andThen (lift (ca_getConfig penv)) (\<lambda>config.
        andThen (act E (WaitForURL page meshPattern (max (ca_timeoutMs config) 60000))) (\<lambda>u. ret True)))
       (\<lambda>e. andThen (url E page) (\<lambda>currentUrl. ret (js_includes currentUrl ''mesh.complyadvantage.com/'')))"

text \<open>The statements of \<^verbatim>\<open>LoginToComplyAdvantageMesh\<close> inside its last \<^verbatim>\<open>try\<close> block.\<close>

definition ca_tryBlock :: "env \<Rightarrow> process_env \<Rightarrow> page \<Rightarrow> nat \<Rightarrow> ComplyAdvantageCredentials \<Rightarrow> LoginResult prog" where
  "ca_tryBlock E penv page context credentials =
     andThen (ca_navigateToHomepage E penv page) (\<lambda>u.
     andThen (dismissCookieBanner E page) (\<lambda>u.
     andThen (openLoginModal E penv page) (\<lambda>opened.
     andThen (selectMeshLoginOption E penv page context) (\<lambda>authPage.
     andThen (waitForAuth0Page E penv authPage) (\<lambda>u.
     andThen (enterOrganization E authPage (ca_organization credentials)) (\<lambda>u.
     andThen (ca_enterUsername E penv authPage (ca_username credentials)) (\<lambda>u.
     andThen (enterPassword E penv authPage (ca_password credentials)) (\<lambda>u.
     andThen (verifyMeshLogin E penv authPage) (\<lambda>meshReached.
       if \<not> meshReached then
         andThen (url E authPage) (\<lambda>finalUrl.
           ret \<lparr>success = False,
                message = ''Login flow completed but Mesh URL not confirmed. Current URL: '' @ finalUrl\<rparr>)
       else
         ret \<lparr>success = True,
              message = ''Logged in to ComplyAdvantage Mesh as '' @ ca_username credentials
                        @ '' (org: '' @ ca_organization credentials @ '').''\<rparr>)))))))))"

definition ca_catchBlock :: "thrown \<Rightarrow> LoginResult prog" where
  "ca_catchBlock error =
     ret \<lparr>success = False, message = or_else (errorMessage error) ''Unknown error during Mesh login.''\<rparr>"

text \<open>The second \<^verbatim>\<open>try\<close> block of \<^verbatim>\<open>LoginToComplyAdvantageMesh\<close>: the credentials, or the
  result that its \<^verbatim>\<open>catch\<close> returns.\<close>

definition ca_credentialsBlock :: "env \<Rightarrow> process_env \<Rightarrow> (LoginResult + ComplyAdvantageCredentials) prog" where
  "ca_credentialsBlock E penv =
     tryCatch
       (andThen (lift (ca_getConfig penv)) (\<lambda>config.
        andThen (ca_fetchIdentityCredentials E (ca_identityId config)) (\<lambda>identityResponse.
        andThen (lift (parseComplyAdvantageCredentials (ir_credentials identityResponse))) (\<lambda>credentials.
        ret (Inr credentials)))))
       (\<lambda>e. ret (Inl \<lparr>success = False, message = or_else (errorMessage e) ''Failed to fetch credentials''\<rparr>))"

definition LoginToComplyAdvantageMesh :: "env \<Rightarrow> process_env \<Rightarrow> LoginResult prog" where
  "LoginToComplyAdvantageMesh E penv =
     (case validateRequiredInputs penv of
        Inl e \<Rightarrow> ret \<lparr>success = False, message = or_else (errorMessage e) ''Missing required inputs''\<rparr>
      | Inr u \<Rightarrow>
          andThen (ca_credentialsBlock E penv) (\<lambda>r.
            case r of
              Inl failed \<Rightarrow> ret failed
            | Inr credentials \<Rightarrow>
                andThen (ca_getAnchorBrowser E penv) (\<lambda>browser.
                andThen (contexts E) (\<lambda>cs.
                  case cs of
                    [] \<Rightarrow> ret \<lparr>success = False, message = ''Failed to get browser context''\<rparr>
                  | context # cs' \<Rightarrow>
                      andThen (pages E context) (\<lambda>ps.
                        case ps of
                          [] \<Rightarrow> ret \<lparr>success = False, message = ''Failed to get browser page''\<rparr>
                        | page # ps' \<Rightarrow>
                            tryFinally (tryCatch (ca_tryBlock E penv page context credentials) ca_catchBlock)
                              (act E Close))))))"

section \<open>The agent flow\<close>

record ag_Config =
  ag_sessionId :: string
  ag_identityId :: string

definition ag_getConfig :: "process_env \<Rightarrow> thrown + ag_Config" where
  "ag_getConfig env =
     (let issues = required_string_issues (ANCHOR_SESSION_ID env) ''ANCHOR_SESSION_ID is required''
                   @ required_string_issues (ANCHOR_IDENTITY_ID env) ''ANCHOR_IDENTITY_ID is required''
      in if issues \<noteq> [] then Inl (zodError issues)
         else Inr \<lparr>ag_sessionId = string_default (ANCHOR_SESSION_ID env),
                   ag_identityId = string_default (ANCHOR_IDENTITY_ID env)\<rparr>)"

definition setupBrowser :: "env \<Rightarrow> ag_Config \<Rightarrow> unit prog" where
  "setupBrowser E config = act E (Connect (ag_sessionId config))"

text \<open>\<^verbatim>\<open>client.agent.task(RUN_AGENTIC_VALIDATION_PROMPT, { sessionId, taskOptions: { url } })\<close>
  is the action \<open>AgentTask sessionId url\<close>; what the task resolves to is not read.\<close>

definition loginWithAgent :: "env \<Rightarrow> process_env \<Rightarrow> LoginResult prog" where
  "loginWithAgent E penv =
     tryCatch
       (andThen (lift (ag_getConfig penv)) (\<lambda>config.
        andThen (retrieveCredentials E (ag_identityId config)) (\<lambda>credentials.
        andThen (setupBrowser E config) (\<lambda>u.
        andThen (act E (AgentTask (ag_sessionId config) (''https://'' @ ir_source credentials))) (\<lambda>u.
        ret \<lparr>success = True, message = ''Agent-based login placeholder''\<rparr>)))))
       (\<lambda>error. ret \<lparr>success = False, message = or_else (errorMessage error) ''Agent-based login failed''\<rparr>)"


section \<open>Notions of the specification\<close>

subsection \<open>Matching records of a credential bundle\<close>

text \<open>What a record of the bundle contributes to each resolved field, and the last
  record of the bundle that contributes anything.\<close>

fun userpass_of :: "credential \<Rightarrow> (string \<times> string) option" where
  "userpass_of (UsernamePassword u p) = Some (u, p)"
| "userpass_of c = None"

fun otp_of :: "credential \<Rightarrow> string option" where
  "otp_of (Authenticator v) = Some (case v of None \<Rightarrow> [] | Some s \<Rightarrow> s)"
| "otp_of c = None"


definition last_match :: "('a \<Rightarrow> 'b option) \<Rightarrow> 'a list \<Rightarrow> 'b option" where
  "last_match f xs = (case find (\<lambda>x. f x \<noteq> None) (rev xs) of None \<Rightarrow> None | Some x \<Rightarrow> f x)"

definition matched_username :: "credential list \<Rightarrow> string" where
  "matched_username cs = (case last_match userpass_of cs of None \<Rightarrow> [] | Some up \<Rightarrow> fst up)"
definition matched_password :: "credential list \<Rightarrow> string" where
  "matched_password cs = (case last_match userpass_of cs of None \<Rightarrow> [] | Some up \<Rightarrow> snd up)"
definition matched_otp :: "credential list \<Rightarrow> string" where
  "matched_otp cs = (case last_match otp_of cs of None \<Rightarrow> [] | Some v \<Rightarrow> v)"

subsection \<open>Properties of traces\<close>

text \<open>A computation only adds events that satisfy \<open>P\<close>.\<close>

definition emits :: "(event \<Rightarrow> bool) \<Rightarrow> 'a prog \<Rightarrow> bool" where
  "emits P m = (\<forall>h. list_all P (snd (m h)))"

fun is_close :: "event \<Rightarrow> bool" where
  "is_close (Act a r) = (a = Close)"
| "is_close e = False"

fun is_page_obtained :: "event \<Rightarrow> bool" where
  "is_page_obtained (Pages c ps) = (ps \<noteq> [])"
| "is_page_obtained e = False"

fun is_session_acquired :: "event \<Rightarrow> bool" where
  "is_session_acquired (Act (Connect s) (Inr u)) = True"
| "is_session_acquired (Act (Create c) (Inr u)) = True"
| "is_session_acquired e = False"

text \<open>The primary submit of the LinkedIn flow: Enter pressed on the password field.\<close>

fun is_password_submit :: "event \<Rightarrow> bool" where
  "is_password_submit (Act (Press (Locator p s) k) r) = (s = li_passwordField \<and> k = ''Enter'')"
| "is_password_submit e = False"

text \<open>The error of a failed acquisition of the session or of a failed close.\<close>

fun session_call_failed :: "event \<Rightarrow> thrown option" where
  "session_call_failed (Act (Connect s) (Inl e)) = Some e"
| "session_call_failed (Act (Create c) (Inl e)) = Some e"
| "session_call_failed (Act Close (Inl e)) = Some e"
| "session_call_failed ev = None"

subsection \<open>Probing a list of candidate selectors\<close>

text \<open>The events and the result array of the probing of a list of candidates. In a
  trace, the probe of a locator settled with the answer ``visible''; candidate \<open>i\<close> of a
  list is the first, in the order of the list, whose probe did. \<open>probe_visible\<close> and
  \<open>first_visible\<close> say so of the probing that starts after the history \<open>h\<close>.\<close>

definition probe_events :: "env \<Rightarrow> page \<Rightarrow> string list \<Rightarrow> event list \<Rightarrow> event list" where
  "probe_events E page sels h = snd (probeSelectors E page sels h)"

definition probe_results :: "env \<Rightarrow> page \<Rightarrow> string list \<Rightarrow> event list \<Rightarrow> string option list" where
  "probe_results E page sels h = (case fst (probeSelectors E page sels h) of Inl e \<Rightarrow> [] | Inr rs \<Rightarrow> rs)"

fun is_settle :: "event \<Rightarrow> bool" where
  "is_settle (IsVisibleSettled l t r) = True"
| "is_settle e = False"

fun settled_as_visible :: "locator \<Rightarrow> event \<Rightarrow> bool" where
  "settled_as_visible loc (IsVisibleSettled l t r) = (l = loc \<and> r = Inr True)"
| "settled_as_visible loc e = False"

fun settled_locator :: "event \<Rightarrow> locator option" where
  "settled_locator (IsVisibleSettled l t r) = Some l"
| "settled_locator e = None"

definition first_visible_in :: "event list \<Rightarrow> page \<Rightarrow> string list \<Rightarrow> nat \<Rightarrow> bool" where
  "first_visible_in t page sels i =
     (i < length sels \<and> list_ex (settled_as_visible (First (Locator page (sels ! i)))) t \<and>
      (\<forall>j<i. \<not> list_ex (settled_as_visible (First (Locator page (sels ! j)))) t))"

definition probe_visible :: "env \<Rightarrow> page \<Rightarrow> string list \<Rightarrow> event list \<Rightarrow> nat \<Rightarrow> bool" where
  "probe_visible E page sels h i =
     list_ex (settled_as_visible (First (Locator page (sels ! i)))) (probe_events E page sels h)"

definition first_visible :: "env \<Rightarrow> page \<Rightarrow> string list \<Rightarrow> event list \<Rightarrow> nat \<Rightarrow> bool" where
  "first_visible E page sels h i = first_visible_in (probe_events E page sels h) page sels i"

text \<open>The events with which the pending probes of the candidates \<open>ks\<close> settle, in that
  order, after the history \<open>hist\<close>.\<close>

primrec settle_events :: "env \<Rightarrow> page \<Rightarrow> string list \<Rightarrow> nat list \<Rightarrow> event list \<Rightarrow> event list" where
  "settle_events E page sels [] hist = []"
| "settle_events E page sels (k # ks) hist =
     IsVisibleSettled (First (Locator page (sels ! k))) None (e_isVisible E hist (First (Locator page (sels ! k))) None)
     # settle_events E page sels ks
         (hist @ [IsVisibleSettled (First (Locator page (sels ! k))) None
                    (e_isVisible E hist (First (Locator page (sels ! k))) None)])"

text \<open>The answers of the page driver to \<^verbatim>\<open>isVisible\<close> do not change during the attempt.\<close>

definition steady_visibility :: "env \<Rightarrow> bool" where
  "steady_visibility E = (\<forall>h h' l t. e_isVisible E h l t = e_isVisible E h' l t)"

fun is_click_on :: "locator \<Rightarrow> event \<Rightarrow> bool" where
  "is_click_on loc (Act (Click l t) r) = (l = loc)"
| "is_click_on loc e = False"

subsection \<open>Verification, submission and the pre-login check\<close>

text \<open>The timeout of a wait for a URL. The events of a verification step (the wait for
  the URL and the reading of the current URL). The pre-login check of the LinkedIn flow
  matched: the first wait for the feed URL succeeded, or it failed and the URL read
  next is a feed URL. An event waits for, fills or presses a key on the username or
  the password field of LinkedIn.\<close>

fun url_wait_timeout :: "event \<Rightarrow> int option" where
  "url_wait_timeout (Act (WaitForURL p pat t) r) = Some t"
| "url_wait_timeout e = None"

fun is_verification :: "event \<Rightarrow> bool" where
  "is_verification (Act (WaitForURL p pat t) r) = True"
| "is_verification (Url p u) = True"
| "is_verification e = False"

definition precheck_matched :: "event list \<Rightarrow> bool" where
  "precheck_matched t =
     (case filter is_verification t of
        Act a (Inr u) # rest \<Rightarrow> True
      | Act a (Inl e) # Url p currentUrl # rest \<Rightarrow> js_includes currentUrl ''linkedin.com/feed/''
      | _ \<Rightarrow> False)"

fun touches_credential_field :: "event \<Rightarrow> bool" where
  "touches_credential_field (Act (WaitForSelector p s t) r) = (s \<in> {li_usernameField, li_passwordField})"
| "touches_credential_field (Act (Fill (Locator p s) v) r) = (s \<in> {li_usernameField, li_passwordField})"
| "touches_credential_field (Act (Press (Locator p s) k) r) = (s \<in> {li_usernameField, li_passwordField})"
| "touches_credential_field (Act (TypeText (Locator p s) v) r) = (s \<in> {li_usernameField, li_passwordField})"
| "touches_credential_field (Act (Click (Locator p s) t) r) = (s \<in> {li_usernameField, li_passwordField})"
| "touches_credential_field e = False"

text \<open>The verification step in the words of the specification: wait for the URL
  pattern; on a timeout read the current URL once and test it.\<close>

definition wait_then_recheck :: "env \<Rightarrow> page \<Rightarrow> string \<Rightarrow> int \<Rightarrow> string \<Rightarrow> bool prog" where
  "wait_then_recheck E page pattern timeout needle h =
     (case e_act E h (WaitForURL page pattern timeout) of
        Inr u \<Rightarrow> (Inr True, [Act (WaitForURL page pattern timeout) (Inr u)])
      | Inl err \<Rightarrow>
          (Inr (js_includes (e_url E (h @ [Act (WaitForURL page pattern timeout) (Inl err)]) page) needle),
           [Act (WaitForURL page pattern timeout) (Inl err),
            Url page (e_url E (h @ [Act (WaitForURL page pattern timeout) (Inl err)]) page)]))"

fun is_password_submitted :: "event \<Rightarrow> bool" where
  "is_password_submitted (Act (Press (Locator p s) k) (Inr u)) = (s = li_passwordField \<and> k = ''Enter'')"
| "is_password_submitted e = False"

fun is_mesh_password_submitted :: "event \<Rightarrow> bool" where
  "is_mesh_password_submitted (Act (Press (Locator p s) k) (Inr u)) = (s = ''#password'' \<and> k = ''Enter'')"
| "is_mesh_password_submitted e = False"



text \<open>A read of the current URL of a page.\<close>

fun is_url_read :: "event \<Rightarrow> bool" where
  "is_url_read (Url p u) = True"
| "is_url_read e = False"

definition already_authenticated :: LoginResult where
  "already_authenticated = \<lparr>success = True, message = ''Already authenticated. Landed on /feed.''\<rparr>"

text \<open>The calls before the \<^verbatim>\<open>try\<close> block of a flow.\<close>

fun is_setup_event :: "event \<Rightarrow> bool" where
  "is_setup_event (RetrieveCredentials i r) = True"
| "is_setup_event (Act (Connect s) r) = True"
| "is_setup_event (Act (Create c) r) = True"
| "is_setup_event (Contexts cs) = True"
| "is_setup_event (Pages c ps) = True"
| "is_setup_event e = False"

subsection \<open>Submit actions\<close>

text \<open>The submit actions of an attempt, by kind: the Enter key-press on the LinkedIn
  password field, the Enter key-press on a one-time-code field (the first match of a
  single-field selector or one of the digit fields), a click on the first match of one
  of the generic submit selectors, and any other Enter key-press or click. \<open>submits\<close>
  is the sequence of the submit actions of a trace.\<close>

datatype submit_kind = PasswordKey | OtpKey | GenericClick | OtherSubmit

fun is_otp_field :: "locator \<Rightarrow> bool" where
  "is_otp_field (First (Locator p s)) = (s \<in> set singleSelectors)"
| "is_otp_field (Nth (Locator p s) i) = (s = digitInputsSelector)"
| "is_otp_field l = False"

text \<open>The completed Enter key-press on a one-time-code field.\<close>

fun is_otp_submitted :: "event \<Rightarrow> bool" where
  "is_otp_submitted (Act (Press l k) (Inr u)) = (is_otp_field l \<and> k = ''Enter'')"
| "is_otp_submitted e = False"

fun is_generic_control :: "locator \<Rightarrow> bool" where
  "is_generic_control (First (Locator p s)) = (s \<in> set submitSelectors)"
| "is_generic_control l = False"

fun is_password_field :: "locator \<Rightarrow> bool" where
  "is_password_field (Locator p s) = (s = li_passwordField)"
| "is_password_field l = False"

fun submit_of :: "event \<Rightarrow> submit_kind option" where
  "submit_of (Act (Press l k) r) =
     (if k \<noteq> ''Enter'' then None
      else if is_password_field l then Some PasswordKey
      else if is_otp_field l then Some OtpKey
      else Some OtherSubmit)"
| "submit_of (Act (Click l t) r) = (if is_generic_control l then Some GenericClick else Some OtherSubmit)"
| "submit_of (Act (EvaluateClick l) r) = Some OtherSubmit"
| "submit_of e = None"

definition submits :: "event list \<Rightarrow> submit_kind list" where
  "submits t = List.map_filter submit_of t"

subsection \<open>The one-time-code step\<close>

text \<open>The calls of a trace that fill, type, press a key, click or wait for a navigation.
  The calls that fill the first \<open>n\<close> digit fields, by index. A page driver that performs
  every fill, type and key-press. The locator of the digit fields.\<close>

fun otp_call :: "event \<Rightarrow> action option" where
  "otp_call (Act (Fill l v) r) = Some (Fill l v)"
| "otp_call (Act (TypeText l v) r) = Some (TypeText l v)"
| "otp_call (Act (Press l k) r) = Some (Press l k)"
| "otp_call (Act (Click l t) r) = Some (Click l t)"
| "otp_call (Act (WaitForNavigation p t) r) = Some (WaitForNavigation p t)"
| "otp_call e = None"

definition otp_calls :: "event list \<Rightarrow> action list" where
  "otp_calls t = List.map_filter otp_call t"

definition digitInputs :: "page \<Rightarrow> locator" where
  "digitInputs page = Locator page digitInputsSelector"

definition digit_calls :: "locator \<Rightarrow> string \<Rightarrow> nat \<Rightarrow> action list" where
  "digit_calls loc otp n =
     concat (map (\<lambda>i. [Fill (Nth loc (int i)) [], TypeText (Nth loc (int i)) [otp ! i]]) [0..<n])"

text \<open>The calls of the single-field tactic on a combined code field, and those of the
  multi-field tactic on the digit fields when \<open>n\<close> fields are counted: the first
  \<open>min n (length otp)\<close> fields are cleared and typed into, and Enter is pressed on the
  field of index \<open>min n (length otp) - 1\<close>.\<close>

definition single_calls :: "locator \<Rightarrow> page \<Rightarrow> string \<Rightarrow> action list" where
  "single_calls loc page otp =
     [Fill loc [], Fill loc otp, WaitForNavigation page 45000, Press loc ''Enter'']"

definition multi_calls :: "locator \<Rightarrow> page \<Rightarrow> string \<Rightarrow> nat \<Rightarrow> action list" where
  "multi_calls loc page otp n =
     digit_calls loc otp (min n (length otp)) @
     [WaitForNavigation page 45000, Press (Nth loc (int (min n (length otp)) - 1)) ''Enter'']"

text \<open>The calls of a trace are an initial part of a script, and the trace ends with the
  last of them, which the page driver rejected with \<open>e\<close>.\<close>

definition stopped_at :: "event list \<Rightarrow> action list \<Rightarrow> thrown \<Rightarrow> bool" where
  "stopped_at t script e =
     (t \<noteq> [] \<and> otp_calls t \<noteq> [] \<and> prefix (otp_calls t) script \<and>
      last t = Act (last (otp_calls t)) (Inl e))"


fun counted :: "event \<Rightarrow> nat option" where
  "counted (Count l (Inr n)) = Some n"
| "counted e = None"

definition enters_code :: "page \<Rightarrow> string \<Rightarrow> event list \<Rightarrow> bool" where
  "enters_code page otp t =
     (list_ex (\<lambda>sel. prefix (single_calls (First (Locator page sel)) page otp) (otp_calls t)) singleSelectors \<or>
      list_ex (\<lambda>n. prefix (multi_calls (digitInputs page) page otp n) (otp_calls t)) (List.map_filter counted t))"

definition accepts :: "env \<Rightarrow> bool" where
  "accepts E =
     (\<forall>h l v. e_act E h (Fill l v) = Inr () \<and> e_act E h (TypeText l v) = Inr () \<and> e_act E h (Press l v) = Inr ())"


text \<open>The completed Enter key-press on the password field of a page.\<close>

definition password_press :: "page \<Rightarrow> event" where
  "password_press page = Act (Press (Locator page li_passwordField) ''Enter'') (Inr ())"


section \<open>Example environments\<close>

definition response_up :: IdentityCredentialsResponse where
  "response_up = \<lparr>ir_name = ''Jo'', ir_source = ''linkedin.com'', ir_credentials = [UsernamePassword ''u'' ''p'']\<rparr>"

definition penv_ok :: process_env where
  "penv_ok = \<lparr>ANCHOR_SESSION_ID = None, ANCHOR_IDENTITY_ID = Some ''id-1'', ANCHOR_TIMEOUT_MS = None,
               ANCHORBROWSER_API_KEY = Some ''key''\<rparr>"

text \<open>Every call succeeds at once; nothing is visible.\<close>

definition env_quiet :: env where
  "env_quiet =
     \<lparr>e_act = (\<lambda>h a. Inr ()),
      e_retrieveCredentials = (\<lambda>h i. Inr response_up),
      e_isVisible = (\<lambda>h l t. Inr False),
      e_count = (\<lambda>h l. Inr 0),
      e_url = (\<lambda>h p. ''https://www.linkedin.com/uas/login''),
      e_contexts = (\<lambda>h. [0]),
      e_pages = (\<lambda>h c. [0]),
      e_waitForEvent = (\<lambda>h t. Inr 1),
      e_latency = (\<lambda>h. 0)\<rparr>"

text \<open>The feed is reached only once the password has been submitted.\<close>

definition act_after_password :: "event list \<Rightarrow> action \<Rightarrow> thrown + unit" where
  "act_after_password h a =
     (case a of
        WaitForURL p pat t \<Rightarrow> if list_ex is_password_submit h then Inr () else Inl (ErrorObj ''Timeout'')
      | _ \<Rightarrow> Inr ())"

definition env_A :: env where
  "env_A = env_quiet\<lparr>e_act := act_after_password\<rparr>"

definition env_no_context :: env where
  "env_no_context = env_quiet\<lparr>e_contexts := (\<lambda>h. [])\<rparr>"

text \<open>A bundle for the Mesh flow, with an organization field; every call succeeds.\<close>

definition response_org :: IdentityCredentialsResponse where
  "response_org = \<lparr>ir_name = ''Jo'', ir_source = ''complyadvantage.com'',
     ir_credentials = [UsernamePassword ''u'' ''p'', Custom [(''Organization Name'', ''acme'')]]\<rparr>"

definition env_mesh :: env where
  "env_mesh = env_quiet\<lparr>e_retrieveCredentials := (\<lambda>h i. Inr response_org),
                         e_url := (\<lambda>h p. ''https://complyadvantage.com/'')\<rparr>"

text \<open>The session's page already shows the Mesh application.\<close>

definition env_mesh_signed_in :: env where
  "env_mesh_signed_in = env_mesh\<lparr>e_url := (\<lambda>h p. ''https://mesh.complyadvantage.com/cases'')\<rparr>"

text \<open>A bundle whose password is empty.\<close>

definition response_no_password :: IdentityCredentialsResponse where
  "response_no_password = \<lparr>ir_name = ''Jo'', ir_source = ''linkedin.com'',
     ir_credentials = [UsernamePassword ''u'' '''', Custom [(''Company'', ''acme'')]]\<rparr>"

definition env_no_password :: env where
  "env_no_password = env_quiet\<lparr>e_retrieveCredentials := (\<lambda>h i. Inr response_no_password)\<rparr>"

text \<open>Failures of the configuration and of the collaborators.\<close>

definition penv_no_identity :: process_env where
  "penv_no_identity = \<lparr>ANCHOR_SESSION_ID = None, ANCHOR_IDENTITY_ID = None, ANCHOR_TIMEOUT_MS = None,
               ANCHORBROWSER_API_KEY = Some ''key''\<rparr>"

definition env_fetch_fails :: env where
  "env_fetch_fails = env_quiet\<lparr>e_retrieveCredentials := (\<lambda>h i. Inl (ErrorObj ''404 identity not found''))\<rparr>"

definition env_create_fails :: env where
  "env_create_fails =
     env_mesh\<lparr>e_act := (\<lambda>h a. case a of Create c \<Rightarrow> Inl (ErrorObj ''503 no capacity'') | _ \<Rightarrow> Inr ())\<rparr>"

definition env_close_fails :: env where
  "env_close_fails =
     env_quiet\<lparr>e_act := (\<lambda>h a. case a of Close \<Rightarrow> Inl (ErrorObj ''socket hang up'') | _ \<Rightarrow> Inr ())\<rparr>"

text \<open>Two candidates of each list are visible, and probes issued later settle earlier.\<close>

definition visible_here :: "event list \<Rightarrow> locator \<Rightarrow> int option \<Rightarrow> thrown + bool" where
  "visible_here h l t =
     Inr (l \<in> set [First (Locator 0 (submitSelectors ! 1)), First (Locator 0 (submitSelectors ! 3)),
                    First (Locator 0 (singleSelectors ! 2)), First (Locator 0 (singleSelectors ! 4))])"

definition env_two_visible :: env where
  "env_two_visible = env_quiet\<lparr>e_isVisible := visible_here, e_latency := (\<lambda>h. 100 - length h)\<rparr>"

definition response_otp :: IdentityCredentialsResponse where
  "response_otp = \<lparr>ir_name = ''Jo'', ir_source = ''linkedin.com'',
     ir_credentials = [UsernamePassword ''u'' ''p'', Authenticator (Some ''123456'')]\<rparr>"

text \<open>A bundle with a one-time code; the feed is never reached; the second combined
  code field and the Verify button are visible.\<close>

definition env_otp_fallback :: env where
  "env_otp_fallback =
     env_quiet\<lparr>e_retrieveCredentials := (\<lambda>h i. Inr response_otp),
               e_act := (\<lambda>h a. case a of WaitForURL p pat t \<Rightarrow> Inl (ErrorObj ''Timeout'') | _ \<Rightarrow> Inr ()),
               e_isVisible := (\<lambda>h l t. Inr (l \<in> set [First (Locator 0 (singleSelectors ! 1)),
                                                        First (Locator 0 (submitSelectors ! 1))]))\<rparr>"

text \<open>Eight digit fields and no combined code field.\<close>

definition env_eight_digits :: env where
  "env_eight_digits = env_quiet\<lparr>e_count := (\<lambda>h l. Inr 8)\<rparr>"


text \<open>The bundle has a one-time code until the password is submitted; the refreshed
  bundle has an empty password.\<close>

definition env_refresh_loses_password :: env where
  "env_refresh_loses_password =
     env_A\<lparr>e_retrieveCredentials :=
              (\<lambda>h i. if list_ex is_password_submitted h then Inr response_no_password else Inr response_otp)\<rparr>"

text \<open>A bundle with two authenticator records, the second one without a code; the feed
  is reached once the password has been submitted.\<close>

definition response_two_authenticators :: IdentityCredentialsResponse where
  "response_two_authenticators = \<lparr>ir_name = ''Jo'', ir_source = ''linkedin.com'',
     ir_credentials = [UsernamePassword ''u'' ''p'', Authenticator (Some ''123456''), Authenticator None]\<rparr>"

definition env_two_authenticators :: env where
  "env_two_authenticators = env_A\<lparr>e_retrieveCredentials := (\<lambda>h i. Inr response_two_authenticators)\<rparr>"

text \<open>The code of the bundle changes once the password has been submitted; the second
  combined code field is visible; the feed is reached once Enter has been pressed on a
  code field.\<close>

definition response_otp_new :: IdentityCredentialsResponse where
  "response_otp_new = \<lparr>ir_name = ''Jo'', ir_source = ''linkedin.com'',
     ir_credentials = [UsernamePassword ''u'' ''p'', Authenticator (Some ''654321'')]\<rparr>"

definition env_refresh_new_code :: env where
  "env_refresh_new_code =
     env_quiet\<lparr>e_retrieveCredentials :=
                 (\<lambda>h i. if list_ex is_password_submitted h then Inr response_otp_new else Inr response_otp),
               e_act := (\<lambda>h a. case a of
                                   WaitForURL p pat t \<Rightarrow>
                                     if list_ex is_otp_submitted h then Inr () else Inl (ErrorObj ''Timeout'')
                                 | _ \<Rightarrow> Inr ()),
               e_isVisible := (\<lambda>h l t. Inr (l = First (Locator 0 (singleSelectors ! 1))))\<rparr>"


section \<open>Credential extraction takes the last matching record\<close>

lemma last_match_Nil [simp]: "last_match f [] = None"
  by (simp add: last_match_def)

lemma last_match_snoc:
  "last_match f (xs @ [x]) = (case f x of None \<Rightarrow> last_match f xs | Some y \<Rightarrow> Some y)"
  by (auto simp: last_match_def split: option.splits)

lemma li_fold_matched:
  "foldl li_cred_step ([], [], []) cs = (matched_username cs, matched_password cs, matched_otp cs)"
proof (induction cs rule: rev_induct)
  case Nil
  show ?case by (simp add: matched_username_def matched_password_def matched_otp_def)
next
  case (snoc c cs)
  then show ?case
    by (cases c)
       (auto simp: matched_username_def matched_password_def matched_otp_def last_match_snoc or_else_def
             split: option.splits)
qed


lemma parseLinkedin_matched:
  "parseLinkedinCredentials cs =
     (if matched_username cs \<noteq> [] \<and> matched_password cs \<noteq> [] then
        Inr \<lparr>li_username = matched_username cs, li_password = matched_password cs, li_otp = matched_otp cs\<rparr>
      else Inl (ErrorObj (''Missing required credentials. Found: username='' @ js_bool (matched_username cs \<noteq> [])
                   @ '', password='' @ js_bool (matched_password cs \<noteq> []))))"
  by (simp add: parseLinkedinCredentials_def li_fold_matched)


section \<open>Rules for computations\<close>

named_theorems emits_rules

lemma fst_andThen:
  "fst (andThen m f h) = (case fst (m h) of Inl e \<Rightarrow> Inl e | Inr a \<Rightarrow> fst (f a (h @ snd (m h))))"
  by (simp add: andThen_def split: prod.splits sum.splits)

lemma snd_andThen:
  "snd (andThen m f h) = (case fst (m h) of Inl e \<Rightarrow> snd (m h) | Inr a \<Rightarrow> snd (m h) @ snd (f a (h @ snd (m h))))"
  by (simp add: andThen_def split: prod.splits sum.splits)

lemma fst_tryCatch:
  "fst (tryCatch m f h) = (case fst (m h) of Inl e \<Rightarrow> fst (f e (h @ snd (m h))) | Inr a \<Rightarrow> Inr a)"
  by (simp add: tryCatch_def split: prod.splits sum.splits)

lemma snd_tryCatch:
  "snd (tryCatch m f h) = (case fst (m h) of Inl e \<Rightarrow> snd (m h) @ snd (f e (h @ snd (m h))) | Inr a \<Rightarrow> snd (m h))"
  by (simp add: tryCatch_def split: prod.splits sum.splits)

lemma fst_tryFinally:
  "fst (tryFinally m c h) = (case fst (c (h @ snd (m h))) of Inl e \<Rightarrow> Inl e | Inr u \<Rightarrow> fst (m h))"
  by (simp add: tryFinally_def split: prod.splits sum.splits)

lemma snd_tryFinally:
  "snd (tryFinally m c h) = snd (m h) @ snd (c (h @ snd (m h)))"
  by (simp add: tryFinally_def split: prod.splits sum.splits)

lemma emitsD: "emits P m \<Longrightarrow> list_all P (snd (m h))"
  by (simp add: emits_def)

lemma emits_ret [emits_rules]: "emits P (ret a)"
  by (simp add: emits_def ret_def)

lemma emits_throw [emits_rules]: "emits P (throw e)"
  by (simp add: emits_def throw_def)

lemma emits_lift [emits_rules]: "emits P (lift r)"
  by (simp add: emits_def lift_def)

lemma emits_andThen [emits_rules]:
  assumes "emits P m" and "\<And>a. emits P (f a)"
  shows "emits P (andThen m f)"
  using assms by (simp add: emits_def snd_andThen split: sum.splits)

lemma emits_tryCatch [emits_rules]:
  assumes "emits P m" and "\<And>e. emits P (f e)"
  shows "emits P (tryCatch m f)"
  using assms by (simp add: emits_def snd_tryCatch split: sum.splits)

lemma emits_tryFinally [emits_rules]:
  assumes "emits P m" and "emits P c"
  shows "emits P (tryFinally m c)"
  using assms by (simp add: emits_def snd_tryFinally)

lemma emits_if [emits_rules]:
  "emits P a \<Longrightarrow> emits P b \<Longrightarrow> emits P (if c then a else b)"
  by simp

lemma emits_case_option [emits_rules]:
  "emits P a \<Longrightarrow> (\<And>y. emits P (b y)) \<Longrightarrow> emits P (case x of None \<Rightarrow> a | Some y \<Rightarrow> b y)"
  by (simp split: option.splits)

lemma emits_case_list [emits_rules]:
  "emits P a \<Longrightarrow> (\<And>y ys. emits P (b y ys)) \<Longrightarrow> emits P (case x of [] \<Rightarrow> a | y # ys \<Rightarrow> b y ys)"
  by (simp split: list.splits)

lemma emits_case_sum [emits_rules]:
  "(\<And>y. emits P (a y)) \<Longrightarrow> (\<And>y. emits P (b y)) \<Longrightarrow> emits P (case x of Inl y \<Rightarrow> a y | Inr y \<Rightarrow> b y)"
  by (simp split: sum.splits)

lemma emits_case_OtpInputResult [emits_rules]:
  "(\<And>y. emits P (a y)) \<Longrightarrow> (\<And>y. emits P (b y)) \<Longrightarrow> emits P (case x of Single y \<Rightarrow> a y | Multi y \<Rightarrow> b y)"
  by (simp split: OtpInputResult.splits)

lemma emits_Let [emits_rules]:
  "emits P (f v) \<Longrightarrow> emits P (Let v f)"
  by simp

lemma emits_forEach [emits_rules]:
  assumes "\<And>x. emits P (f x)"
  shows "emits P (forEach f xs)"
  by (induction xs) (auto intro: emits_rules assms)

lemma settle_fold_fst:
  "fst (fold (settleProbe E page sels) ks (hist, res)) = hist @ settle_events E page sels ks hist"
  by (induction ks arbitrary: hist res) (simp_all add: settleProbe_def)

lemma probe_events_eq:
  "probe_events E page sels h =
     issueProbes page sels @
     settle_events E page sels (settleOrder E h (issueProbes page sels)) (h @ issueProbes page sels)"
  unfolding probe_events_def probeSelectors_def
  by (simp add: split_beta settle_fold_fst)

lemma settle_events_all:
  "(\<And>l t r. P (IsVisibleSettled l t r)) \<Longrightarrow> list_all P (settle_events E page sels ks hist)"
  by (induction ks arbitrary: hist) simp_all

lemma issueProbes_all:
  "(\<And>l t. P (IsVisibleIssued l t)) \<Longrightarrow> list_all P (issueProbes page sels)"
  by (induction sels) (simp_all add: issueProbes_def)

lemma probe_events_all:
  "(\<And>l t. P (IsVisibleIssued l t)) \<Longrightarrow> (\<And>l t r. P (IsVisibleSettled l t r)) \<Longrightarrow>
   list_all P (probe_events E page sels h)"
  by (simp add: probe_events_eq settle_events_all issueProbes_all)

lemma emits_probeSelectors [emits_rules]:
  "(\<And>l t. P (IsVisibleIssued l t)) \<Longrightarrow> (\<And>l t r. P (IsVisibleSettled l t r)) \<Longrightarrow>
   emits P (probeSelectors E page sels)"
  using probe_events_all [of P E page sels] by (simp add: emits_def probe_events_def)

lemma emits_promiseAllPair [emits_rules]:
  "emits P p \<Longrightarrow> emits P q \<Longrightarrow> emits P (promiseAllPair E p q)"
  by (simp add: emits_def promiseAllPair_def split: prod.splits) (metis snd_conv)

lemma emits_act [emits_rules]: "(\<And>r. P (Act a r)) \<Longrightarrow> emits P (act E a)"
  by (simp add: emits_def act_def)

lemma emits_withNavigation [emits_rules]:
  "(\<And>r. P (Act (WaitForNavigation p 45000) r)) \<Longrightarrow> (\<And>r. P (Act a r)) \<Longrightarrow> emits P (withNavigation E p a)"
  by (simp add: emits_def withNavigation_def act_def)

lemma emits_retrieveCredentials [emits_rules]:
  "(\<And>r. P (RetrieveCredentials i r)) \<Longrightarrow> emits P (retrieveCredentials E i)"
  by (simp add: emits_def retrieveCredentials_def)

lemma emits_isVisible [emits_rules]:
  "(\<And>r. P (IsVisible l t r)) \<Longrightarrow> emits P (isVisible E l t)"
  by (simp add: emits_def isVisible_def)

lemma emits_count_of [emits_rules]:
  "(\<And>r. P (Count l r)) \<Longrightarrow> emits P (count_of E l)"
  by (simp add: emits_def count_of_def)

lemma emits_url [emits_rules]:
  "(\<And>r. P (Url p r)) \<Longrightarrow> emits P (url E p)"
  by (simp add: emits_def url_def)

lemma emits_contexts [emits_rules]:
  "(\<And>r. P (Contexts r)) \<Longrightarrow> emits P (contexts E)"
  by (simp add: emits_def contexts_def)

lemma emits_pages [emits_rules]:
  "(\<And>r. P (Pages c r)) \<Longrightarrow> emits P (pages E c)"
  by (simp add: emits_def pages_def)

lemma emits_waitForEvent [emits_rules]:
  "(\<And>r. P (WaitForEvent t r)) \<Longrightarrow> emits P (waitForEvent E t)"
  by (simp add: emits_def waitForEvent_def)

lemma emits_findAuthPage [emits_rules]:
  assumes "\<And>p r. P (Url p r)"
  shows "emits P (findAuthPage E ps)"
  by (induction ps) (auto intro!: emits_rules assms)

lemmas li_step_defs =
  li_navigateToHomepage_def verifyLogin_def li_enterUsername_def enterPasswordAndSubmit_def
  li_waitForVisible_def li_secondFactor_def li_fetchIdentityCredentials_def submitOtpCode_def
  locateOtpInputs_def clickCommonSubmit_def afterOtpSubmit_def
  fillDigit_def li_catchBlock_def li_getAnchorBrowser_def

lemmas ca_step_defs =
  ca_navigateToHomepage_def dismissCookieBanner_def openLoginModal_def clickWithFallback_def
  ca_waitForVisible_def scrollToTop_def gotoMesh_def selectMeshLoginOption_def waitForAuth0Page_def
  enterOrganization_def ca_enterUsername_def enterPassword_def verifyMeshLogin_def ca_catchBlock_def
  ca_getAnchorBrowser_def ca_fetchIdentityCredentials_def

lemma andThenE:
  assumes "andThen m f h = (r, t)"
  obtains (fail) e where "m h = (Inl e, t)" and "r = Inl e"
    | (ok) a t1 t2 where "m h = (Inr a, t1)" and "f a (h @ t1) = (r, t2)" and "t = t1 @ t2"
  using assms by (auto simp: andThen_def split: prod.splits sum.splits)

lemma tryCatchE:
  assumes "tryCatch m f h = (r, t)"
  obtains (caught) e t1 t2 where "m h = (Inl e, t1)" and "f e (h @ t1) = (r, t2)" and "t = t1 @ t2"
    | (ok) a where "m h = (Inr a, t)" and "r = Inr a"
  using assms by (auto simp: tryCatch_def split: prod.splits sum.splits)

lemma tryFinallyE:
  assumes "tryFinally m c h = (r, t)"
  obtains (thrown) r1 t1 e t2 where "m h = (r1, t1)" and "c (h @ t1) = (Inl e, t2)" and "r = Inl e" and "t = t1 @ t2"
    | (ok) t1 u t2 where "m h = (r, t1)" and "c (h @ t1) = (Inr u, t2)" and "t = t1 @ t2"
  using assms by (auto simp: tryFinally_def split: prod.splits sum.splits)

lemma liftE:
  assumes "lift x h = (r, t)"
  obtains "r = x" and "t = []"
  using assms by (simp add: lift_def)

lemma retE:
  assumes "ret x h = (r, t)"
  obtains "r = Inr x" and "t = []"
  using assms by (simp add: ret_def)

lemma actE:
  assumes "act E a h = (r, t)"
  obtains "e_act E h a = r" and "t = [Act a r]"
  using assms by (auto simp: act_def)

lemma retrieveCredentialsE:
  assumes "retrieveCredentials E i h = (r, t)"
  obtains "e_retrieveCredentials E h i = r" and "t = [RetrieveCredentials i r]"
  using assms by (auto simp: retrieveCredentials_def)

lemma contextsE:
  assumes "contexts E h = (r, t)"
  obtains cs where "e_contexts E h = cs" and "r = Inr cs" and "t = [Contexts cs]"
  using assms by (auto simp: contexts_def)

lemma pagesE:
  assumes "pages E c h = (r, t)"
  obtains ps where "e_pages E h c = ps" and "r = Inr ps" and "t = [Pages c ps]"
  using assms by (auto simp: pages_def)

lemma emits_run: "emits P m \<Longrightarrow> m h = (r, t) \<Longrightarrow> list_all P t"
  by (metis emitsD snd_conv)

lemmas monad_defs = andThen_def tryCatch_def tryFinally_def ret_def throw_def lift_def act_def
  retrieveCredentials_def isVisible_def count_of_def url_def contexts_def pages_def waitForEvent_def
  withNavigation_def promiseAllPair_def

lemmas probe_defs = probeSelectors_def settleOrder_def sort_key_const issueProbes_def settleProbe_def
  probeValue_def

lemmas config_defs = li_getConfig_def ca_getConfig_def ag_getConfig_def required_string_issues_def
  string_default_def number_issues_def number_default_def zodError_def validateRequiredInputs_def
  trim_is_empty_def white_space_def

lemmas parse_defs = parseLinkedinCredentials_def parseComplyAdvantageCredentials_def or_else_def js_bool_def

lemmas env_defs = env_quiet_def env_A_def env_no_context_def penv_ok_def response_up_def
  act_after_password_def env_mesh_def response_org_def

lemmas string_defs = js_toLowerCase_def lower_char_def upper_letters_def lower_letters_def is_org_field_def
  isAuthUrl_def

section \<open>Example runs\<close>

lemma run_A:
  "LoginToLinkedin env_A penv_ok [] =
     (Inr \<lparr>success = True, message = ''Logged in to Linkedin as u.''\<rparr>,
      [RetrieveCredentials ''id-1'' (Inr response_up),
       Act (Create ExtraStealth) (Inr ()), Contexts [0], Pages 0 [0],
       Act (Goto 0 ''https://www.linkedin.com/uas/login'' 10000) (Inr ()),
       Act (WaitForURL 0 feedPattern 10000) (Inl (ErrorObj ''Timeout'')),
       Url 0 ''https://www.linkedin.com/uas/login'',
       Act (WaitForSelector 0 li_usernameField 10000) (Inr ()),
       Act (Fill (Locator 0 li_usernameField) ''u'') (Inr ()),
       Act (Press (Locator 0 li_usernameField) ''Tab'') (Inr ()),
       Act (WaitForSelector 0 li_passwordField 10000) (Inr ()),
       Act (Fill (Locator 0 li_passwordField) ''p'') (Inr ()),
       Act (Press (Locator 0 li_passwordField) ''Enter'') (Inr ()),
       Act (WaitForURL 0 feedPattern 10000) (Inr ()),
       Act Close (Inr ())])"
  by (simp add: LoginToLinkedin_def li_tryBlock_def li_step_defs monad_defs config_defs parse_defs env_defs)

lemma run_no_context:
  "LoginToLinkedin env_no_context penv_ok [] =
     (Inr \<lparr>success = False, message = ''Failed to get browser context''\<rparr>,
      [RetrieveCredentials ''id-1'' (Inr response_up), Act (Create ExtraStealth) (Inr ()), Contexts []])"
  by (simp add: LoginToLinkedin_def li_step_defs monad_defs config_defs parse_defs env_defs)

lemma run_mesh:
  "LoginToComplyAdvantageMesh env_mesh penv_ok [] =
     (Inr \<lparr>success = True, message = ''Logged in to ComplyAdvantage Mesh as u (org: acme).''\<rparr>,
      [RetrieveCredentials ''id-1'' (Inr response_org),
       Act (Create NoConfiguration) (Inr ()), Contexts [0], Pages 0 [0],
       Act (Goto 0 ''https://complyadvantage.com/'' 10000) (Inr ()),
       IsVisible (Locator 0 ''#notice'') (Some 2000) (Inr False),
       Act (WaitForSelector 0 loginNavButton 10000) (Inr ()),
       Act (EvaluateScroll 0) (Inr ()),
       Act (Click (First (Locator 0 loginNavButton)) (Some 10000)) (Inr ()),
       IsVisible (First (Locator 0 ''#mesh-li-modal-button, #loginModal'')) None (Inr False),
       Act (Goto 0 ''https://mesh.complyadvantage.com/'' 10000) (Inr ()),
       Pages 0 [0],
       IsVisible (First (Locator 0 meshModalButton)) None (Inr False),
       Pages 0 [0], Url 0 ''https://complyadvantage.com/'',
       Url 0 ''https://complyadvantage.com/'',
       Act (WaitForURL 0 ''**auth0.com/**'' 10000) (Inr ()),
       Url 0 ''https://complyadvantage.com/'',
       Act (WaitForSelector 0 ''#organizationName'' 7000) (Inr ()),
       Act (Fill (Locator 0 ''#organizationName'') ''acme'') (Inr ()),
       Act (Press (Locator 0 ''#organizationName'') ''Enter'') (Inr ()),
       Act (WaitForSelector 0 ''#username'' 10000) (Inr ()),
       Act (Fill (Locator 0 ''#username'') ''u'') (Inr ()),
       Act (Press (Locator 0 ''#username'') ''Enter'') (Inr ()),
       Act (WaitForSelector 0 ''#password'' 10000) (Inr ()),
       Act (Fill (Locator 0 ''#password'') ''p'') (Inr ()),
       Act (Press (Locator 0 ''#password'') ''Enter'') (Inr ()),
       Act (WaitForURL 0 meshPattern 60000) (Inr ()),
       Act Close (Inr ())])"
  by (simp add: LoginToComplyAdvantageMesh_def ca_credentialsBlock_def ca_tryBlock_def ca_step_defs
        monad_defs config_defs parse_defs env_defs string_defs)

section \<open>The browser is closed after the attempt\<close>

lemma li_try_no_close:
  "emits (\<lambda>e. \<not> is_close e) (tryCatch (li_tryBlock E config page credentials) li_catchBlock)"
  unfolding li_tryBlock_def li_step_defs
  by (intro emits_rules allI) simp_all

lemma ca_try_no_close:
  "emits (\<lambda>e. \<not> is_close e) (tryCatch (ca_tryBlock E penv page context credentials) ca_catchBlock)"
  unfolding ca_tryBlock_def ca_step_defs
  by (intro emits_rules allI) simp_all

lemma filter_none: "list_all (\<lambda>e. \<not> P e) xs \<Longrightarrow> filter P xs = []"
  by (induction xs) auto

lemma list_ex_none: "list_all (\<lambda>e. \<not> P e) xs \<Longrightarrow> \<not> list_ex P xs"
  by (induction xs) auto

lemma li_closed_once_run:
  assumes "LoginToLinkedin E penv h = (r, t)"
  shows "length (filter is_close t) = (if list_ex is_page_obtained t then 1 else 0)"
  using assms unfolding LoginToLinkedin_def li_fetchIdentityCredentials_def li_getAnchorBrowser_def
  by (auto elim!: andThenE liftE retE retrieveCredentialsE contextsE pagesE actE tryFinallyE
        simp: filter_none
        split: list.splits if_splits
        dest!: emits_run [OF li_try_no_close])

lemma ca_closed_once_run:
  assumes "LoginToComplyAdvantageMesh E penv h = (r, t)"
  shows "length (filter is_close t) = (if list_ex is_page_obtained t then 1 else 0)"
  using assms unfolding LoginToComplyAdvantageMesh_def ca_credentialsBlock_def
    ca_fetchIdentityCredentials_def ca_getAnchorBrowser_def
  by (auto elim!: andThenE liftE retE retrieveCredentialsE contextsE pagesE actE tryFinallyE tryCatchE
        simp: filter_none
        split: list.splits if_splits sum.splits
        dest!: emits_run [OF ca_try_no_close])

section \<open>Extraction failures in the flows\<close>


lemma li_flow_extraction_failure:
  assumes "li_getConfig penv = Inr config"
    and "e_retrieveCredentials E h (li_identityId config) = Inr resp"
    and "parseLinkedinCredentials (ir_credentials resp) = Inl err"
  shows "LoginToLinkedin E penv h = (Inl err, [RetrieveCredentials (li_identityId config) (Inr resp)])"
  using assms
  by (simp add: LoginToLinkedin_def li_fetchIdentityCredentials_def
        andThen_def lift_def ret_def retrieveCredentials_def)


lemma penv_ok_ca_config:
  "ca_getConfig penv_ok =
     Inr \<lparr>ca_sessionId = [], ca_apiKey = ''key'', ca_identityId = ''id-1'', ca_timeoutMs = 10000,
          ca_homeUrl = ''https://complyadvantage.com/'', ca_meshUrl = ''https://mesh.complyadvantage.com/''\<rparr>"
  by (simp add: config_defs penv_ok_def)

lemma penv_ok_li_config:
  "li_getConfig penv_ok =
     Inr \<lparr>li_sessionId = [], li_identityId = ''id-1'', li_timeoutMs = 10000,
          li_homeUrl = ''https://www.linkedin.com/uas/login''\<rparr>"
  by (simp add: config_defs penv_ok_def)

lemma penv_ok_valid: "validateRequiredInputs penv_ok = Inr ()"
  by (simp add: validateRequiredInputs_def penv_ok_ca_config trim_is_empty_def white_space_def)




section \<open>Where exceptions leave the flows\<close>

lemma run_no_identity:
  "LoginToLinkedin E penv_no_identity h = (Inl (zodError [''Required'']), [])"
  by (simp add: LoginToLinkedin_def andThen_def lift_def li_getConfig_def penv_no_identity_def
        required_string_issues_def number_issues_def)

lemma run_fetch_fails:
  "LoginToLinkedin env_fetch_fails penv_ok [] =
     (Inl (ErrorObj ''404 identity not found''),
      [RetrieveCredentials ''id-1'' (Inl (ErrorObj ''404 identity not found''))])"
  by (simp add: LoginToLinkedin_def li_fetchIdentityCredentials_def monad_defs penv_ok_li_config
        env_fetch_fails_def env_quiet_def)

lemma run_create_fails:
  "LoginToLinkedin env_create_fails penv_ok [] =
     (Inl (ErrorObj ''503 no capacity''),
      [RetrieveCredentials ''id-1'' (Inr response_org),
       Act (Create ExtraStealth) (Inl (ErrorObj ''503 no capacity''))])"
  by (simp add: LoginToLinkedin_def li_fetchIdentityCredentials_def li_getAnchorBrowser_def monad_defs
        penv_ok_li_config env_create_fails_def env_mesh_def env_quiet_def response_org_def parse_defs)

lemma run_mesh_signed_in:
  "LoginToComplyAdvantageMesh env_mesh_signed_in penv_ok [] =
     (Inr \<lparr>success = True, message = ''Logged in to ComplyAdvantage Mesh as u (org: acme).''\<rparr>,
      [RetrieveCredentials ''id-1'' (Inr response_org),
       Act (Create NoConfiguration) (Inr ()), Contexts [0], Pages 0 [0],
       Act (Goto 0 ''https://complyadvantage.com/'' 10000) (Inr ()),
       IsVisible (Locator 0 ''#notice'') (Some 2000) (Inr False),
       Act (WaitForSelector 0 loginNavButton 10000) (Inr ()),
       Act (EvaluateScroll 0) (Inr ()),
       Act (Click (First (Locator 0 loginNavButton)) (Some 10000)) (Inr ()),
       IsVisible (First (Locator 0 ''#mesh-li-modal-button, #loginModal'')) None (Inr False),
       Act (Goto 0 ''https://mesh.complyadvantage.com/'' 10000) (Inr ()),
       Pages 0 [0],
       IsVisible (First (Locator 0 meshModalButton)) None (Inr False),
       Pages 0 [0], Url 0 ''https://mesh.complyadvantage.com/cases'',
       Url 0 ''https://mesh.complyadvantage.com/cases'',
       Act (WaitForURL 0 ''**auth0.com/**'' 10000) (Inr ()),
       Url 0 ''https://mesh.complyadvantage.com/cases'',
       Act (WaitForSelector 0 ''#organizationName'' 7000) (Inr ()),
       Act (Fill (Locator 0 ''#organizationName'') ''acme'') (Inr ()),
       Act (Press (Locator 0 ''#organizationName'') ''Enter'') (Inr ()),
       Act (WaitForSelector 0 ''#username'' 10000) (Inr ()),
       Act (Fill (Locator 0 ''#username'') ''u'') (Inr ()),
       Act (Press (Locator 0 ''#username'') ''Enter'') (Inr ()),
       Act (WaitForSelector 0 ''#password'' 10000) (Inr ()),
       Act (Fill (Locator 0 ''#password'') ''p'') (Inr ()),
       Act (Press (Locator 0 ''#password'') ''Enter'') (Inr ()),
       Act (WaitForURL 0 meshPattern 60000) (Inr ()),
       Act Close (Inr ())])"
  by (simp add: LoginToComplyAdvantageMesh_def ca_credentialsBlock_def ca_tryBlock_def ca_step_defs
        monad_defs config_defs parse_defs env_defs string_defs env_mesh_signed_in_def)

lemma run_mesh_create_fails:
  "LoginToComplyAdvantageMesh env_create_fails penv_ok [] =
     (Inl (ErrorObj ''503 no capacity''),
      [RetrieveCredentials ''id-1'' (Inr response_org),
       Act (Create NoConfiguration) (Inl (ErrorObj ''503 no capacity''))])"
  by (simp add: LoginToComplyAdvantageMesh_def ca_credentialsBlock_def ca_fetchIdentityCredentials_def
        ca_getAnchorBrowser_def monad_defs penv_ok_valid
        penv_ok_ca_config env_create_fails_def env_mesh_def env_quiet_def response_org_def parse_defs string_defs)

lemma run_close_fails:
  "LoginToLinkedin env_close_fails penv_ok [] =
     (Inl (ErrorObj ''socket hang up''),
      [RetrieveCredentials ''id-1'' (Inr response_up),
       Act (Create ExtraStealth) (Inr ()), Contexts [0], Pages 0 [0],
       Act (Goto 0 ''https://www.linkedin.com/uas/login'' 10000) (Inr ()),
       Act (WaitForURL 0 feedPattern 10000) (Inr ()),
       Act Close (Inl (ErrorObj ''socket hang up''))])"
  by (simp add: LoginToLinkedin_def li_tryBlock_def li_step_defs monad_defs config_defs parse_defs env_defs
       env_close_fails_def)

text \<open>What the flows do catch.\<close>

lemma tryCatch_returns:
  assumes "\<And>e h'. \<exists>r. fst (f e h') = Inr r"
  shows "\<exists>r. fst (tryCatch m f h) = Inr r"
  using assms by (simp add: fst_tryCatch split: sum.splits)

lemma loginWithAgent_returns: "\<exists>r. fst (loginWithAgent E penv h) = Inr r"
  unfolding loginWithAgent_def by (rule tryCatch_returns) (simp add: ret_def)

lemma li_try_returns:
  "\<exists>r. fst (tryCatch (li_tryBlock E config page credentials) li_catchBlock h) = Inr r"
  by (rule tryCatch_returns) (simp add: ret_def li_catchBlock_def)

lemma ca_try_returns:
  "\<exists>r. fst (tryCatch (ca_tryBlock E penv page context credentials) ca_catchBlock h) = Inr r"
  by (rule tryCatch_returns) (simp add: ret_def ca_catchBlock_def)

lemma ca_credentialsBlock_returns: "\<exists>r. fst (ca_credentialsBlock E penv h) = Inr r"
  unfolding ca_credentialsBlock_def by (rule tryCatch_returns) (simp add: ret_def)

lemma li_try_not_thrown:
  "tryCatch (li_tryBlock E config page credentials) li_catchBlock h = (Inl e, t) \<Longrightarrow> False"
  using li_try_returns [of E config page credentials h] by auto

lemma ca_try_not_thrown:
  "tryCatch (ca_tryBlock E penv page context credentials) ca_catchBlock h = (Inl e, t) \<Longrightarrow> False"
  using ca_try_returns [where h = h and page = page and E = E and penv = penv and credentials = credentials] by (metis fst_conv sum.distinct(1))

lemma ca_credentialsBlock_not_thrown:
  "ca_credentialsBlock E penv h = (Inl e, t) \<Longrightarrow> False"
  using ca_credentialsBlock_returns [of E penv h] by auto

text \<open>An exception leaves the Mesh flow only from the acquisition of the session or from
  the closing of the browser; it leaves the LinkedIn flow also from the configuration,
  the retrieval of the credentials and their extraction.\<close>

lemma ca_throws_only_from_session:
  assumes "LoginToComplyAdvantageMesh E penv h = (Inl e, t)"
  shows "t \<noteq> [] \<and> session_call_failed (last t) = Some e"
  using assms unfolding LoginToComplyAdvantageMesh_def ca_getAnchorBrowser_def
  by (auto elim!: andThenE liftE retE contextsE pagesE actE tryFinallyE
        dest!: ca_try_not_thrown ca_credentialsBlock_not_thrown
        simp: validateRequiredInputs_def
        split: list.splits if_splits sum.splits)

lemma li_throws_only_from_setup_or_close:
  assumes "LoginToLinkedin E penv h = (Inl e, t)"
  shows "li_getConfig penv = Inl e \<or>
         (\<exists>i. t = [RetrieveCredentials i (Inl e)]) \<or>
         (\<exists>i resp. t = [RetrieveCredentials i (Inr resp)] \<and> parseLinkedinCredentials (ir_credentials resp) = Inl e) \<or>
         (t \<noteq> [] \<and> session_call_failed (last t) = Some e)"
  using assms unfolding LoginToLinkedin_def li_getAnchorBrowser_def li_fetchIdentityCredentials_def
  by (auto elim!: andThenE liftE retE contextsE pagesE actE tryFinallyE retrieveCredentialsE
        dest!: li_try_not_thrown
        split: list.splits if_splits sum.splits)

section \<open>Probing candidates\<close>

lemma length_settle_events [simp]: "length (settle_events E page sels ks hist) = length ks"
  by (induction ks arbitrary: hist) simp_all

lemma settle_results_length:
  "length (snd (fold (settleProbe E page sels) ks (hist, res))) = length res"
  by (induction ks arbitrary: hist res) (simp_all add: settleProbe_def)

lemma settled_visible_index:
  assumes "list_ex (settled_as_visible (First (Locator page (sels ! j)))) (settle_events E page sels ks hist)"
    and "distinct sels" and "j < length sels" and "\<forall>k\<in>set ks. k < length sels"
  shows "j \<in> set ks"
  using assms
  by (induction ks arbitrary: hist) (auto simp: nth_eq_iff_index_eq)

lemma settle_results_nth:
  assumes "distinct ks" and "distinct sels" and "\<forall>k\<in>set ks. k < length sels"
    and "j < length res" and "j < length sels"
  shows "snd (fold (settleProbe E page sels) ks (hist, res)) ! j =
           (if j \<in> set ks then
              (if list_ex (settled_as_visible (First (Locator page (sels ! j)))) (settle_events E page sels ks hist)
               then Some (sels ! j) else None)
            else res ! j)"
  using assms
proof (induction ks arbitrary: hist res)
  case Nil
  then show ?case by simp
next
  case (Cons k ks)
  let ?r = "e_isVisible E hist (First (Locator page (sels ! k))) None"
  let ?ev = "IsVisibleSettled (First (Locator page (sels ! k))) None ?r"
  let ?res = "res[k := probeValue (sels ! k) ?r]"
  have step: "fold (settleProbe E page sels) (k # ks) (hist, res) =
      fold (settleProbe E page sels) ks (hist @ [?ev], ?res)"
    by (simp add: settleProbe_def)
  from Cons.prems have d: "distinct ks" and kn: "k \<notin> set ks" and b: "\<forall>k\<in>set ks. k < length sels"
    and k: "k < length sels" by simp_all
  from Cons.prems have j: "j < length ?res" by simp
  note IH = Cons.IH [OF d Cons.prems(2) b j Cons.prems(5), of "hist @ [?ev]"]
  show ?case
  proof (cases "j = k")
    case True
    have nv: "\<not> list_ex (settled_as_visible (First (Locator page (sels ! k))))
                (settle_events E page sels ks (hist @ [?ev]))"
      using settled_visible_index [of page sels k E ks "hist @ [?ev]"] Cons.prems(2) k b kn by blast
    from True IH kn Cons.prems(4) nv show ?thesis
      unfolding step
      by (cases ?r) (auto simp: probeValue_def)
  next
    case False
    then have "sels ! k \<noteq> sels ! j"
      using Cons.prems(2,5) k by (simp add: nth_eq_iff_index_eq)
    with False IH show ?thesis
      unfolding step by auto
  qed
qed

lemma settleOrder_props:
  "set (settleOrder E h issued) = {0..<length issued}" "distinct (settleOrder E h issued)"
  "length (settleOrder E h issued) = length issued"
  by (simp_all add: settleOrder_def)

lemma probeSelectors_run:
  "probeSelectors E page sels h = (Inr (probe_results E page sels h), probe_events E page sels h)"
  by (simp add: probe_results_def probe_events_def probeSelectors_def split: prod.splits)

lemma probe_results_eq:
  "probe_results E page sels h =
     snd (fold (settleProbe E page sels) (settleOrder E h (issueProbes page sels))
            (h @ issueProbes page sels, replicate (length sels) None))"
  unfolding probe_results_def probeSelectors_def
  by (simp split: prod.splits)

lemma length_probe_results [simp]: "length (probe_results E page sels h) = length sels"
  by (simp add: probe_results_eq settle_results_length)

lemma length_probe_events [simp]: "length (probe_events E page sels h) = 2 * length sels"
  by (simp add: probe_events_eq settleOrder_props issueProbes_def)

lemma issue_not_visible [simp]: "\<not> list_ex (settled_as_visible loc) (issueProbes page sels)"
  by (induction sels) (simp_all add: issueProbes_def)

lemma probe_results_nth:
  assumes "distinct sels" and "i < length sels"
  shows "probe_results E page sels h ! i = (if probe_visible E page sels h i then Some (sels ! i) else None)"
proof -
  let ?o = "settleOrder E h (issueProbes page sels)"
  have l: "length (issueProbes page sels) = length sels" by (simp add: issueProbes_def)
  have "i \<in> set ?o" using assms(2) by (simp add: settleOrder_props l)
  moreover have "\<forall>k\<in>set ?o. k < length sels" by (simp add: settleOrder_props l)
  ultimately show ?thesis
    using settle_results_nth [of ?o sels i "replicate (length sels) None" E page "h @ issueProbes page sels"]
      assms
    by (simp add: probe_results_eq probe_visible_def probe_events_eq settleOrder_props)
qed

lemma distinct_selectors: "distinct singleSelectors" "distinct submitSelectors"
  by (simp_all add: singleSelectors_def submitSelectors_def)

text \<open>The first entry of the result array that is not null is the first candidate,
  in the order of the list, whose probe settled as visible.\<close>

lemma first_visible_alt:
  "first_visible E page sels h i \<longleftrightarrow>
     i < length sels \<and> probe_visible E page sels h i \<and> (\<forall>j<i. \<not> probe_visible E page sels h j)"
  by (simp add: first_visible_def first_visible_in_def probe_visible_def)

lemma chosen_is_first_visible:
  assumes d: "distinct sels"
  shows "find (\<lambda>r. r \<noteq> None) (probe_results E page sels h) = Some (Some s) \<longleftrightarrow>
     (\<exists>i<length sels. sels ! i = s \<and> probe_visible E page sels h i \<and> (\<forall>j<i. \<not> probe_visible E page sels h j))"
  (is "?L \<longleftrightarrow> ?R")
proof
  assume ?L
  then obtain i where i: "i < length sels"
    and a: "probe_results E page sels h ! i = Some s"
    and b: "\<forall>j<i. probe_results E page sels h ! j = None"
    by (auto simp: find_Some_iff)
  from a i have "probe_visible E page sels h i \<and> sels ! i = s"
    by (simp add: probe_results_nth [OF d] split: if_splits)
  moreover from b i have "\<forall>j<i. \<not> probe_visible E page sels h j"
    by (auto simp: probe_results_nth [OF d] split: if_splits)
  ultimately show ?R using i by blast
next
  assume ?R
  then obtain i where i: "i < length sels" and s: "sels ! i = s"
    and v: "probe_visible E page sels h i" and n: "\<forall>j<i. \<not> probe_visible E page sels h j"
    by blast
  show ?L
    unfolding find_Some_iff
    by (rule exI [of _ i]) (use i s v n in \<open>auto simp: probe_results_nth [OF d]\<close>)
qed

lemma chosen_none:
  "find (\<lambda>r. r \<noteq> None) (probe_results E page sels h) \<noteq> Some None"
  by (auto simp: find_Some_iff)

lemma probe_events_no_click: "list_all (\<lambda>e. \<not> is_click_on loc e) (probe_events E page sels h)"
  by (rule probe_events_all) simp_all

lemma chosen_cases:
  obtains (none) "find (\<lambda>r. r \<noteq> None) (probe_results E page sels h) = None"
    | (some) s where "find (\<lambda>r. r \<noteq> None) (probe_results E page sels h) = Some (Some s)"
  by (metis chosen_none option.exhaust)

lemma chosen_iff:
  "distinct sels \<Longrightarrow>
   find (\<lambda>r. r \<noteq> None) (probe_results E page sels h) = Some (Some s) \<longleftrightarrow>
     (\<exists>i. first_visible E page sels h i \<and> sels ! i = s)"
  unfolding first_visible_alt by (subst chosen_is_first_visible) auto

lemma chosen_unique:
  assumes d: "distinct sels"
    and c: "find (\<lambda>r. r \<noteq> None) (probe_results E page sels h) = Some (Some s)"
  shows "(\<exists>i. first_visible E page sels h i \<and> loc = First (Locator page (sels ! i))) \<longleftrightarrow>
         loc = First (Locator page s)"
proof
  assume "\<exists>i. first_visible E page sels h i \<and> loc = First (Locator page (sels ! i))"
  then obtain i where i: "first_visible E page sels h i" and l: "loc = First (Locator page (sels ! i))"
    by blast
  from i have "find (\<lambda>r. r \<noteq> None) (probe_results E page sels h) = Some (Some (sels ! i))"
    using chosen_iff [OF d, of E page h "sels ! i"] by blast
  with c l show "loc = First (Locator page s)" by simp
next
  assume "loc = First (Locator page s)"
  moreover from c obtain i where "first_visible E page sels h i" and "sels ! i = s"
    using chosen_iff [OF d, of E page h s] by blast
  ultimately show "\<exists>i. first_visible E page sels h i \<and> loc = First (Locator page (sels ! i))"
    by blast
qed

lemma locateOtpInputs_single:
  "fst (locateOtpInputs E page h) = Inr (Some (Single loc)) \<longleftrightarrow>
     (\<exists>i. first_visible E page singleSelectors h i \<and> loc = First (Locator page (singleSelectors ! i)))"
proof (cases rule: chosen_cases [of E page singleSelectors h])
  case none
  then have "\<not> (\<exists>i. first_visible E page singleSelectors h i)"
    using chosen_iff [OF distinct_selectors(1), of E page h] by auto
  with none show ?thesis
    by (auto simp: locateOtpInputs_def andThen_def probeSelectors_run tryCatch_def count_of_def ret_def
          split: sum.splits)
next
  case (some s)
  then have "fst (locateOtpInputs E page h) = Inr (Some (Single (First (Locator page s))))"
    by (simp add: locateOtpInputs_def andThen_def probeSelectors_run ret_def)
  then show ?thesis
    using chosen_unique [OF distinct_selectors(1) some, of loc] by auto
qed

lemma clickCommonSubmit_click:
  "list_ex (is_click_on loc) (snd (clickCommonSubmit E page h)) \<longleftrightarrow>
     (\<exists>i. first_visible E page submitSelectors h i \<and> loc = First (Locator page (submitSelectors ! i)))"
proof (cases rule: chosen_cases [of E page submitSelectors h])
  case none
  then have "\<not> (\<exists>i. first_visible E page submitSelectors h i)"
    using chosen_iff [OF distinct_selectors(2), of E page h] by auto
  with none show ?thesis
    by (simp add: clickCommonSubmit_def andThen_def probeSelectors_run ret_def
          list_ex_none [OF probe_events_no_click])
next
  case (some s)
  then have "list_ex (is_click_on loc) (snd (clickCommonSubmit E page h)) \<longleftrightarrow> loc = First (Locator page s)"
    by (auto simp: clickCommonSubmit_def andThen_def probeSelectors_run ret_def withNavigation_def act_def
          list_ex_none [OF probe_events_no_click] split: sum.splits)
  then show ?thesis
    using chosen_unique [OF distinct_selectors(2) some, of loc] by auto
qed

text \<open>The trace of a step that probes begins with the events of the probing.\<close>

lemma locateOtpInputs_probes:
  "\<exists>t. snd (locateOtpInputs E page h) = probe_events E page singleSelectors h @ t \<and>
       list_all (\<lambda>e. \<not> is_settle e) t"
  by (cases rule: chosen_cases [of E page singleSelectors h])
     (simp_all add: locateOtpInputs_def andThen_def probeSelectors_run tryCatch_def count_of_def ret_def
        split: sum.splits)

lemma clickCommonSubmit_probes:
  "\<exists>t. snd (clickCommonSubmit E page h) = probe_events E page submitSelectors h @ t \<and>
       list_all (\<lambda>e. \<not> is_settle e) t"
  by (cases rule: chosen_cases [of E page submitSelectors h])
     (simp_all add: clickCommonSubmit_def andThen_def probeSelectors_run withNavigation_def act_def ret_def
        split: sum.splits)

lemma not_settle_not_visible:
  "list_all (\<lambda>e. \<not> is_settle e) t \<Longrightarrow> \<not> list_ex (settled_as_visible loc) t"
proof (induction t)
  case Nil
  show ?case by simp
next
  case (Cons e t)
  then show ?case by (cases e) simp_all
qed

lemma first_visible_in_append:
  "list_all (\<lambda>e. \<not> is_settle e) t' \<Longrightarrow> first_visible_in (t @ t') page sels i = first_visible_in t page sels i"
  by (simp add: first_visible_in_def not_settle_not_visible)

lemma locateOtpInputs_first_visible_in:
  "first_visible_in (snd (locateOtpInputs E page h)) page singleSelectors i =
     first_visible E page singleSelectors h i"
  using locateOtpInputs_probes [of E page h]
  by (auto simp: first_visible_def first_visible_in_append)

lemma clickCommonSubmit_first_visible_in:
  "first_visible_in (snd (clickCommonSubmit E page h)) page submitSelectors i =
     first_visible E page submitSelectors h i"
  using clickCommonSubmit_probes [of E page h]
  by (auto simp: first_visible_def first_visible_in_append)

text \<open>Every probe is issued before any settles, and the probes settle in the order of
  their completion times.\<close>

lemma probe_events_issued:
  "take (length sels) (probe_events E page sels h) =
     map (\<lambda>sel. IsVisibleIssued (First (Locator page sel)) None) sels"
  by (simp add: probe_events_eq issueProbes_def)

lemma insort_key_agree:
  "f x = g x \<Longrightarrow> (\<forall>y\<in>set ys. f y = g y) \<Longrightarrow> insort_key f x ys = insort_key g x ys"
  by (induction ys) simp_all

lemma sort_key_agree:
  "(\<forall>x\<in>set xs. f x = g x) \<Longrightarrow> sort_key f xs = sort_key g xs"
proof (induction xs)
  case Nil
  show ?case by simp
next
  case (Cons x xs)
  then have "sort_key f xs = sort_key g xs" by simp
  with Cons.prems show ?case
    using insort_key_agree [of f x g "sort_key g xs"] by simp
qed

lemma settled_locator_settle_events:
  "map settled_locator (settle_events E page sels ks hist) =
     map (\<lambda>k. Some (First (Locator page (sels ! k)))) ks"
  by (induction ks arbitrary: hist) simp_all

lemma probe_events_settled:
  "map settled_locator (take (length sels) (drop (length sels) (probe_events E page sels h))) =
     map (\<lambda>k. Some (First (Locator page (sels ! k))))
       (sort_key (\<lambda>k. e_latency E (h @ take (Suc k) (probe_events E page sels h))) [0..<length sels])"
proof -
  let ?i = "issueProbes page sels"
  have l: "length ?i = length sels" by (simp add: issueProbes_def)
  have "sort_key (\<lambda>k. e_latency E (h @ take (Suc k) (probe_events E page sels h))) [0..<length sels] =
        sort_key (\<lambda>k. e_latency E (h @ take (Suc k) ?i)) [0..<length sels]"
    by (rule sort_key_agree) (simp add: probe_events_eq l)
  then show ?thesis
    by (simp add: probe_events_eq l settleOrder_props settled_locator_settle_events settleOrder_def)
qed

text \<open>When the answers of the page driver do not change, the probe of a candidate
  settles as visible exactly when the driver says that the candidate is visible,
  whatever the order in which the probes settle.\<close>

lemma steady_settle_events:
  assumes "steady_visibility E" and "distinct sels" and "j < length sels" and "\<forall>k\<in>set ks. k < length sels"
  shows "list_ex (settled_as_visible (First (Locator page (sels ! j)))) (settle_events E page sels ks hist) \<longleftrightarrow>
           j \<in> set ks \<and> e_isVisible E [] (First (Locator page (sels ! j))) None = Inr True"
  using assms(4)
proof (induction ks arbitrary: hist)
  case Nil
  show ?case by simp
next
  case (Cons k ks)
  from assms(1) have s: "\<And>l. e_isVisible E hist l None = e_isVisible E [] l None"
    unfolding steady_visibility_def by blast
  from Cons.prems assms(2,3) have "sels ! k = sels ! j \<longleftrightarrow> k = j"
    by (simp add: nth_eq_iff_index_eq)
  with Cons show ?case by (auto simp: s)
qed

lemma steady_probe_visible:
  assumes "steady_visibility E" and "distinct sels" and "i < length sels"
  shows "probe_visible E page sels h i \<longleftrightarrow> e_isVisible E [] (First (Locator page (sels ! i))) None = Inr True"
proof -
  have l: "length (issueProbes page sels) = length sels" by (simp add: issueProbes_def)
  show ?thesis
    using steady_settle_events [OF assms, of "settleOrder E h (issueProbes page sels)" page "h @ issueProbes page sels"]
      assms(3)
    by (simp add: probe_visible_def probe_events_eq settleOrder_props l)
qed

lemma steady_first_visible:
  assumes "steady_visibility E" and "distinct sels"
  shows "first_visible E page sels h i \<longleftrightarrow>
           i < length sels \<and> e_isVisible E [] (First (Locator page (sels ! i))) None = Inr True \<and>
           (\<forall>j<i. e_isVisible E [] (First (Locator page (sels ! j))) None \<noteq> Inr True)"
  unfolding first_visible_alt
  using steady_probe_visible [OF assms] by (auto simp: less_trans)

lemma steady_latency [simp]: "steady_visibility (E\<lparr>e_latency := l\<rparr>) = steady_visibility E"
  by (simp add: steady_visibility_def)

lemma steady_first_visible_latency:
  assumes "steady_visibility E" and "distinct sels"
  shows "first_visible (E\<lparr>e_latency := l\<rparr>) page sels h i = first_visible E page sels h i"
  using steady_first_visible [OF assms, of page h i]
    steady_first_visible [of "E\<lparr>e_latency := l\<rparr>" sels page h i] assms
  by simp

lemma steady_examples:
  "steady_visibility env_quiet" "steady_visibility env_two_visible" "steady_visibility env_eight_digits"
  "steady_visibility env_otp_fallback"
  by (simp_all add: steady_visibility_def env_quiet_def env_two_visible_def env_eight_digits_def
        env_otp_fallback_def visible_here_def)

lemma two_visible_submit:
  "first_visible env_two_visible 0 submitSelectors h 1"
  "probe_visible env_two_visible 0 submitSelectors h 3"
  using steady_first_visible [OF steady_examples(2) distinct_selectors(2), where page = 0 and h = h and i = 1]
    steady_probe_visible [OF steady_examples(2) distinct_selectors(2), where page = 0 and h = h and i = 3]
  by (simp_all add: env_two_visible_def env_quiet_def visible_here_def submitSelectors_def singleSelectors_def)

lemma two_visible_single:
  "first_visible env_two_visible 0 singleSelectors h 2"
  "probe_visible env_two_visible 0 singleSelectors h 4"
  using steady_first_visible [OF steady_examples(2) distinct_selectors(1), where page = 0 and h = h and i = 2]
    steady_probe_visible [OF steady_examples(2) distinct_selectors(1), where page = 0 and h = h and i = 4]
  by (simp_all add: env_two_visible_def env_quiet_def visible_here_def submitSelectors_def singleSelectors_def
        less_Suc_eq numeral_2_eq_2)

lemma locateOtpInputs_issued:
  "take (length singleSelectors) (snd (locateOtpInputs E page h)) =
     map (\<lambda>sel. IsVisibleIssued (First (Locator page sel)) None) singleSelectors"
  using locateOtpInputs_probes [of E page h] probe_events_issued [of singleSelectors E page h]
  by auto

lemma clickCommonSubmit_issued:
  "take (length submitSelectors) (snd (clickCommonSubmit E page h)) =
     map (\<lambda>sel. IsVisibleIssued (First (Locator page sel)) None) submitSelectors"
  using clickCommonSubmit_probes [of E page h] probe_events_issued [of submitSelectors E page h]
  by auto

lemma settled_after_probes:
  assumes "t = probe_events E page sels h @ t'"
  shows "map settled_locator (take (length sels) (drop (length sels) t)) =
           map (\<lambda>k. Some (First (Locator page (sels ! k))))
             (sort_key (\<lambda>k. e_latency E (h @ take (Suc k) t)) [0..<length sels])"
proof -
  have "sort_key (\<lambda>k. e_latency E (h @ take (Suc k) t)) [0..<length sels] =
        sort_key (\<lambda>k. e_latency E (h @ take (Suc k) (probe_events E page sels h))) [0..<length sels]"
    by (rule sort_key_agree) (simp add: assms)
  with probe_events_settled [of sels E page h] show ?thesis
    by (simp add: assms)
qed

lemma locateOtpInputs_settled:
  "map settled_locator (take (length singleSelectors) (drop (length singleSelectors) (snd (locateOtpInputs E page h)))) =
     map (\<lambda>k. Some (First (Locator page (singleSelectors ! k))))
       (sort_key (\<lambda>k. e_latency E (h @ take (Suc k) (snd (locateOtpInputs E page h)))) [0..<length singleSelectors])"
  using locateOtpInputs_probes [of E page h] settled_after_probes [of _ E page singleSelectors h] by blast

lemma clickCommonSubmit_settled:
  "map settled_locator (take (length submitSelectors) (drop (length submitSelectors) (snd (clickCommonSubmit E page h)))) =
     map (\<lambda>k. Some (First (Locator page (submitSelectors ! k))))
       (sort_key (\<lambda>k. e_latency E (h @ take (Suc k) (snd (clickCommonSubmit E page h)))) [0..<length submitSelectors])"
  using clickCommonSubmit_probes [of E page h] settled_after_probes [of _ E page submitSelectors h] by blast

lemma locateOtpInputs_chosen:
  "fst (locateOtpInputs E page h) = Inr (Some (Single loc)) \<longleftrightarrow>
     (\<exists>i. first_visible_in (snd (locateOtpInputs E page h)) page singleSelectors i \<and>
          loc = First (Locator page (singleSelectors ! i)))"
  by (simp add: locateOtpInputs_single locateOtpInputs_first_visible_in)

lemma clickCommonSubmit_chosen:
  "list_ex (is_click_on loc) (snd (clickCommonSubmit E page h)) \<longleftrightarrow>
     (\<exists>i. first_visible_in (snd (clickCommonSubmit E page h)) page submitSelectors i \<and>
          loc = First (Locator page (submitSelectors ! i)))"
  by (simp add: clickCommonSubmit_click clickCommonSubmit_first_visible_in)

lemma choice_steady:
  assumes "steady_visibility E"
  shows "(fst (locateOtpInputs (E\<lparr>e_latency := l\<rparr>) page h) = Inr (Some (Single loc))) =
           (fst (locateOtpInputs E page h) = Inr (Some (Single loc)))"
    and "list_ex (is_click_on loc) (snd (clickCommonSubmit (E\<lparr>e_latency := l\<rparr>) page h)) =
           list_ex (is_click_on loc) (snd (clickCommonSubmit E page h))"
  by (simp_all add: locateOtpInputs_single clickCommonSubmit_click
        steady_first_visible_latency [OF assms distinct_selectors(1)]
        steady_first_visible_latency [OF assms distinct_selectors(2)])

lemma run_two_visible:
  "locateOtpInputs env_two_visible 0 [] =
     (Inr (Some (Single (First (Locator 0 (singleSelectors ! 2))))),
      map (\<lambda>sel. IsVisibleIssued (First (Locator 0 sel)) None) singleSelectors @
      [IsVisibleSettled (First (Locator 0 (singleSelectors ! 4))) None (Inr True),
       IsVisibleSettled (First (Locator 0 (singleSelectors ! 3))) None (Inr False),
       IsVisibleSettled (First (Locator 0 (singleSelectors ! 2))) None (Inr True),
       IsVisibleSettled (First (Locator 0 (singleSelectors ! 1))) None (Inr False),
       IsVisibleSettled (First (Locator 0 (singleSelectors ! 0))) None (Inr False)])"
  by (simp add: locateOtpInputs_def andThen_def ret_def probeSelectors_def settleOrder_def issueProbes_def
        settleProbe_def probeValue_def env_two_visible_def env_quiet_def visible_here_def
        singleSelectors_def submitSelectors_def)

lemma run_two_visible_submit:
  "clickCommonSubmit env_two_visible 0 [] =
     (Inr True,
      map (\<lambda>sel. IsVisibleIssued (First (Locator 0 sel)) None) submitSelectors @
      [IsVisibleSettled (First (Locator 0 (submitSelectors ! 4))) None (Inr False),
       IsVisibleSettled (First (Locator 0 (submitSelectors ! 3))) None (Inr True),
       IsVisibleSettled (First (Locator 0 (submitSelectors ! 2))) None (Inr False),
       IsVisibleSettled (First (Locator 0 (submitSelectors ! 1))) None (Inr True),
       IsVisibleSettled (First (Locator 0 (submitSelectors ! 0))) None (Inr False),
       Act (WaitForNavigation 0 45000) (Inr ()),
       Act (Click (First (Locator 0 (submitSelectors ! 1))) None) (Inr ())])"
  by (simp add: clickCommonSubmit_def andThen_def ret_def probeSelectors_def settleOrder_def issueProbes_def
        settleProbe_def probeValue_def env_two_visible_def env_quiet_def visible_here_def withNavigation_def act_def
        singleSelectors_def submitSelectors_def)

section \<open>Verification steps\<close>

lemma verifyLogin_run:
  "verifyLogin E page step timeoutMs fallbackTimeout h =
     (case e_act E h (WaitForURL page feedPattern
                        (max timeoutMs (case fallbackTimeout of None \<Rightarrow> 60000 | Some f \<Rightarrow> f))) of
        Inr u \<Rightarrow>
          (Inr True,
           [Act (WaitForURL page feedPattern
                   (max timeoutMs (case fallbackTimeout of None \<Rightarrow> 60000 | Some f \<Rightarrow> f))) (Inr u)])
      | Inl err \<Rightarrow>
          (Inr (js_includes
                  (e_url E (h @ [Act (WaitForURL page feedPattern
                     (max timeoutMs (case fallbackTimeout of None \<Rightarrow> 60000 | Some f \<Rightarrow> f))) (Inl err)]) page)
                  ''linkedin.com/feed/''),
           [Act (WaitForURL page feedPattern
                   (max timeoutMs (case fallbackTimeout of None \<Rightarrow> 60000 | Some f \<Rightarrow> f))) (Inl err),
            Url page
              (e_url E (h @ [Act (WaitForURL page feedPattern
                 (max timeoutMs (case fallbackTimeout of None \<Rightarrow> 60000 | Some f \<Rightarrow> f))) (Inl err)]) page)]))"
  by (simp add: verifyLogin_def monad_defs split: sum.splits)

lemma verifyMeshLogin_run:
  assumes "ca_getConfig penv = Inr config"
  shows "verifyMeshLogin E penv page h =
     (case e_act E h (WaitForURL page meshPattern (max (ca_timeoutMs config) 60000)) of
        Inr u \<Rightarrow> (Inr True, [Act (WaitForURL page meshPattern (max (ca_timeoutMs config) 60000)) (Inr u)])
      | Inl err \<Rightarrow>
          (Inr (js_includes
                  (e_url E (h @ [Act (WaitForURL page meshPattern (max (ca_timeoutMs config) 60000)) (Inl err)]) page)
                  ''mesh.complyadvantage.com/''),
           [Act (WaitForURL page meshPattern (max (ca_timeoutMs config) 60000)) (Inl err),
            Url page
              (e_url E (h @ [Act (WaitForURL page meshPattern (max (ca_timeoutMs config) 60000)) (Inl err)]) page)]))"
  using assms by (simp add: verifyMeshLogin_def monad_defs split: sum.splits)

lemma li_try_wait_timeouts:
  "emits (\<lambda>e. url_wait_timeout e \<in> {None, Some (max (li_timeoutMs config) 10000)})
     (tryCatch (li_tryBlock E config page credentials) li_catchBlock)"
  unfolding li_tryBlock_def li_step_defs
  by (intro emits_rules allI) simp_all

lemma li_wait_timeouts_run:
  assumes "LoginToLinkedin E penv h = (r, t)" and "li_getConfig penv = Inr config"
  shows "list_all (\<lambda>e. url_wait_timeout e \<in> {None, Some (max (li_timeoutMs config) 10000)}) t"
  using assms unfolding LoginToLinkedin_def li_fetchIdentityCredentials_def li_getAnchorBrowser_def
  by (auto elim!: andThenE liftE retE retrieveCredentialsE contextsE pagesE actE tryFinallyE
        split: list.splits if_splits
        dest!: emits_run [OF li_try_wait_timeouts])

section \<open>Success, submission and the pre-login check\<close>

lemma urlE:
  assumes "url E p h = (r, t)"
  obtains "r = Inr (e_url E h p)" and "t = [Url p (e_url E h p)]"
  using assms by (auto simp: url_def)


lemma enterPassword_ok:
  "enterPassword E penv page pw h = (Inr u, t) \<Longrightarrow> list_ex is_mesh_password_submitted t"
  by (auto simp: enterPassword_def ca_waitForVisible_def elim!: andThenE actE liftE)




lemma ca_tryBlock_success:
  assumes "ca_tryBlock E penv page c creds h = (Inr r, t)" and "success r"
  shows "list_ex is_mesh_password_submitted t"
  using assms unfolding ca_tryBlock_def
  by (auto elim!: andThenE retE urlE dest!: enterPassword_ok split: if_splits)

lemma ca_try_success:
  assumes "tryCatch (ca_tryBlock E penv page c creds) ca_catchBlock h = (Inr r, t)" and "success r"
  shows "list_ex is_mesh_password_submitted t"
  using assms
  by (auto elim!: tryCatchE retE dest: ca_tryBlock_success simp: ca_catchBlock_def)

lemma ca_success_run:
  assumes "LoginToComplyAdvantageMesh E penv h = (Inr r, t)" and "success r"
  shows "list_ex is_mesh_password_submitted t"
  using assms unfolding LoginToComplyAdvantageMesh_def ca_credentialsBlock_def
    ca_fetchIdentityCredentials_def ca_getAnchorBrowser_def
  by (auto elim!: andThenE liftE retE retrieveCredentialsE contextsE pagesE actE tryFinallyE tryCatchE
        split: list.splits if_splits sum.splits
        dest!: ca_try_success)


lemma run_quiet:
  "LoginToLinkedin env_quiet penv_ok [] =
     (Inr already_authenticated,
      [RetrieveCredentials ''id-1'' (Inr response_up),
       Act (Create ExtraStealth) (Inr ()), Contexts [0], Pages 0 [0],
       Act (Goto 0 ''https://www.linkedin.com/uas/login'' 10000) (Inr ()),
       Act (WaitForURL 0 feedPattern 10000) (Inr ()),
       Act Close (Inr ())])"
  by (simp add: LoginToLinkedin_def li_tryBlock_def li_step_defs monad_defs config_defs parse_defs env_defs
       already_authenticated_def)

lemma li_precheck_untouched:
  assumes run: "li_tryBlock E config page creds h = (r, t)" and pre: "precheck_matched t"
  shows "r = Inr already_authenticated \<and> list_all (\<lambda>e. \<not> touches_credential_field e) t"
proof -
  have nav_v: "emits (\<lambda>e. \<not> is_verification e \<and> \<not> touches_credential_field e) (li_navigateToHomepage E page config)"
    unfolding li_navigateToHomepage_def by (intro emits_rules allI) simp_all
  obtain rn tn where n: "li_navigateToHomepage E page config h = (rn, tn)"
    by (cases "li_navigateToHomepage E page config h")
  from emits_run [OF nav_v n] have tn: "list_all (\<lambda>e. \<not> is_verification e \<and> \<not> touches_credential_field e) tn" .
  then have fv: "filter is_verification tn = []" and ft: "list_all (\<lambda>e. \<not> touches_credential_field e) tn"
    by (induction tn) auto
  show ?thesis
  proof (cases rn)
    case (Inl e)
    with run n have "t = tn" by (simp add: li_tryBlock_def andThen_def)
    with pre fv show ?thesis by (simp add: precheck_matched_def)
  next
    case (Inr u)
    let ?w = "WaitForURL page feedPattern (max (li_timeoutMs config) 10000)"
    show ?thesis
    proof (cases "e_act E (h @ tn) ?w")
      case ok: (Inr v)
      with run n Inr have "r = Inr already_authenticated" and "t = tn @ [Act ?w (Inr v)]"
        by (simp_all add: li_tryBlock_def andThen_def verifyLogin_run ret_def already_authenticated_def)
      with ft show ?thesis by simp
    next
      case timeout: (Inl err)
      let ?u = "e_url E ((h @ tn) @ [Act ?w (Inl err)]) page"
      show ?thesis
      proof (cases "js_includes ?u ''linkedin.com/feed/''")
        case True
        with run n Inr timeout have "r = Inr already_authenticated" and "t = tn @ [Act ?w (Inl err), Url page ?u]"
          by (simp_all add: li_tryBlock_def andThen_def verifyLogin_run ret_def already_authenticated_def)
        with ft show ?thesis by simp
      next
        case False
        with run n Inr timeout obtain t2 where "t = tn @ [Act ?w (Inl err), Url page ?u] @ t2"
          by (auto simp: li_tryBlock_def andThen_def verifyLogin_run split: prod.splits)
        with pre fv False show ?thesis by (simp add: precheck_matched_def)
      qed
    qed
  qed
qed

lemma li_try_precheck:
  assumes run: "tryCatch (li_tryBlock E config page creds) li_catchBlock h = (r, t)" and pre: "precheck_matched t"
  shows "r = Inr already_authenticated \<and> list_all (\<lambda>e. \<not> touches_credential_field e) t"
proof -
  obtain r0 t0 where b: "li_tryBlock E config page creds h = (r0, t0)"
    by (cases "li_tryBlock E config page creds h")
  show ?thesis
  proof (cases r0)
    case (Inl e)
    with run b have "t = t0" by (simp add: tryCatch_def li_catchBlock_def ret_def)
    with pre li_precheck_untouched [OF b] Inl show ?thesis by simp
  next
    case (Inr a)
    with run b have "t = t0" and "r = r0" by (simp_all add: tryCatch_def)
    with pre li_precheck_untouched [OF b] show ?thesis by simp
  qed
qed

section \<open>The shape of a LinkedIn attempt\<close>

lemmas li_top_defs = LoginToLinkedin_def andThen_def lift_def li_fetchIdentityCredentials_def
  retrieveCredentials_def li_getAnchorBrowser_def act_def contexts_def pages_def ret_def tryFinally_def

lemma LoginToLinkedin_cases:
  assumes run: "LoginToLinkedin E penv h = (r, t)"
  obtains "list_all is_setup_event t"
      and "\<And>x. r = Inr x \<Longrightarrow> \<not> success x"
      and "\<not> list_ex is_page_obtained t"
      and "\<And>config. li_getConfig penv = Inr config \<Longrightarrow> t \<noteq> []"
    | config creds pre r1 t1 rc page resp where "li_getConfig penv = Inr config"
      and "list_all is_setup_event pre"
      and "tryCatch (li_tryBlock E config page creds) li_catchBlock (h @ pre) = (r1, t1)"
      and "t = pre @ t1 @ [Act Close rc]"
      and "r = (case rc of Inl e \<Rightarrow> Inl e | Inr u \<Rightarrow> r1)"
      and "e_retrieveCredentials E h (li_identityId config) = Inr resp"
      and "parseLinkedinCredentials (ir_credentials resp) = Inr creds"
proof (cases "li_getConfig penv")
  case (Inl e)
  with run have "r = Inl e" and "t = []" by (simp_all add: li_top_defs)
  with Inl that(1) show ?thesis by simp
next
  case config: (Inr config)
  let ?i = "li_identityId config"
  show ?thesis
  proof (cases "e_retrieveCredentials E h ?i")
    case (Inl e)
    with run config have "r = Inl e" and "t = [RetrieveCredentials ?i (Inl e)]"
      by (simp_all add: li_top_defs)
    with that(1) show ?thesis by simp
  next
    case resp: (Inr resp)
    let ?ev1 = "RetrieveCredentials ?i (Inr resp)"
    show ?thesis
    proof (cases "parseLinkedinCredentials (ir_credentials resp)")
      case (Inl e)
      with run config resp have "r = Inl e" and "t = [?ev1]"
        by (simp_all add: li_top_defs)
      with that(1) show ?thesis by simp
    next
      case creds: (Inr creds)
      let ?a = "if li_sessionId config \<noteq> [] then Connect (li_sessionId config)
                else Create (if li_otp creds = [] then ExtraStealth else EmptyConfiguration)"
      have setup_a: "\<And>x. is_setup_event (Act ?a x)" by simp
      show ?thesis
      proof (cases "e_act E (h @ [?ev1]) ?a")
        case (Inl e)
        with run config resp creds have "r = Inl e" and "t = [?ev1, Act ?a (Inl e)]"
          by (simp_all add: li_top_defs split: if_splits)
        with that(1) setup_a show ?thesis by simp
      next
        case browser: (Inr u)
        let ?ev2 = "Act ?a (Inr u)"
        show ?thesis
        proof (cases "e_contexts E (h @ [?ev1, ?ev2])")
          case Nil
          with run config resp creds browser
          have "r = Inr \<lparr>success = False, message = ''Failed to get browser context''\<rparr>"
            and "t = [?ev1, ?ev2, Contexts []]"
            by (simp_all add: li_top_defs split: if_splits)
          with that(1) setup_a show ?thesis by simp
        next
          case ctx: (Cons c cs)
          let ?ev3 = "Contexts (c # cs)"
          show ?thesis
          proof (cases "e_pages E (h @ [?ev1, ?ev2, ?ev3]) c")
            case Nil
            with run config resp creds browser ctx
            have "r = Inr \<lparr>success = False, message = ''Failed to get browser page''\<rparr>"
              and "t = [?ev1, ?ev2, ?ev3, Pages c []]"
              by (simp_all add: li_top_defs split: if_splits)
            with that(1) setup_a show ?thesis by simp
          next
            case pg: (Cons page ps)
            let ?pre = "[?ev1, ?ev2, ?ev3, Pages c (page # ps)]"
            obtain r1 t1 where body:
              "tryCatch (li_tryBlock E config page creds) li_catchBlock (h @ ?pre) = (r1, t1)"
              by (cases "tryCatch (li_tryBlock E config page creds) li_catchBlock (h @ ?pre)")
            let ?rc = "e_act E (h @ ?pre @ t1) Close"
            from run config resp creds browser ctx pg body
            have "t = ?pre @ t1 @ [Act Close ?rc]" and "r = (case ?rc of Inl e \<Rightarrow> Inl e | Inr u \<Rightarrow> r1)"
              by (simp_all add: li_top_defs split: if_splits sum.splits)
            moreover have "list_all is_setup_event ?pre" using setup_a by simp
            ultimately show ?thesis using that(2) [OF config _ body _ _ resp creds] by blast
          qed
        qed
      qed
    qed
  qed
qed

lemma setup_event_plain:
  "is_setup_event e \<Longrightarrow> \<not> is_verification e \<and> \<not> touches_credential_field e"
  by (cases e rule: is_setup_event.cases) simp_all

lemma setup_events_plain:
  assumes "list_all is_setup_event t"
  shows "filter is_verification t = []" and "filter touches_credential_field t = []"
  using assms by (induction t) (auto dest: setup_event_plain)

lemma precheck_matched_cong:
  "filter is_verification t = filter is_verification t' \<Longrightarrow> precheck_matched t = precheck_matched t'"
  by (simp add: precheck_matched_def)

lemma li_precheck_run:
  assumes run: "LoginToLinkedin E penv h = (r, t)" and pre: "precheck_matched t"
  shows "filter touches_credential_field t = [] \<and>
         (r = Inr already_authenticated \<or> (\<exists>e. r = Inl e \<and> last t = Act Close (Inl e)))"
proof (cases rule: LoginToLinkedin_cases [OF run])
  case 1
  from 1(1) have "filter is_verification t = []" by (rule setup_events_plain(1))
  with pre show ?thesis by (simp add: precheck_matched_def)
next
  case (2 config creds pr r1 t1 rc page)
  from 2(2) have pv: "filter is_verification pr = []" and pt: "filter touches_credential_field pr = []"
    by (rule setup_events_plain)+
  from pv 2(4) have "filter is_verification t = filter is_verification t1"
    by simp
  from precheck_matched_cong [OF this] pre have "precheck_matched t1" by simp
  from li_try_precheck [OF 2(3) this]
  have r1: "r1 = Inr already_authenticated" and t1: "list_all (\<lambda>e. \<not> touches_credential_field e) t1"
    by simp_all
  from t1 have "filter touches_credential_field t1 = []" by (rule filter_none)
  with pt 2(4) have "filter touches_credential_field t = []"
    by simp
  moreover from r1 2(4,5) have "r = Inr already_authenticated \<or> (\<exists>e. r = Inl e \<and> last t = Act Close (Inl e))"
    by (cases rc) simp_all
  ultimately show ?thesis by simp
qed

section \<open>Submit actions of the LinkedIn flow\<close>

lemma submits_simps [simp]:
  "submits [] = []"
  "submits (e # t) = (case submit_of e of None \<Rightarrow> submits t | Some k \<Rightarrow> k # submits t)"
  "submits (t @ t') = submits t @ submits t'"
  by (auto simp: submits_def List.map_filter_def split: option.splits)

lemma submits_quiet: "list_all (\<lambda>e. submit_of e = None) t \<Longrightarrow> submits t = []"
  by (induction t) auto

lemma quiet_run: "emits (\<lambda>e. submit_of e = None) m \<Longrightarrow> m h = (r, t) \<Longrightarrow> submits t = []"
  by (rule submits_quiet) (rule emits_run)

lemma quiet_navigate: "emits (\<lambda>e. submit_of e = None) (li_navigateToHomepage E page config)"
  unfolding li_navigateToHomepage_def by (intro emits_rules allI) simp_all

lemma quiet_verifyLogin: "emits (\<lambda>e. submit_of e = None) (verifyLogin E page step tm fb)"
  unfolding verifyLogin_def by (intro emits_rules allI) simp_all

lemma quiet_enterUsername: "emits (\<lambda>e. submit_of e = None) (li_enterUsername E page u tm)"
  unfolding li_enterUsername_def li_waitForVisible_def by (intro emits_rules allI) simp_all

lemma quiet_locateOtpInputs: "emits (\<lambda>e. submit_of e = None) (locateOtpInputs E page)"
  unfolding locateOtpInputs_def by (intro emits_rules allI) simp_all

lemma quiet_fillDigits: "emits (\<lambda>e. submit_of e = None) (forEach (fillDigit E loc otp) xs)"
  unfolding fillDigit_def by (intro emits_rules allI) simp_all

lemma quiet_url: "emits (\<lambda>e. submit_of e = None) (url E p)"
  by (intro emits_rules allI) simp_all

lemma password_submits:
  assumes "enterPasswordAndSubmit E page pw tm h = (r, t)"
  shows "submits t = [PasswordKey] \<or> (submits t = [] \<and> (\<exists>e. r = Inl e))"
  using assms unfolding enterPasswordAndSubmit_def li_waitForVisible_def
  by (auto elim!: andThenE actE)

lemma probe_events_quiet: "submits (probe_events E page sels h) = []"
  by (rule submits_quiet) (rule probe_events_all, simp_all)

lemma chosen_in_set:
  assumes "distinct sels" and "find (\<lambda>r. r \<noteq> None) (probe_results E page sels h) = Some (Some s)"
  shows "s \<in> set sels"
  using assms(2) chosen_is_first_visible [OF assms(1), of E page h s] by auto

lemma clickCommonSubmit_submits:
  assumes "clickCommonSubmit E page h = (r, t)"
  shows "submits t = [] \<or> submits t = [GenericClick]"
proof (cases rule: chosen_cases [of E page submitSelectors h])
  case none
  with assms have "t = probe_events E page submitSelectors h"
    by (auto simp: clickCommonSubmit_def andThen_def probeSelectors_run ret_def)
  then show ?thesis by (simp add: probe_events_quiet)
next
  case (some s)
  from chosen_in_set [OF distinct_selectors(2) some] have g: "is_generic_control (First (Locator page s))" by simp
  from some assms obtain rn rc where
    "t = probe_events E page submitSelectors h @
         [Act (WaitForNavigation page 45000) rn, Act (Click (First (Locator page s)) None) rc]"
    by (auto simp: clickCommonSubmit_def andThen_def probeSelectors_run ret_def withNavigation_def act_def
          split: sum.splits)
  with g show ?thesis by (simp add: probe_events_quiet)
qed

lemma afterOtpSubmit_submits:
  assumes "afterOtpSubmit E page step tm h = (r, t)"
  shows "submits t = [] \<or> submits t = [GenericClick]"
  using assms unfolding afterOtpSubmit_def
  by (auto elim!: andThenE tryCatchE retE split: if_splits
        dest!: quiet_run [OF quiet_verifyLogin] clickCommonSubmit_submits)

lemma withNavigation_press_submits:
  assumes "withNavigation E page (Press l ''Enter'') h = (r, t)" and "is_otp_field l"
  shows "submits t = [OtpKey]"
  using assms by (cases l rule: is_otp_field.cases) (auto simp: withNavigation_def act_def)

lemma locateOtpInputs_result:
  assumes "locateOtpInputs E page h = (Inr (Some x), t)"
  shows "case x of Single l \<Rightarrow> is_otp_field l | Multi l \<Rightarrow> l = Locator page digitInputsSelector"
proof (cases rule: chosen_cases [of E page singleSelectors h])
  case none
  with assms show ?thesis
    by (auto simp: locateOtpInputs_def andThen_def probeSelectors_run tryCatch_def count_of_def ret_def
          split: sum.splits if_splits)
next
  case (some s)
  from chosen_in_set [OF distinct_selectors(1) some] some assms show ?thesis
    by (auto simp: locateOtpInputs_def andThen_def probeSelectors_run ret_def)
qed

lemma single_tactic_submits:
  assumes "andThen (act E (Fill loc [])) (\<lambda>u.
           andThen (act E (Fill loc otp)) (\<lambda>u.
           andThen (withNavigation E page (Press loc ''Enter'')) (\<lambda>u.
           afterOtpSubmit E page step tm))) h = (r, t)"
    and "is_otp_field loc"
  shows "submits t \<in> {[], [OtpKey], [OtpKey, GenericClick]}"
  using assms
  by (auto elim!: andThenE actE dest!: afterOtpSubmit_submits withNavigation_press_submits)

lemma multi_tactic_submits:
  assumes "andThen (count_of E loc) (\<lambda>n.
             andThen (forEach (fillDigit E loc otp) [0..<min n (length otp)]) (\<lambda>u.
             andThen (withNavigation E page (Press (Nth loc (int (min n (length otp)) - 1)) ''Enter'')) (\<lambda>u.
             afterOtpSubmit E page step tm))) h = (r, t)"
    and "loc = Locator page digitInputsSelector"
  shows "submits t \<in> {[], [OtpKey], [OtpKey, GenericClick]}"
  using assms
  by (auto elim!: andThenE simp: count_of_def
        dest!: afterOtpSubmit_submits withNavigation_press_submits quiet_run [OF quiet_fillDigits])

lemma submitOtpCode_submits:
  assumes run: "submitOtpCode E page otp step tm h = (r, t)"
  shows "submits t \<in> {[], [OtpKey], [OtpKey, GenericClick]}"
proof -
  obtain rl tl where l: "locateOtpInputs E page h = (rl, tl)"
    by (cases "locateOtpInputs E page h")
  have q: "submits tl = []" by (rule quiet_run [OF quiet_locateOtpInputs l])
  show ?thesis
  proof (cases rl)
    case (Inl e)
    with run l have "t = tl" by (simp add: submitOtpCode_def andThen_def)
    with q show ?thesis by simp
  next
    case (Inr inputs)
    show ?thesis
    proof (cases inputs)
      case None
      with run l Inr have "t = tl" by (simp add: submitOtpCode_def andThen_def throw_def)
      with q show ?thesis by simp
    next
      case (Some x)
      show ?thesis
      proof (cases x)
        case (Single loc)
        with locateOtpInputs_result [of E page h x tl] l Inr Some have o: "is_otp_field loc" by simp
        from run l Inr Some Single obtain t2 where "t = tl @ t2" and
          "andThen (act E (Fill loc [])) (\<lambda>u.
           andThen (act E (Fill loc otp)) (\<lambda>u.
           andThen (withNavigation E page (Press loc ''Enter'')) (\<lambda>u.
           afterOtpSubmit E page step tm))) (h @ tl) = (r, t2)"
          by (auto simp: submitOtpCode_def elim!: andThenE)
        with single_tactic_submits [OF _ o] q show ?thesis by simp
      next
        case (Multi loc)
        with locateOtpInputs_result [of E page h x tl] l Inr Some
        have o: "loc = Locator page digitInputsSelector" by simp
        from run l Inr Some Multi obtain t2 where "t = tl @ t2" and
          "andThen (count_of E loc) (\<lambda>n.
             andThen (forEach (fillDigit E loc otp) [0..<min n (length otp)]) (\<lambda>u.
             andThen (withNavigation E page (Press (Nth loc (int (min n (length otp)) - 1)) ''Enter'')) (\<lambda>u.
             afterOtpSubmit E page step tm))) (h @ tl) = (r, t2)"
          by (auto simp: submitOtpCode_def Let_def elim!: andThenE)
        with multi_tactic_submits [OF _ o] q show ?thesis by simp
      qed
    qed
  qed
qed

lemma li_secondFactor_submits:
  assumes "li_secondFactor E config page creds h = (r, t)"
  shows "submits t \<in> {[], [OtpKey], [OtpKey, GenericClick]}"
  using assms unfolding li_secondFactor_def li_fetchIdentityCredentials_def
  by (auto elim!: andThenE retE liftE retrieveCredentialsE dest!: submitOtpCode_submits split: if_splits)

lemma li_tryBlock_submits:
  assumes "li_tryBlock E config page creds h = (r, t)"
  shows "submits t \<in> {[], [PasswordKey], [PasswordKey, OtpKey], [PasswordKey, OtpKey, GenericClick]}"
  using assms unfolding li_tryBlock_def
  by (auto elim!: andThenE retE urlE split: if_splits
        dest!: quiet_run [OF quiet_navigate] quiet_run [OF quiet_verifyLogin] quiet_run [OF quiet_enterUsername]
          password_submits li_secondFactor_submits)

lemma li_try_submits:
  assumes "tryCatch (li_tryBlock E config page creds) li_catchBlock h = (r, t)"
  shows "submits t \<in> {[], [PasswordKey], [PasswordKey, OtpKey], [PasswordKey, OtpKey, GenericClick]}"
  using assms
  by (auto elim!: tryCatchE retE dest!: li_tryBlock_submits simp: li_catchBlock_def)

lemma setup_event_quiet: "is_setup_event e \<Longrightarrow> submit_of e = None"
  by (cases e rule: is_setup_event.cases) simp_all

lemma setup_events_quiet: "list_all is_setup_event t \<Longrightarrow> submits t = []"
  by (induction t) (auto dest: setup_event_quiet)

lemma li_submits_run:
  assumes run: "LoginToLinkedin E penv h = (r, t)"
  shows "submits t \<in> {[], [PasswordKey], [PasswordKey, OtpKey], [PasswordKey, OtpKey, GenericClick]}"
proof (cases rule: LoginToLinkedin_cases [OF run])
  case 1
  then show ?thesis by (simp add: setup_events_quiet)
next
  case (2 config creds pr r1 t1 rc page)
  from 2(2) have "submits pr = []" by (rule setup_events_quiet)
  with li_try_submits [OF 2(3)] 2(4) show ?thesis by simp
qed

lemma run_otp_fallback_submits:
  "submits (snd (LoginToLinkedin env_otp_fallback penv_ok [])) = [PasswordKey, OtpKey, GenericClick]"
  by (simp add: LoginToLinkedin_def li_tryBlock_def li_step_defs monad_defs config_defs parse_defs
        env_otp_fallback_def env_quiet_def response_otp_def penv_ok_def probe_defs
        singleSelectors_def submitSelectors_def li_passwordField_def li_usernameField_def)

section \<open>The one-time-code step\<close>

lemma otp_calls_simps [simp]:
  "otp_calls [] = []"
  "otp_calls (e # t) = (case otp_call e of None \<Rightarrow> otp_calls t | Some k \<Rightarrow> k # otp_calls t)"
  "otp_calls (t @ t') = otp_calls t @ otp_calls t'"
  by (auto simp: otp_calls_def List.map_filter_def split: option.splits)

lemma otp_calls_quiet: "list_all (\<lambda>e. otp_call e = None) t \<Longrightarrow> otp_calls t = []"
  by (induction t) auto

lemma otp_calls_probes [simp]: "otp_calls (probe_events E page sels h) = []"
  by (rule otp_calls_quiet) (rule probe_events_all, simp_all)

lemma chosen_first_visible:
  "distinct sels \<Longrightarrow> first_visible E page sels h i \<Longrightarrow>
   find (\<lambda>r. r \<noteq> None) (probe_results E page sels h) = Some (Some (sels ! i))"
  using chosen_iff [of sels E page h "sels ! i"] by blast

lemma chosen_none_visible:
  assumes "distinct sels" and "\<forall>i. \<not> first_visible E page sels h i"
  shows "find (\<lambda>r. r \<noteq> None) (probe_results E page sels h) = None"
proof (cases rule: chosen_cases [of E page sels h])
  case none
  then show ?thesis .
next
  case (some s)
  with assms(2) chosen_iff [OF assms(1), of E page h s] show ?thesis by blast
qed

lemma locateOtpInputs_run_single:
  assumes "first_visible E page singleSelectors h i"
  shows "locateOtpInputs E page h =
           (Inr (Some (Single (First (Locator page (singleSelectors ! i))))),
            probe_events E page singleSelectors h)"
  using chosen_first_visible [OF distinct_selectors(1) assms]
  by (simp add: locateOtpInputs_def andThen_def probeSelectors_run ret_def)

lemma locateOtpInputs_run_none_visible:
  assumes "\<forall>i. \<not> first_visible E page singleSelectors h i"
  shows "locateOtpInputs E page h =
           (Inr (case e_count E (h @ probe_events E page singleSelectors h) (digitInputs page) of
                   Inr n \<Rightarrow> if 6 \<le> n then Some (Multi (digitInputs page)) else None
                 | Inl e \<Rightarrow> None),
            probe_events E page singleSelectors h @
              [Count (digitInputs page) (e_count E (h @ probe_events E page singleSelectors h) (digitInputs page))])"
  using chosen_none_visible [OF distinct_selectors(1) assms]
  by (simp add: locateOtpInputs_def andThen_def probeSelectors_run ret_def tryCatch_def count_of_def
        digitInputs_def split: sum.splits)


lemma afterOtpSubmit_run:
  "afterOtpSubmit E page step tm h =
     (Inr (),
      snd (verifyLogin E page step tm (Some 10000) h) @
      (if fst (verifyLogin E page step tm (Some 10000) h) = Inr True then []
       else snd (clickCommonSubmit E page (h @ snd (verifyLogin E page step tm (Some 10000) h)))))"
proof -
  obtain b tv where v: "verifyLogin E page step tm (Some 10000) h = (Inr b, tv)"
    by (cases "e_act E h (WaitForURL page feedPattern (max tm 10000))") (simp_all add: verifyLogin_run)
  obtain rc tc where c: "clickCommonSubmit E page (h @ tv) = (rc, tc)"
    by (cases "clickCommonSubmit E page (h @ tv)")
  show ?thesis
    using v c by (cases b; cases rc) (simp_all add: afterOtpSubmit_def andThen_def tryCatch_def ret_def)
qed

lemma afterOtpSubmit_returns: "fst (afterOtpSubmit E page step tm h) = Inr ()"
  by (simp add: afterOtpSubmit_run)

lemma submitOtpCode_run_single:
  assumes fv: "first_visible E page singleSelectors h i" and acc: "accepts E"
  shows "\<exists>rn hh. submitOtpCode E page otp step tm h =
           (Inr (),
            probe_events E page singleSelectors h @
            [Act (Fill (First (Locator page (singleSelectors ! i))) []) (Inr ()),
             Act (Fill (First (Locator page (singleSelectors ! i))) otp) (Inr ()),
             Act (WaitForNavigation page 45000) rn,
             Act (Press (First (Locator page (singleSelectors ! i))) ''Enter'') (Inr ())] @
            snd (afterOtpSubmit E page step tm hh))"
proof -
  let ?loc = "First (Locator page (singleSelectors ! i))"
  let ?h1 = "h @ probe_events E page singleSelectors h"
  let ?f = "[Act (Fill ?loc []) (Inr ()), Act (Fill ?loc otp) (Inr ())]"
  let ?rn = "e_act E (?h1 @ ?f) (WaitForNavigation page 45000)"
  let ?k = "?f @ [Act (WaitForNavigation page 45000) ?rn, Act (Press ?loc ''Enter'') (Inr ())]"
  obtain ta where a: "afterOtpSubmit E page step tm (?h1 @ ?k) = (Inr (), ta)"
    using afterOtpSubmit_returns [of E page step tm "?h1 @ ?k"] by (metis prod.collapse)
  have "submitOtpCode E page otp step tm h = (Inr (), probe_events E page singleSelectors h @ ?k @ ta)"
    using acc a
    by (simp add: submitOtpCode_def andThen_def locateOtpInputs_run_single [OF fv] act_def
          withNavigation_def accepts_def)
  with a show ?thesis by (metis append_Cons append_Nil snd_conv)
qed


lemma submitOtpCode_run_none:
  assumes nv: "\<forall>i. \<not> first_visible E page singleSelectors h i"
    and c1: "\<forall>n. e_count E (h @ probe_events E page singleSelectors h) (digitInputs page) = Inr n \<longrightarrow> n < 6"
  shows "submitOtpCode E page otp step tm h =
           (Inl (ErrorObj ''OTP inputs not found''),
            probe_events E page singleSelectors h @
            [Count (digitInputs page) (e_count E (h @ probe_events E page singleSelectors h) (digitInputs page))])"
  using c1
  by (cases "e_count E (h @ probe_events E page singleSelectors h) (digitInputs page)")
     (auto simp: submitOtpCode_def andThen_def locateOtpInputs_run_none_visible [OF nv] throw_def)



lemma after_quiet_examples:
  "otp_calls (snd (afterOtpSubmit env_eight_digits 0 6 10000 hh)) = []"
  "otp_calls (snd (afterOtpSubmit env_two_visible 0 6 10000 hh)) = []"
  by (simp_all add: afterOtpSubmit_run verifyLogin_run env_eight_digits_def env_two_visible_def env_quiet_def)


section \<open>The one-time-code step with any page driver\<close>

lemma stopped_at_append:
  "stopped_at t2 s e \<Longrightarrow> stopped_at (t1 @ t2) (otp_calls t1 @ s) e"
  by (simp add: stopped_at_def)

lemma stopped_at_more:
  "stopped_at t s e \<Longrightarrow> stopped_at t (s @ s') e"
  by (auto simp: stopped_at_def intro: prefix_order.trans)

lemma fillDigits_any:
  assumes "\<forall>i\<in>set xs. i < length otp" and "forEach (fillDigit E loc otp) xs h = (r, t)"
  shows "(r = Inr () \<and>
          otp_calls t = concat (map (\<lambda>i. [Fill (Nth loc (int i)) [], TypeText (Nth loc (int i)) [otp ! i]]) xs)) \<or>
         (\<exists>e. r = Inl e \<and>
            stopped_at t (concat (map (\<lambda>i. [Fill (Nth loc (int i)) [], TypeText (Nth loc (int i)) [otp ! i]]) xs)) e)"
  using assms
proof (induction xs arbitrary: h r t)
  case Nil
  then show ?case by (simp add: ret_def)
next
  case (Cons i xs)
  let ?c = "\<lambda>xs. concat (map (\<lambda>i. [Fill (Nth loc (int i)) [], TypeText (Nth loc (int i)) [otp ! i]]) xs)"
  let ?f = "Fill (Nth loc (int i)) []"
  let ?ty = "TypeText (Nth loc (int i)) [otp ! i]"
  from Cons.prems have i: "i < length otp" and xs: "\<forall>i\<in>set xs. i < length otp" by simp_all
  show ?case
  proof (cases "e_act E h ?f")
    case (Inl e)
    with i have "fillDigit E loc otp i h = (Inl e, [Act ?f (Inl e)])"
      by (simp add: fillDigit_def andThen_def act_def)
    with Cons.prems(2) have "r = Inl e" and "t = [Act ?f (Inl e)]"
      by (auto simp: andThen_def)
    then show ?thesis by (simp add: stopped_at_def)
  next
    case f: (Inr u)
    show ?thesis
    proof (cases "e_act E (h @ [Act ?f (Inr ())]) ?ty")
      case (Inl e)
      with i f have "fillDigit E loc otp i h = (Inl e, [Act ?f (Inr ()), Act ?ty (Inl e)])"
        by (simp add: fillDigit_def andThen_def act_def)
      with Cons.prems(2) have "r = Inl e" and "t = [Act ?f (Inr ()), Act ?ty (Inl e)]"
        by (auto simp: andThen_def)
      then show ?thesis by (simp add: stopped_at_def)
    next
      case ty: (Inr u')
      let ?t1 = "[Act ?f (Inr ()), Act ?ty (Inr ())]"
      from i f ty have step: "fillDigit E loc otp i h = (Inr (), ?t1)"
        by (simp add: fillDigit_def andThen_def act_def)
      from Cons.prems(2) obtain t2 where
        rest: "forEach (fillDigit E loc otp) xs (h @ ?t1) = (r, t2)" and t: "t = ?t1 @ t2"
        by (auto simp: andThen_def step split: prod.splits)
      from Cons.IH [OF xs rest] show ?thesis
      proof (elim disjE exE conjE)
        assume "r = Inr ()" and "otp_calls t2 = ?c xs"
        with t show ?thesis by simp
      next
        fix e assume r: "r = Inl e" and s: "stopped_at t2 (?c xs) e"
        from stopped_at_append [OF s, of ?t1] t r show ?thesis by simp
      qed
    qed
  qed
qed

lemma digits_any:
  assumes "forEach (fillDigit E loc otp) [0..<min n (length otp)] h = (r, t)"
  shows "(r = Inr () \<and> otp_calls t = digit_calls loc otp (min n (length otp))) \<or>
         (\<exists>e. r = Inl e \<and> stopped_at t (digit_calls loc otp (min n (length otp))) e)"
  using fillDigits_any [OF _ assms] by (simp add: digit_calls_def)

lemma submitOtpCode_single_any:
  assumes fv: "first_visible E page singleSelectors h i"
  shows "\<exists>ts.
           (fst (submitOtpCode E page otp step tm h) = Inr () \<and>
            snd (submitOtpCode E page otp step tm h) =
              probe_events E page singleSelectors h @ ts @
              snd (afterOtpSubmit E page step tm (h @ probe_events E page singleSelectors h @ ts)) \<and>
            otp_calls ts = single_calls (First (Locator page (singleSelectors ! i))) page otp) \<or>
           (\<exists>e. fst (submitOtpCode E page otp step tm h) = Inl e \<and>
              snd (submitOtpCode E page otp step tm h) = probe_events E page singleSelectors h @ ts \<and>
              stopped_at ts (single_calls (First (Locator page (singleSelectors ! i))) page otp) e)"
proof -
  let ?loc = "First (Locator page (singleSelectors ! i))"
  let ?p = "probe_events E page singleSelectors h"
  let ?h1 = "h @ ?p"
  let ?f1 = "Act (Fill ?loc []) (Inr ())"
  let ?f2 = "Act (Fill ?loc otp) (Inr ())"
  note loc = locateOtpInputs_run_single [OF fv]
  show ?thesis
  proof (cases "e_act E ?h1 (Fill ?loc [])")
    case (Inl e)
    then have "submitOtpCode E page otp step tm h = (Inl e, ?p @ [Act (Fill ?loc []) (Inl e)])"
      by (simp add: submitOtpCode_def andThen_def loc act_def)
    then show ?thesis
      by (intro exI [of _ "[Act (Fill ?loc []) (Inl e)]"]) (simp add: stopped_at_def single_calls_def)
  next
    case a: (Inr u)
    show ?thesis
    proof (cases "e_act E (?h1 @ [?f1]) (Fill ?loc otp)")
      case (Inl e)
      with a have "submitOtpCode E page otp step tm h = (Inl e, ?p @ [?f1, Act (Fill ?loc otp) (Inl e)])"
        by (simp add: submitOtpCode_def andThen_def loc act_def)
      then show ?thesis
        by (intro exI [of _ "[?f1, Act (Fill ?loc otp) (Inl e)]"]) (simp add: stopped_at_def single_calls_def)
    next
      case b: (Inr u')
      let ?n = "Act (WaitForNavigation page 45000) (e_act E (?h1 @ [?f1, ?f2]) (WaitForNavigation page 45000))"
      show ?thesis
      proof (cases "e_act E (?h1 @ [?f1, ?f2, ?n]) (Press ?loc ''Enter'')")
        case (Inl e)
        with a b have "submitOtpCode E page otp step tm h =
            (Inl e, ?p @ [?f1, ?f2, ?n, Act (Press ?loc ''Enter'') (Inl e)])"
          by (simp add: submitOtpCode_def andThen_def loc act_def withNavigation_def)
        then show ?thesis
          by (intro exI [of _ "[?f1, ?f2, ?n, Act (Press ?loc ''Enter'') (Inl e)]"])
             (simp add: stopped_at_def single_calls_def)
      next
        case c: (Inr u'')
        let ?ts = "[?f1, ?f2, ?n, Act (Press ?loc ''Enter'') (Inr ())]"
        obtain ta where ta: "afterOtpSubmit E page step tm (?h1 @ ?ts) = (Inr (), ta)"
          using afterOtpSubmit_returns [of E page step tm "?h1 @ ?ts"] by (metis prod.collapse)
        with a b c have "submitOtpCode E page otp step tm h = (Inr (), ?p @ ?ts @ ta)"
          by (simp add: submitOtpCode_def andThen_def loc act_def withNavigation_def)
        with ta show ?thesis
          by (intro exI [of _ ?ts]) (simp add: single_calls_def)
      qed
    qed
  qed
qed

lemma submitOtpCode_multi_any:
  assumes nv: "\<forall>i. \<not> first_visible E page singleSelectors h i"
    and c1: "e_count E (h @ probe_events E page singleSelectors h) (digitInputs page) = Inr n" and six: "6 \<le> n"
    and c2: "e_count E (h @ probe_events E page singleSelectors h @ [Count (digitInputs page) (Inr n)])
               (digitInputs page) = Inr n2"
  shows "\<exists>ts.
           (fst (submitOtpCode E page otp step tm h) = Inr () \<and>
            snd (submitOtpCode E page otp step tm h) =
              probe_events E page singleSelectors h @
              [Count (digitInputs page) (Inr n), Count (digitInputs page) (Inr n2)] @ ts @
              snd (afterOtpSubmit E page step tm
                     (h @ probe_events E page singleSelectors h @
                      [Count (digitInputs page) (Inr n), Count (digitInputs page) (Inr n2)] @ ts)) \<and>
            otp_calls ts = multi_calls (digitInputs page) page otp n2) \<or>
           (\<exists>e. fst (submitOtpCode E page otp step tm h) = Inl e \<and>
              snd (submitOtpCode E page otp step tm h) =
                probe_events E page singleSelectors h @
                [Count (digitInputs page) (Inr n), Count (digitInputs page) (Inr n2)] @ ts \<and>
              stopped_at ts (multi_calls (digitInputs page) page otp n2) e)"
proof -
  let ?d = "digitInputs page"
  let ?m = "min n2 (length otp)"
  let ?p = "probe_events E page singleSelectors h @ [Count ?d (Inr n), Count ?d (Inr n2)]"
  let ?h2 = "h @ ?p"
  let ?press = "Press (Nth ?d (int ?m - 1)) ''Enter''"
  have loc: "locateOtpInputs E page h =
      (Inr (Some (Multi ?d)), probe_events E page singleSelectors h @ [Count ?d (Inr n)])"
    using locateOtpInputs_run_none_visible [OF nv] c1 six by simp
  obtain rf tf where f: "forEach (fillDigit E ?d otp) [0..<?m] ?h2 = (rf, tf)"
    by (cases "forEach (fillDigit E ?d otp) [0..<?m] ?h2")
  from digits_any [OF f] show ?thesis
  proof (elim disjE exE conjE)
    fix e assume rf: "rf = Inl e" and s: "stopped_at tf (digit_calls ?d otp ?m) e"
    from f rf c2 have "submitOtpCode E page otp step tm h = (Inl e, ?p @ tf)"
      by (simp add: submitOtpCode_def andThen_def loc count_of_def Let_def)
    with stopped_at_more [OF s] show ?thesis
      by (intro exI [of _ tf]) (simp add: multi_calls_def)
  next
    assume rf: "rf = Inr ()" and fc: "otp_calls tf = digit_calls ?d otp ?m"
    let ?n = "Act (WaitForNavigation page 45000) (e_act E (?h2 @ tf) (WaitForNavigation page 45000))"
    show ?thesis
    proof (cases "e_act E (?h2 @ tf @ [?n]) ?press")
      case (Inl e)
      with f rf c2 have "submitOtpCode E page otp step tm h = (Inl e, ?p @ tf @ [?n, Act ?press (Inl e)])"
        by (simp add: submitOtpCode_def andThen_def loc count_of_def Let_def act_def withNavigation_def)
      with fc show ?thesis
        by (intro exI [of _ "tf @ [?n, Act ?press (Inl e)]"]) (simp add: stopped_at_def multi_calls_def)
    next
      case c: (Inr u)
      let ?ts = "tf @ [?n, Act ?press (Inr ())]"
      obtain ta where ta: "afterOtpSubmit E page step tm (?h2 @ ?ts) = (Inr (), ta)"
        using afterOtpSubmit_returns [of E page step tm "?h2 @ ?ts"] by (metis prod.collapse)
      with f rf c2 c have "submitOtpCode E page otp step tm h = (Inr (), ?p @ ?ts @ ta)"
        by (simp add: submitOtpCode_def andThen_def loc count_of_def Let_def act_def withNavigation_def)
      with ta fc show ?thesis
        by (intro exI [of _ ?ts]) (simp add: multi_calls_def)
    qed
  qed
qed

lemma submitOtpCode_recount_fails:
  assumes nv: "\<forall>i. \<not> first_visible E page singleSelectors h i"
    and c1: "e_count E (h @ probe_events E page singleSelectors h) (digitInputs page) = Inr n" and six: "6 \<le> n"
    and c2: "e_count E (h @ probe_events E page singleSelectors h @ [Count (digitInputs page) (Inr n)])
               (digitInputs page) = Inl e"
  shows "submitOtpCode E page otp step tm h =
           (Inl e, probe_events E page singleSelectors h @
                   [Count (digitInputs page) (Inr n), Count (digitInputs page) (Inl e)])"
proof -
  have loc: "locateOtpInputs E page h =
      (Inr (Some (Multi (digitInputs page))), probe_events E page singleSelectors h @ [Count (digitInputs page) (Inr n)])"
    using locateOtpInputs_run_none_visible [OF nv] c1 six by simp
  from c2 show ?thesis
    by (simp add: submitOtpCode_def andThen_def loc count_of_def)
qed


lemma counts_simps [simp]:
  "List.map_filter counted [] = []"
  "List.map_filter counted (e # t) = (case counted e of None \<Rightarrow> List.map_filter counted t
                                      | Some n \<Rightarrow> n # List.map_filter counted t)"
  "List.map_filter counted (t @ t') = List.map_filter counted t @ List.map_filter counted t'"
  by (auto simp: List.map_filter_def split: option.splits)

lemma submitOtpCode_enters:
  assumes "fst (submitOtpCode E page otp step tm h) = Inr ()"
  shows "enters_code page otp (snd (submitOtpCode E page otp step tm h))"
proof (cases "\<exists>i. first_visible E page singleSelectors h i")
  case True
  then obtain i where fv: "first_visible E page singleSelectors h i" by blast
  then have i: "i < length singleSelectors" by (simp add: first_visible_alt)
  from submitOtpCode_single_any [OF fv, of otp step tm] assms obtain ts where
    t: "snd (submitOtpCode E page otp step tm h) =
          probe_events E page singleSelectors h @ ts @
          snd (afterOtpSubmit E page step tm (h @ probe_events E page singleSelectors h @ ts))"
    and c: "otp_calls ts = single_calls (First (Locator page (singleSelectors ! i))) page otp"
    by auto
  from c have "prefix (single_calls (First (Locator page (singleSelectors ! i))) page otp)
      (otp_calls (snd (submitOtpCode E page otp step tm h)))"
    by (simp add: t)
  with i show ?thesis
    unfolding enters_code_def list_ex_iff by (metis nth_mem)
next
  case False
  then have nv: "\<forall>i. \<not> first_visible E page singleSelectors h i" by blast
  let ?p = "probe_events E page singleSelectors h"
  let ?d = "digitInputs page"
  show ?thesis
  proof (cases "e_count E (h @ ?p) ?d")
    case (Inl e)
    with submitOtpCode_run_none [OF nv, of otp step tm] assms show ?thesis by simp
  next
    case (Inr n)
    show ?thesis
    proof (cases "6 \<le> n")
      case False
      with Inr submitOtpCode_run_none [OF nv, of otp step tm] assms show ?thesis by simp
    next
      case True
      show ?thesis
      proof (cases "e_count E (h @ ?p @ [Count ?d (Inr n)]) ?d")
        case (Inl e)
        from submitOtpCode_recount_fails [OF nv Inr True Inl, of otp step tm] assms show ?thesis by simp
      next
        case c2: (Inr n2)
        from submitOtpCode_multi_any [OF nv Inr True c2, of otp step tm] assms obtain ts where
          t: "snd (submitOtpCode E page otp step tm h) =
                ?p @ [Count ?d (Inr n), Count ?d (Inr n2)] @ ts @
                snd (afterOtpSubmit E page step tm (h @ ?p @ [Count ?d (Inr n), Count ?d (Inr n2)] @ ts))"
          and c: "otp_calls ts = multi_calls ?d page otp n2"
          by auto
        have "n2 \<in> set (List.map_filter counted (snd (submitOtpCode E page otp step tm h)))"
          by (simp add: t)
        moreover have "prefix (multi_calls ?d page otp n2) (otp_calls (snd (submitOtpCode E page otp step tm h)))"
          by (simp add: t c)
        ultimately show ?thesis
          unfolding enters_code_def list_ex_iff by blast
      qed
    qed
  qed
qed

lemma enters_code_append: "enters_code page otp t \<Longrightarrow> enters_code page otp (t @ t')"
  unfolding enters_code_def list_ex_iff by simp (meson UnI1 prefix_prefix)

section \<open>The refresh of the one-time code\<close>

lemma is_password_submitted_press:
  "is_password_submitted (Act (Press l k) r) =
     (\<exists>p u. l = Locator p li_passwordField \<and> k = ''Enter'' \<and> r = Inr u)"
  by (cases r; cases l) auto

lemma not_Inr_unit: "(x :: thrown + unit) \<noteq> Inr () \<longleftrightarrow> (\<exists>e. x = Inl e)"
  by (cases x) auto

lemma not_submitted_navigate: "emits (\<lambda>e. \<not> is_password_submitted e) (li_navigateToHomepage E page config)"
  unfolding li_navigateToHomepage_def by (intro emits_rules allI) simp_all

lemma not_submitted_verifyLogin: "emits (\<lambda>e. \<not> is_password_submitted e) (verifyLogin E page step tm fb)"
  unfolding verifyLogin_def by (intro emits_rules allI) simp_all

lemma not_submitted_enterUsername: "emits (\<lambda>e. \<not> is_password_submitted e) (li_enterUsername E page u tm)"
  unfolding li_enterUsername_def li_waitForVisible_def
  by (intro emits_rules allI) (simp_all add: is_password_submitted_press)

lemma enterPasswordAndSubmit_shape:
  assumes "enterPasswordAndSubmit E page pw tm h = (r, t)"
  shows "(\<exists>e. r = Inl e \<and> list_all (\<lambda>e. \<not> is_password_submitted e) t) \<or>
         (r = Inr () \<and> (\<exists>t'. t = t' @ [password_press page] \<and> list_all (\<lambda>e. \<not> is_password_submitted e) t'))"
  using assms unfolding enterPasswordAndSubmit_def li_waitForVisible_def password_press_def
  by (auto elim!: andThenE actE simp: is_password_submitted_press not_Inr_unit)

lemma parseLinkedin_message_nonempty:
  "parseLinkedinCredentials cs = Inl err \<Longrightarrow> or_else (errorMessage err) d = errorMessage err"
  by (auto simp: parseLinkedin_matched or_else_def split: if_splits)

lemma li_secondFactor_refresh:
  assumes run: "li_secondFactor E config page creds h = (r, t)" and otp: "li_otp creds \<noteq> []"
  shows "\<exists>r2 t2. t = RetrieveCredentials (li_identityId config) r2 # t2 \<and>
           e_retrieveCredentials E h (li_identityId config) = r2 \<and>
           (case r2 of
              Inl e \<Rightarrow> r = Inl e \<and> t2 = []
            | Inr resp2 \<Rightarrow>
                (case parseLinkedinCredentials (ir_credentials resp2) of
                   Inl err \<Rightarrow> r = Inl err \<and> t2 = []
                 | Inr creds2 \<Rightarrow>
                     t2 = snd (submitOtpCode E page (li_otp creds2) 6 (li_timeoutMs config)
                                 (h @ [RetrieveCredentials (li_identityId config) r2]))))"
  using assms unfolding li_secondFactor_def li_fetchIdentityCredentials_def
  by (auto simp: andThen_def retrieveCredentials_def lift_def ret_def split: sum.splits prod.splits)

lemma li_tryBlock_refresh:
  assumes run: "li_tryBlock E config page creds h = (r, t)"
    and sub: "list_ex is_password_submitted t" and otp: "li_otp creds \<noteq> []"
  shows "\<exists>t1 r2 t2. t = t1 @ [password_press page, RetrieveCredentials (li_identityId config) r2] @ t2 \<and>
           \<not> list_ex is_password_submitted t1 \<and>
           (case r2 of
              Inl e \<Rightarrow> r = Inl e \<and> t2 = []
            | Inr resp2 \<Rightarrow>
                (case parseLinkedinCredentials (ir_credentials resp2) of
                   Inl err \<Rightarrow> r = Inl err \<and> t2 = []
                 | Inr creds2 \<Rightarrow>
                     (\<exists>t3. t2 = snd (submitOtpCode E page (li_otp creds2) 6 (li_timeoutMs config)
                                 (h @ t1 @ [password_press page, RetrieveCredentials (li_identityId config) r2]))
                               @ t3)))"
proof -
  note ns = list_ex_none
  obtain rn tn where n: "li_navigateToHomepage E page config h = (rn, tn)"
    by (cases "li_navigateToHomepage E page config h")
  have qn: "\<not> list_ex is_password_submitted tn"
    by (rule ns [OF emits_run [OF not_submitted_navigate n]])
  show ?thesis
  proof (cases rn)
    case (Inl e)
    with run n have "t = tn" by (simp add: li_tryBlock_def andThen_def)
    with sub qn show ?thesis by simp
  next
    case nav: (Inr u)
    obtain b tv where v: "verifyLogin E page 2 (li_timeoutMs config) (Some 10000) (h @ tn) = (Inr b, tv)"
      by (cases "e_act E (h @ tn) (WaitForURL page feedPattern (max (li_timeoutMs config) 10000))")
         (simp_all add: verifyLogin_run)
    have qv: "\<not> list_ex is_password_submitted tv"
      by (rule ns [OF emits_run [OF not_submitted_verifyLogin v]])
    show ?thesis
    proof (cases b)
      case True
      with run n nav v have "t = tn @ tv" by (simp add: li_tryBlock_def andThen_def ret_def)
      with sub qn qv show ?thesis by simp
    next
      case False
      obtain ru tu where u: "li_enterUsername E page (li_username creds) (li_timeoutMs config) (h @ tn @ tv) = (ru, tu)"
        by (cases "li_enterUsername E page (li_username creds) (li_timeoutMs config) (h @ tn @ tv)")
      have qu: "\<not> list_ex is_password_submitted tu"
        by (rule ns [OF emits_run [OF not_submitted_enterUsername u]])
      show ?thesis
      proof (cases ru)
        case (Inl e)
        with run n nav v False u have "t = tn @ tv @ tu" by (simp add: li_tryBlock_def andThen_def)
        with sub qn qv qu show ?thesis by simp
      next
        case user: (Inr uu)
        obtain rp tp where p:
          "enterPasswordAndSubmit E page (li_password creds) (li_timeoutMs config) (h @ tn @ tv @ tu) = (rp, tp)"
          by (cases "enterPasswordAndSubmit E page (li_password creds) (li_timeoutMs config) (h @ tn @ tv @ tu)")
        from enterPasswordAndSubmit_shape [OF p] show ?thesis
        proof (elim disjE exE conjE)
          fix e assume "rp = Inl e" and q: "list_all (\<lambda>e. \<not> is_password_submitted e) tp"
          with run n nav v False u user p have "t = tn @ tv @ tu @ tp"
            by (simp add: li_tryBlock_def andThen_def)
          with sub qn qv qu ns [OF q] show ?thesis by simp
        next
          fix t' assume rp: "rp = Inr ()" and tp: "tp = t' @ [password_press page]"
            and qt: "list_all (\<lambda>e. \<not> is_password_submitted e) t'"
          let ?h = "h @ tn @ tv @ tu @ tp"
          obtain rs ts where s: "li_secondFactor E config page creds ?h = (rs, ts)"
            by (cases "li_secondFactor E config page creds ?h")
          from li_secondFactor_refresh [OF s otp] obtain r2 t2 where
            ts: "ts = RetrieveCredentials (li_identityId config) r2 # t2" and
            c: "case r2 of
              Inl e \<Rightarrow> rs = Inl e \<and> t2 = []
            | Inr resp2 \<Rightarrow>
                (case parseLinkedinCredentials (ir_credentials resp2) of
                   Inl err \<Rightarrow> rs = Inl err \<and> t2 = []
                 | Inr creds2 \<Rightarrow>
                     t2 = snd (submitOtpCode E page (li_otp creds2) 6 (li_timeoutMs config)
                                 (?h @ [RetrieveCredentials (li_identityId config) r2])))"
            by blast
          from run n nav v False u user p rp s obtain t3 where
            t: "t = tn @ tv @ tu @ tp @ ts @ t3" and r: "\<And>e. rs = Inl e \<Longrightarrow> r = Inl e \<and> t3 = []"
            by (auto simp: li_tryBlock_def andThen_def split: sum.splits prod.splits)
          let ?t1 = "tn @ tv @ tu @ t'"
          have t_eq: "t = ?t1 @ [password_press page, RetrieveCredentials (li_identityId config) r2] @ t2 @ t3"
            using t tp ts by simp
          have h_eq: "?h @ [RetrieveCredentials (li_identityId config) r2] =
                      h @ ?t1 @ [password_press page, RetrieveCredentials (li_identityId config) r2]"
            using tp by simp
          show ?thesis
          proof (rule exI [of _ ?t1], rule exI [of _ r2], rule exI [of _ "t2 @ t3"], intro conjI)
            show "t = ?t1 @ [password_press page, RetrieveCredentials (li_identityId config) r2] @ t2 @ t3"
              by (rule t_eq)
          next
            show "\<not> list_ex is_password_submitted ?t1"
              using qn qv qu ns [OF qt] by simp
          next
            show "case r2 of
              Inl e \<Rightarrow> r = Inl e \<and> t2 @ t3 = []
            | Inr resp2 \<Rightarrow>
                (case parseLinkedinCredentials (ir_credentials resp2) of
                   Inl err \<Rightarrow> r = Inl err \<and> t2 @ t3 = []
                 | Inr creds2 \<Rightarrow>
                     (\<exists>t3'. t2 @ t3 = snd (submitOtpCode E page (li_otp creds2) 6 (li_timeoutMs config)
                                 (h @ ?t1 @ [password_press page, RetrieveCredentials (li_identityId config) r2]))
                               @ t3'))"
              using c r h_eq by (auto split: sum.splits)
          qed
        qed
      qed
    qed
  qed
qed

lemma setup_event_not_submitted: "is_setup_event e \<Longrightarrow> \<not> is_password_submitted e"
  by (cases e rule: is_setup_event.cases) simp_all

lemma setup_events_not_submitted: "list_all is_setup_event t \<Longrightarrow> \<not> list_ex is_password_submitted t"
  by (induction t) (auto dest: setup_event_not_submitted)

lemma li_try_trace:
  assumes "tryCatch (li_tryBlock E config page creds) li_catchBlock h = (r1, t1)"
  shows "\<exists>r0. li_tryBlock E config page creds h = (r0, t1) \<and>
              r1 = (case r0 of Inl e \<Rightarrow> Inr \<lparr>success = False,
                                       message = or_else (errorMessage e) ''Unknown error during Linkedin login.''\<rparr>
                    | Inr x \<Rightarrow> Inr x)"
  using assms by (auto elim!: tryCatchE retE simp: li_catchBlock_def)

lemma li_refresh_run:
  assumes run: "LoginToLinkedin E penv h = (r, t)"
    and config: "li_getConfig penv = Inr config"
    and resp: "e_retrieveCredentials E h (li_identityId config) = Inr resp"
    and creds: "parseLinkedinCredentials (ir_credentials resp) = Inr creds"
    and otp: "li_otp creds \<noteq> []"
    and sub: "list_ex is_password_submitted t"
  shows "\<exists>page t1 r2 t2.
           t = t1 @ [password_press page, RetrieveCredentials (li_identityId config) r2] @ t2 \<and>
           \<not> list_ex is_password_submitted t1 \<and>
           (case r2 of
              Inl e \<Rightarrow> (\<exists>rc. t2 = [Act Close rc])
            | Inr resp2 \<Rightarrow>
                (case parseLinkedinCredentials (ir_credentials resp2) of
                   Inl err \<Rightarrow>
                     (\<exists>rc. t2 = [Act Close rc] \<and>
                        r = (case rc of Inl e \<Rightarrow> Inl e
                             | Inr u \<Rightarrow> Inr \<lparr>success = False, message = errorMessage err\<rparr>))
                 | Inr creds2 \<Rightarrow>
                     (\<exists>t3. t2 = snd (submitOtpCode E page (li_otp creds2) 6 (li_timeoutMs config)
                                 (h @ t1 @ [password_press page, RetrieveCredentials (li_identityId config) r2]))
                               @ t3)))"
proof (cases rule: LoginToLinkedin_cases [OF run])
  case 1
  with sub setup_events_not_submitted show ?thesis by blast
next
  case (2 config' creds' pr r1 t1 rc page resp')
  from 2(1) config have c: "config' = config" by simp
  with 2(6,7) resp creds have cr: "creds' = creds" by simp
  from 2(2) have "\<not> list_ex is_password_submitted pr" by (rule setup_events_not_submitted)
  with sub 2(4) have s1: "list_ex is_password_submitted t1" by simp
  from li_try_trace [OF 2(3)] c cr obtain r0 where
    b: "li_tryBlock E config page creds (h @ pr) = (r0, t1)" and
    r1: "r1 = (case r0 of Inl e \<Rightarrow> Inr \<lparr>success = False,
                                       message = or_else (errorMessage e) ''Unknown error during Linkedin login.''\<rparr>
                    | Inr x \<Rightarrow> Inr x)"
    by auto
  from li_tryBlock_refresh [OF b s1 otp] obtain ta r2 t2 where
    t1: "t1 = ta @ [password_press page, RetrieveCredentials (li_identityId config) r2] @ t2" and
    nta: "\<not> list_ex is_password_submitted ta" and
    k: "case r2 of
              Inl e \<Rightarrow> r0 = Inl e \<and> t2 = []
            | Inr resp2 \<Rightarrow>
                (case parseLinkedinCredentials (ir_credentials resp2) of
                   Inl err \<Rightarrow> r0 = Inl err \<and> t2 = []
                 | Inr creds2 \<Rightarrow>
                     (\<exists>t3. t2 = snd (submitOtpCode E page (li_otp creds2) 6 (li_timeoutMs config)
                                 ((h @ pr) @ ta @ [password_press page, RetrieveCredentials (li_identityId config) r2]))
                               @ t3))"
    by blast
  show ?thesis
  proof (rule exI [of _ page], rule exI [of _ "pr @ ta"], rule exI [of _ r2], rule exI [of _ "t2 @ [Act Close rc]"],
      intro conjI)
    show "t = (pr @ ta) @ [password_press page, RetrieveCredentials (li_identityId config) r2] @ t2 @ [Act Close rc]"
      using 2(4) t1 by simp
  next
    from 2(2) have "\<not> list_ex is_password_submitted pr" by (rule setup_events_not_submitted)
    with nta show "\<not> list_ex is_password_submitted (pr @ ta)" by simp
  next
    show "case r2 of
              Inl e \<Rightarrow> (\<exists>rc'. t2 @ [Act Close rc] = [Act Close rc'])
            | Inr resp2 \<Rightarrow>
                (case parseLinkedinCredentials (ir_credentials resp2) of
                   Inl err \<Rightarrow>
                     (\<exists>rc'. t2 @ [Act Close rc] = [Act Close rc'] \<and>
                        r = (case rc' of Inl e \<Rightarrow> Inl e
                             | Inr u \<Rightarrow> Inr \<lparr>success = False, message = errorMessage err\<rparr>))
                 | Inr creds2 \<Rightarrow>
                     (\<exists>t3. t2 @ [Act Close rc] =
                        snd (submitOtpCode E page (li_otp creds2) 6 (li_timeoutMs config)
                               (h @ (pr @ ta) @ [password_press page, RetrieveCredentials (li_identityId config) r2]))
                        @ t3))"
      using k r1 2(5) by (auto split: sum.splits simp: parseLinkedin_message_nonempty)
  qed
qed

lemma run_refresh_loses_password:
  "LoginToLinkedin env_refresh_loses_password penv_ok [] =
     (Inr \<lparr>success = False, message = ''Missing required credentials. Found: username=true, password=false''\<rparr>,
      [RetrieveCredentials ''id-1'' (Inr response_otp),
       Act (Create EmptyConfiguration) (Inr ()), Contexts [0], Pages 0 [0],
       Act (Goto 0 ''https://www.linkedin.com/uas/login'' 10000) (Inr ()),
       Act (WaitForURL 0 feedPattern 10000) (Inl (ErrorObj ''Timeout'')),
       Url 0 ''https://www.linkedin.com/uas/login'',
       Act (WaitForSelector 0 li_usernameField 10000) (Inr ()),
       Act (Fill (Locator 0 li_usernameField) ''u'') (Inr ()),
       Act (Press (Locator 0 li_usernameField) ''Tab'') (Inr ()),
       Act (WaitForSelector 0 li_passwordField 10000) (Inr ()),
       Act (Fill (Locator 0 li_passwordField) ''p'') (Inr ()),
       password_press 0,
       RetrieveCredentials ''id-1'' (Inr response_no_password),
       Act Close (Inr ())])"
  by (simp add: LoginToLinkedin_def li_tryBlock_def li_step_defs monad_defs config_defs parse_defs env_defs
        env_refresh_loses_password_def response_otp_def response_no_password_def password_press_def)

lemma run_two_authenticators:
  "LoginToLinkedin env_two_authenticators penv_ok [] =
     (Inr \<lparr>success = True, message = ''Logged in to Linkedin as u.''\<rparr>,
      [RetrieveCredentials ''id-1'' (Inr response_two_authenticators),
       Act (Create ExtraStealth) (Inr ()), Contexts [0], Pages 0 [0],
       Act (Goto 0 ''https://www.linkedin.com/uas/login'' 10000) (Inr ()),
       Act (WaitForURL 0 feedPattern 10000) (Inl (ErrorObj ''Timeout'')),
       Url 0 ''https://www.linkedin.com/uas/login'',
       Act (WaitForSelector 0 li_usernameField 10000) (Inr ()),
       Act (Fill (Locator 0 li_usernameField) ''u'') (Inr ()),
       Act (Press (Locator 0 li_usernameField) ''Tab'') (Inr ()),
       Act (WaitForSelector 0 li_passwordField 10000) (Inr ()),
       Act (Fill (Locator 0 li_passwordField) ''p'') (Inr ()),
       Act (Press (Locator 0 li_passwordField) ''Enter'') (Inr ()),
       Act (WaitForURL 0 feedPattern 10000) (Inr ()),
       Act Close (Inr ())])"
  by (simp add: LoginToLinkedin_def li_tryBlock_def li_step_defs monad_defs config_defs parse_defs env_defs
        env_two_authenticators_def response_two_authenticators_def)

lemma run_refresh_new_code:
  "LoginToLinkedin env_refresh_new_code penv_ok [] =
     (Inr \<lparr>success = True, message = ''Logged in to Linkedin as u.''\<rparr>,
      [RetrieveCredentials ''id-1'' (Inr response_otp),
       Act (Create EmptyConfiguration) (Inr ()), Contexts [0], Pages 0 [0],
       Act (Goto 0 ''https://www.linkedin.com/uas/login'' 10000) (Inr ()),
       Act (WaitForURL 0 feedPattern 10000) (Inl (ErrorObj ''Timeout'')),
       Url 0 ''https://www.linkedin.com/uas/login'',
       Act (WaitForSelector 0 li_usernameField 10000) (Inr ()),
       Act (Fill (Locator 0 li_usernameField) ''u'') (Inr ()),
       Act (Press (Locator 0 li_usernameField) ''Tab'') (Inr ()),
       Act (WaitForSelector 0 li_passwordField 10000) (Inr ()),
       Act (Fill (Locator 0 li_passwordField) ''p'') (Inr ()),
       password_press 0,
       RetrieveCredentials ''id-1'' (Inr response_otp_new)] @
      map (\<lambda>sel. IsVisibleIssued (First (Locator 0 sel)) None) singleSelectors @
      map (\<lambda>sel. IsVisibleSettled (First (Locator 0 sel)) None (Inr (sel = singleSelectors ! 1))) singleSelectors @
      [Act (Fill (First (Locator 0 (singleSelectors ! 1))) []) (Inr ()),
       Act (Fill (First (Locator 0 (singleSelectors ! 1))) ''654321'') (Inr ()),
       Act (WaitForNavigation 0 45000) (Inr ()),
       Act (Press (First (Locator 0 (singleSelectors ! 1))) ''Enter'') (Inr ()),
       Act (WaitForURL 0 feedPattern 10000) (Inr ()),
       Act (WaitForURL 0 feedPattern 10000) (Inr ()),
       Act Close (Inr ())])"
  by (simp add: LoginToLinkedin_def li_tryBlock_def li_step_defs monad_defs config_defs parse_defs
        env_refresh_new_code_def env_quiet_def response_otp_def response_otp_new_def penv_ok_def probe_defs
        singleSelectors_def li_passwordField_def li_usernameField_def password_press_def)

lemma li_refresh_enters:
  assumes run: "LoginToLinkedin E penv h = (r, t)"
    and config: "li_getConfig penv = Inr config"
    and resp: "e_retrieveCredentials E h (li_identityId config) = Inr resp"
    and creds: "parseLinkedinCredentials (ir_credentials resp) = Inr creds"
    and otp: "li_otp creds \<noteq> []"
    and sub: "list_ex is_password_submitted t"
  shows "\<exists>page t1 r2 t2.
           t = t1 @ [password_press page, RetrieveCredentials (li_identityId config) r2] @ t2 \<and>
           \<not> list_ex is_password_submitted t1 \<and>
           (case r2 of
              Inl e \<Rightarrow> (\<exists>rc. t2 = [Act Close rc])
            | Inr resp2 \<Rightarrow>
                (case parseLinkedinCredentials (ir_credentials resp2) of
                   Inl err \<Rightarrow>
                     (\<exists>rc. t2 = [Act Close rc] \<and>
                        r = (case rc of Inl e \<Rightarrow> Inl e
                             | Inr u \<Rightarrow> Inr \<lparr>success = False, message = errorMessage err\<rparr>))
                 | Inr creds2 \<Rightarrow>
                     (\<exists>t3. t2 = snd (submitOtpCode E page (li_otp creds2) 6 (li_timeoutMs config)
                                 (h @ t1 @ [password_press page, RetrieveCredentials (li_identityId config) r2]))
                               @ t3) \<and>
                     (fst (submitOtpCode E page (li_otp creds2) 6 (li_timeoutMs config)
                            (h @ t1 @ [password_press page, RetrieveCredentials (li_identityId config) r2])) = Inr ()
                      \<longrightarrow> enters_code page (li_otp creds2) t2)))"
proof -
  from li_refresh_run [OF assms] obtain page t1 r2 t2 where
    t: "t = t1 @ [password_press page, RetrieveCredentials (li_identityId config) r2] @ t2" and
    n1: "\<not> list_ex is_password_submitted t1" and
    k: "case r2 of
              Inl e \<Rightarrow> (\<exists>rc. t2 = [Act Close rc])
            | Inr resp2 \<Rightarrow>
                (case parseLinkedinCredentials (ir_credentials resp2) of
                   Inl err \<Rightarrow>
                     (\<exists>rc. t2 = [Act Close rc] \<and>
                        r = (case rc of Inl e \<Rightarrow> Inl e
                             | Inr u \<Rightarrow> Inr \<lparr>success = False, message = errorMessage err\<rparr>))
                 | Inr creds2 \<Rightarrow>
                     (\<exists>t3. t2 = snd (submitOtpCode E page (li_otp creds2) 6 (li_timeoutMs config)
                                 (h @ t1 @ [password_press page, RetrieveCredentials (li_identityId config) r2]))
                               @ t3))"
    by blast
  show ?thesis
  proof (rule exI [of _ page], rule exI [of _ t1], rule exI [of _ r2], rule exI [of _ t2], intro conjI)
    show "t = t1 @ [password_press page, RetrieveCredentials (li_identityId config) r2] @ t2" by (rule t)
  next
    show "\<not> list_ex is_password_submitted t1" by (rule n1)
  next
    show "case r2 of
              Inl e \<Rightarrow> (\<exists>rc. t2 = [Act Close rc])
            | Inr resp2 \<Rightarrow>
                (case parseLinkedinCredentials (ir_credentials resp2) of
                   Inl err \<Rightarrow>
                     (\<exists>rc. t2 = [Act Close rc] \<and>
                        r = (case rc of Inl e \<Rightarrow> Inl e
                             | Inr u \<Rightarrow> Inr \<lparr>success = False, message = errorMessage err\<rparr>))
                 | Inr creds2 \<Rightarrow>
                     (\<exists>t3. t2 = snd (submitOtpCode E page (li_otp creds2) 6 (li_timeoutMs config)
                                 (h @ t1 @ [password_press page, RetrieveCredentials (li_identityId config) r2]))
                               @ t3) \<and>
                     (fst (submitOtpCode E page (li_otp creds2) 6 (li_timeoutMs config)
                            (h @ t1 @ [password_press page, RetrieveCredentials (li_identityId config) r2])) = Inr ()
                      \<longrightarrow> enters_code page (li_otp creds2) t2))"
      using k by (auto split: sum.splits intro!: enters_code_append submitOtpCode_enters)
  qed
qed

lemma split_at_first:
  assumes "a @ x # b = a' @ x' # b'" and "P x" and "P x'"
    and "\<not> list_ex P a" and "\<not> list_ex P a'"
  shows "a = a' \<and> x = x' \<and> b = b'"
  using assms
proof (induction a arbitrary: a')
  case Nil
  then show ?case by (cases a') auto
next
  case (Cons y a)
  then show ?case by (cases a') auto
qed

lemma refresh_examples:
  "accepts env_refresh_new_code" "steady_visibility env_refresh_new_code"
  "first_visible env_refresh_new_code 0 singleSelectors h 1"
proof -
  show "accepts env_refresh_new_code"
    by (simp add: accepts_def env_refresh_new_code_def env_quiet_def)
  show s: "steady_visibility env_refresh_new_code"
    by (simp add: steady_visibility_def env_refresh_new_code_def env_quiet_def)
  show "first_visible env_refresh_new_code 0 singleSelectors h 1"
    using steady_first_visible [OF s distinct_selectors(1), where page = 0 and h = h and i = 1]
    by (simp add: env_refresh_new_code_def env_quiet_def singleSelectors_def)
qed



section \<open>The claims\<close>

text \<open>
  Claim C3, as stated: the browser is closed exactly once on every exit path after a
  session was acquired, also when the context or the page cannot be obtained. In both flows the two early returns that follow the acquisition of the
  session stand before the \<^verbatim>\<open>try ... finally\<close>: there the session is acquired and never
  closed.
\<close>

theorem close_skipped_without_context:
  "list_ex is_session_acquired (snd (LoginToLinkedin env_no_context penv_ok [])) \<and>
   fst (LoginToLinkedin env_no_context penv_ok []) =
     Inr \<lparr>success = False, message = ''Failed to get browser context''\<rparr> \<and>
   length (filter is_close (snd (LoginToLinkedin env_no_context penv_ok []))) \<noteq> 1"
  by (simp add: run_no_context)

text \<open>
  Claim C3, amended: in the LinkedIn flow and in the Mesh flow, for every behaviour of
  the collaborators, the browser is closed exactly once when a page was obtained from
  the session (whatever happens afterwards: success, classified failure or an exception
  of any step), and it is not closed at all otherwise.
\<close>

theorem browser_closed_once_iff_page_obtained:
  "length (filter is_close (snd (LoginToLinkedin E penv h))) =
     (if list_ex is_page_obtained (snd (LoginToLinkedin E penv h)) then 1 else 0) \<and>
   length (filter is_close (snd (LoginToComplyAdvantageMesh E penv h))) =
     (if list_ex is_page_obtained (snd (LoginToComplyAdvantageMesh E penv h)) then 1 else 0)"
  using li_closed_once_run [of E penv h] ca_closed_once_run [of E penv h]
  by (metis surjective_pairing)

theorem browser_closed_once_witness:
  "list_ex is_page_obtained (snd (LoginToLinkedin env_A penv_ok [])) \<and>
   length (filter is_close (snd (LoginToLinkedin env_A penv_ok []))) = 1 \<and>
   list_ex is_page_obtained (snd (LoginToComplyAdvantageMesh env_mesh penv_ok [])) \<and>
   length (filter is_close (snd (LoginToComplyAdvantageMesh env_mesh penv_ok []))) = 1"
proof -
  have a: "list_ex is_page_obtained (snd (LoginToLinkedin env_A penv_ok []))"
    by (simp add: run_A)
  have b: "list_ex is_page_obtained (snd (LoginToComplyAdvantageMesh env_mesh penv_ok []))"
    by (simp add: run_mesh)
  from a b browser_closed_once_iff_page_obtained [of env_A penv_ok "[]"]
    browser_closed_once_iff_page_obtained [of env_mesh penv_ok "[]"]
  show ?thesis by simp
qed




text \<open>
  Claim C1: every entry point returns a structured result and never throws, whatever the
  configuration and the collaborators do. \<^verbatim>\<open>loginWithAgent\<close> does so, and
  \<^verbatim>\<open>LoginToComplyAdvantageMesh\<close> does so for its configuration and its credentials. In
  \<^verbatim>\<open>LoginToLinkedin\<close> the configuration, the retrieval and extraction of the credentials
  and the acquisition of the session stand outside any \<^verbatim>\<open>try\<close>; in the Mesh flow the
  acquisition of the session does; and in both the \<^verbatim>\<open>finally\<close> block awaits
  \<^verbatim>\<open>browser.close()\<close> unguarded. The runs below end with an exception: without
  \<^verbatim>\<open>ANCHOR_IDENTITY_ID\<close>, with a credential provider that rejects, with a bundle without
  password, with a provisioner that rejects (both flows), and with a close that rejects.
\<close>

theorem setup_errors_escape_the_flows:
  "LoginToLinkedin env_quiet penv_no_identity [] = (Inl (zodError [''Required'']), []) \<and>
   fst (LoginToLinkedin env_fetch_fails penv_ok []) = Inl (ErrorObj ''404 identity not found'') \<and>
   fst (LoginToLinkedin env_no_password penv_ok []) =
     Inl (ErrorObj ''Missing required credentials. Found: username=true, password=false'') \<and>
   fst (LoginToLinkedin env_create_fails penv_ok []) = Inl (ErrorObj ''503 no capacity'') \<and>
   fst (LoginToComplyAdvantageMesh env_create_fails penv_ok []) = Inl (ErrorObj ''503 no capacity'') \<and>
   fst (LoginToLinkedin env_close_fails penv_ok []) = Inl (ErrorObj ''socket hang up'')"
  using li_flow_extraction_failure [of penv_ok _ env_no_password "[]" response_no_password
      "ErrorObj ''Missing required credentials. Found: username=true, password=false''"]
  by (simp add: run_no_identity run_fetch_fails run_create_fails run_mesh_create_fails run_close_fails
        penv_ok_li_config env_no_password_def response_no_password_def parse_defs)

text \<open>
  Claim C9: in \<^verbatim>\<open>locateOtpInputs\<close> and \<^verbatim>\<open>clickCommonSubmit\<close> the candidates are probed
  concurrently: the first events of the step are the \<^verbatim>\<open>isVisible\<close> calls of all
  candidates, in the order of the list, before any of them settles; the next events are
  their settlings, in the order of the completion times. The chosen candidate is the
  first of the list, in its declared order, whose probe settled as visible, whichever
  probe settled first. When the visibility of the candidates does not change, the
  choice is the same under every timing of the probes.
\<close>

theorem first_visible_candidate_is_chosen:
  "(fst (locateOtpInputs E page h) = Inr (Some (Single loc)) \<longleftrightarrow>
      (\<exists>i. first_visible_in (snd (locateOtpInputs E page h)) page singleSelectors i \<and>
           loc = First (Locator page (singleSelectors ! i)))) \<and>
   (list_ex (is_click_on loc) (snd (clickCommonSubmit E page h)) \<longleftrightarrow>
      (\<exists>i. first_visible_in (snd (clickCommonSubmit E page h)) page submitSelectors i \<and>
           loc = First (Locator page (submitSelectors ! i)))) \<and>
   take (length singleSelectors) (snd (locateOtpInputs E page h)) =
     map (\<lambda>sel. IsVisibleIssued (First (Locator page sel)) None) singleSelectors \<and>
   take (length submitSelectors) (snd (clickCommonSubmit E page h)) =
     map (\<lambda>sel. IsVisibleIssued (First (Locator page sel)) None) submitSelectors \<and>
   map settled_locator
     (take (length singleSelectors) (drop (length singleSelectors) (snd (locateOtpInputs E page h)))) =
     map (\<lambda>k. Some (First (Locator page (singleSelectors ! k))))
       (sort_key (\<lambda>k. e_latency E (h @ take (Suc k) (snd (locateOtpInputs E page h))))
          [0..<length singleSelectors]) \<and>
   map settled_locator
     (take (length submitSelectors) (drop (length submitSelectors) (snd (clickCommonSubmit E page h)))) =
     map (\<lambda>k. Some (First (Locator page (submitSelectors ! k))))
       (sort_key (\<lambda>k. e_latency E (h @ take (Suc k) (snd (clickCommonSubmit E page h))))
          [0..<length submitSelectors]) \<and>
   (steady_visibility E \<longrightarrow>
      (fst (locateOtpInputs (E\<lparr>e_latency := l\<rparr>) page h) = Inr (Some (Single loc))) =
        (fst (locateOtpInputs E page h) = Inr (Some (Single loc))) \<and>
      list_ex (is_click_on loc) (snd (clickCommonSubmit (E\<lparr>e_latency := l\<rparr>) page h)) =
        list_ex (is_click_on loc) (snd (clickCommonSubmit E page h)))"
  by (intro conjI impI locateOtpInputs_chosen clickCommonSubmit_chosen locateOtpInputs_issued
        clickCommonSubmit_issued locateOtpInputs_settled clickCommonSubmit_settled choice_steady)

theorem first_visible_candidate_witness:
  "steady_visibility env_two_visible \<and>
   locateOtpInputs env_two_visible 0 [] =
     (Inr (Some (Single (First (Locator 0 (singleSelectors ! 2))))),
      map (\<lambda>sel. IsVisibleIssued (First (Locator 0 sel)) None) singleSelectors @
      [IsVisibleSettled (First (Locator 0 (singleSelectors ! 4))) None (Inr True),
       IsVisibleSettled (First (Locator 0 (singleSelectors ! 3))) None (Inr False),
       IsVisibleSettled (First (Locator 0 (singleSelectors ! 2))) None (Inr True),
       IsVisibleSettled (First (Locator 0 (singleSelectors ! 1))) None (Inr False),
       IsVisibleSettled (First (Locator 0 (singleSelectors ! 0))) None (Inr False)]) \<and>
   first_visible_in (snd (locateOtpInputs env_two_visible 0 [])) 0 singleSelectors 2 \<and>
   fst (locateOtpInputs (env_two_visible\<lparr>e_latency := (\<lambda>h. 0)\<rparr>) 0 []) =
     Inr (Some (Single (First (Locator 0 (singleSelectors ! 2))))) \<and>
   list_ex (is_click_on (First (Locator 0 (submitSelectors ! 1))))
     (snd (clickCommonSubmit (env_two_visible\<lparr>e_latency := (\<lambda>h. 0)\<rparr>) 0 []))"
proof -
  let ?l2 = "First (Locator 0 (singleSelectors ! 2))"
  let ?s1 = "First (Locator 0 (submitSelectors ! 1))"
  have f: "fst (locateOtpInputs env_two_visible 0 []) = Inr (Some (Single ?l2))"
    by (simp add: run_two_visible)
  have c: "list_ex (is_click_on ?s1) (snd (clickCommonSubmit env_two_visible 0 []))"
    by (simp add: run_two_visible_submit)
  have v: "first_visible_in (snd (locateOtpInputs env_two_visible 0 [])) 0 singleSelectors 2"
    using two_visible_single(1) [of "[]"] by (simp add: locateOtpInputs_first_visible_in)
  from first_visible_candidate_is_chosen [where E = env_two_visible and page = 0 and h = "[]" and loc = ?l2
      and l = "\<lambda>h. 0", THEN conjunct2,
      THEN conjunct2, THEN conjunct2, THEN conjunct2, THEN conjunct2, THEN conjunct2] steady_examples(2) f
  have a: "fst (locateOtpInputs (env_two_visible\<lparr>e_latency := (\<lambda>h. 0)\<rparr>) 0 []) = Inr (Some (Single ?l2))"
    by simp
  from first_visible_candidate_is_chosen [where E = env_two_visible and page = 0 and h = "[]" and loc = ?s1
      and l = "\<lambda>h. 0", THEN conjunct2,
      THEN conjunct2, THEN conjunct2, THEN conjunct2, THEN conjunct2, THEN conjunct2] steady_examples(2) c
  have b: "list_ex (is_click_on ?s1) (snd (clickCommonSubmit (env_two_visible\<lparr>e_latency := (\<lambda>h. 0)\<rparr>) 0 []))"
    by simp
  from a b v steady_examples(2) run_two_visible show ?thesis by simp
qed

text \<open>
  Claim C8, as stated: the terminal verification waits at least about 60 seconds. Every
  call of \<^verbatim>\<open>verifyLogin\<close> in the LinkedIn flow passes \<^verbatim>\<open>fallbackTimeout: 10000\<close>, so with
  the default configuration the terminal wait of a successful attempt is 10 seconds.
\<close>

theorem linkedin_terminal_wait_is_ten_seconds:
  "fst (LoginToLinkedin env_A penv_ok []) = Inr \<lparr>success = True, message = ''Logged in to Linkedin as u.''\<rparr> \<and>
   last (filter is_verification (snd (LoginToLinkedin env_A penv_ok []))) =
     Act (WaitForURL 0 feedPattern 10000) (Inr ()) \<and>
   \<not> (60000 \<le> (10000 :: int))"
  by (simp add: run_A)

text \<open>
  Claim C8, amended: \<^verbatim>\<open>verifyLogin\<close> waits for the feed URL for the maximum of the
  configured timeout and its \<^verbatim>\<open>fallbackTimeout\<close> (60000 by default) and, on a timeout,
  reads the current URL exactly once and tests it for the same address; every wait for
  a URL of the LinkedIn flow lasts the maximum of the configured timeout and 10000,
  the value that each call site passes. \<^verbatim>\<open>verifyMeshLogin\<close> does the same with the
  maximum of the configured timeout and 60000, which is at least 60000.
\<close>

theorem verification_waits:
  "(li_getConfig penv = Inr lconfig \<longrightarrow>
      list_all (\<lambda>e. url_wait_timeout e \<in> {None, Some (max (li_timeoutMs lconfig) 10000)})
        (snd (LoginToLinkedin E penv h))) \<and>
   verifyLogin E page step timeoutMs fallbackTimeout =
     wait_then_recheck E page feedPattern
       (max timeoutMs (case fallbackTimeout of None \<Rightarrow> 60000 | Some f \<Rightarrow> f)) ''linkedin.com/feed/'' \<and>
   (ca_getConfig penv = Inr cconfig \<longrightarrow>
      verifyMeshLogin E penv page =
        wait_then_recheck E page meshPattern (max (ca_timeoutMs cconfig) 60000) ''mesh.complyadvantage.com/'' \<and>
      60000 \<le> max (ca_timeoutMs cconfig) 60000)"
proof (intro conjI impI)
  assume "li_getConfig penv = Inr lconfig"
  then show "list_all (\<lambda>e. url_wait_timeout e \<in> {None, Some (max (li_timeoutMs lconfig) 10000)})
        (snd (LoginToLinkedin E penv h))"
    using li_wait_timeouts_run [of E penv h "fst (LoginToLinkedin E penv h)" "snd (LoginToLinkedin E penv h)" lconfig]
    by simp
next
  show "verifyLogin E page step timeoutMs fallbackTimeout =
     wait_then_recheck E page feedPattern
       (max timeoutMs (case fallbackTimeout of None \<Rightarrow> 60000 | Some f \<Rightarrow> f)) ''linkedin.com/feed/''"
    by (rule ext) (simp add: verifyLogin_run wait_then_recheck_def)
next
  assume "ca_getConfig penv = Inr cconfig"
  then show "verifyMeshLogin E penv page =
        wait_then_recheck E page meshPattern (max (ca_timeoutMs cconfig) 60000) ''mesh.complyadvantage.com/''"
    by (intro ext) (simp add: verifyMeshLogin_run wait_then_recheck_def)
next
  show "60000 \<le> max (ca_timeoutMs cconfig) 60000" by simp
qed

theorem verification_waits_witness:
  "list_all (\<lambda>e. url_wait_timeout e \<in> {None, Some 10000}) (snd (LoginToLinkedin env_A penv_ok [])) \<and>
   verifyMeshLogin env_mesh penv_ok 0 [] = (Inr True, [Act (WaitForURL 0 meshPattern 60000) (Inr ())]) \<and>
   verifyLogin env_A 0 2 10000 (Some 10000) [] =
     (Inr False, [Act (WaitForURL 0 feedPattern 10000) (Inl (ErrorObj ''Timeout'')),
                  Url 0 ''https://www.linkedin.com/uas/login''])"
proof -
  let ?lc = "\<lparr>li_sessionId = [], li_identityId = ''id-1'', li_timeoutMs = 10000,
          li_homeUrl = ''https://www.linkedin.com/uas/login''\<rparr>"
  let ?cc = "\<lparr>ca_sessionId = [], ca_apiKey = ''key'', ca_identityId = ''id-1'', ca_timeoutMs = 10000,
          ca_homeUrl = ''https://complyadvantage.com/'', ca_meshUrl = ''https://mesh.complyadvantage.com/''\<rparr>"
  have a: "list_all (\<lambda>e. url_wait_timeout e \<in> {None, Some 10000}) (snd (LoginToLinkedin env_A penv_ok []))"
    using verification_waits [of penv_ok ?lc env_A "[]"] by (simp add: penv_ok_li_config)
  have "verifyMeshLogin env_mesh penv_ok 0 =
      wait_then_recheck env_mesh 0 meshPattern 60000 ''mesh.complyadvantage.com/''"
    using verification_waits [of penv_ok _ env_mesh _ 0 _ _ _ ?cc] by (simp add: penv_ok_ca_config)
  then have b: "verifyMeshLogin env_mesh penv_ok 0 [] = (Inr True, [Act (WaitForURL 0 meshPattern 60000) (Inr ())])"
    by (simp add: wait_then_recheck_def env_mesh_def env_quiet_def)
  have "verifyLogin env_A 0 2 10000 (Some 10000) =
      wait_then_recheck env_A 0 feedPattern 10000 ''linkedin.com/feed/''"
    using verification_waits [of _ _ env_A _ 0 2 10000 "Some 10000"] by simp
  then have c: "verifyLogin env_A 0 2 10000 (Some 10000) [] =
     (Inr False, [Act (WaitForURL 0 feedPattern 10000) (Inl (ErrorObj ''Timeout'')),
                  Url 0 ''https://www.linkedin.com/uas/login''])"
    by (simp add: wait_then_recheck_def env_A_def env_quiet_def act_after_password_def)
  from a b c show ?thesis by simp
qed




text \<open>
  Claim C6, as stated: when the authenticated area is already shown before the login,
  the flow goes directly to Success without touching the username or password field.
  The Mesh flow has no pre-login check: on a page that shows the Mesh application at
  every read of its URL it still submits the password. In the LinkedIn flow the
  \<^verbatim>\<open>return\<close> of the short-circuit stands inside the \<^verbatim>\<open>try\<close> whose \<^verbatim>\<open>finally\<close> awaits
  \<^verbatim>\<open>browser.close()\<close>; when that rejects, the rejection replaces the result.
\<close>

theorem short_circuit_absent_or_lost:
  "js_includes ''https://mesh.complyadvantage.com/cases'' ''mesh.complyadvantage.com/'' \<and>
   filter is_url_read (snd (LoginToComplyAdvantageMesh env_mesh_signed_in penv_ok [])) =
     [Url 0 ''https://mesh.complyadvantage.com/cases'',
      Url 0 ''https://mesh.complyadvantage.com/cases'',
      Url 0 ''https://mesh.complyadvantage.com/cases''] \<and>
   list_ex is_mesh_password_submitted (snd (LoginToComplyAdvantageMesh env_mesh_signed_in penv_ok [])) \<and>
   precheck_matched (snd (LoginToLinkedin env_close_fails penv_ok [])) \<and>
   fst (LoginToLinkedin env_close_fails penv_ok []) = Inl (ErrorObj ''socket hang up'')"
  by (simp add: run_close_fails run_mesh_signed_in precheck_matched_def)

text \<open>
  Claim C6, amended: in the LinkedIn flow, when the pre-login check matches, no event
  of the attempt waits for, fills or presses a key on the username or password field,
  and the flow returns Success (``Already authenticated. Landed on /feed.'') when the
  closing of the browser completes. The Mesh flow has no pre-login check: each of its
  Success results follows a completed Enter key-press on its password field.
\<close>

theorem precheck_short_circuit:
  "(precheck_matched (snd (LoginToLinkedin E penv h)) \<longrightarrow>
      filter touches_credential_field (snd (LoginToLinkedin E penv h)) = [] \<and>
      (last (snd (LoginToLinkedin E penv h)) = Act Close (Inr ()) \<longrightarrow>
         fst (LoginToLinkedin E penv h) = Inr already_authenticated)) \<and>
   (fst (LoginToComplyAdvantageMesh E penv h) = Inr r \<and> success r \<longrightarrow>
      list_ex is_mesh_password_submitted (snd (LoginToComplyAdvantageMesh E penv h)))"
proof (intro conjI impI)
  assume "precheck_matched (snd (LoginToLinkedin E penv h))"
  then show "filter touches_credential_field (snd (LoginToLinkedin E penv h)) = []"
    using li_precheck_run [of E penv h "fst (LoginToLinkedin E penv h)" "snd (LoginToLinkedin E penv h)"]
    by simp
next
  assume "precheck_matched (snd (LoginToLinkedin E penv h))"
    and "last (snd (LoginToLinkedin E penv h)) = Act Close (Inr ())"
  then show "fst (LoginToLinkedin E penv h) = Inr already_authenticated"
    using li_precheck_run [of E penv h "fst (LoginToLinkedin E penv h)" "snd (LoginToLinkedin E penv h)"]
    by auto
next
  assume "fst (LoginToComplyAdvantageMesh E penv h) = Inr r \<and> success r"
  then show "list_ex is_mesh_password_submitted (snd (LoginToComplyAdvantageMesh E penv h))"
    using ca_success_run [of E penv h r "snd (LoginToComplyAdvantageMesh E penv h)"]
    by (metis prod.collapse)
qed

theorem precheck_short_circuit_witness:
  "precheck_matched (snd (LoginToLinkedin env_quiet penv_ok [])) \<and>
   last (snd (LoginToLinkedin env_quiet penv_ok [])) = Act Close (Inr ()) \<and>
   filter touches_credential_field (snd (LoginToLinkedin env_quiet penv_ok [])) = [] \<and>
   fst (LoginToLinkedin env_quiet penv_ok []) =
     Inr \<lparr>success = True, message = ''Already authenticated. Landed on /feed.''\<rparr> \<and>
   fst (LoginToComplyAdvantageMesh env_mesh_signed_in penv_ok []) =
     Inr \<lparr>success = True, message = ''Logged in to ComplyAdvantage Mesh as u (org: acme).''\<rparr> \<and>
   list_ex is_mesh_password_submitted (snd (LoginToComplyAdvantageMesh env_mesh_signed_in penv_ok []))"
proof -
  let ?ok = "\<lparr>success = True, message = ''Logged in to ComplyAdvantage Mesh as u (org: acme).''\<rparr>"
  have p: "precheck_matched (snd (LoginToLinkedin env_quiet penv_ok []))"
    by (simp add: run_quiet precheck_matched_def)
  have l: "last (snd (LoginToLinkedin env_quiet penv_ok [])) = Act Close (Inr ())"
    by (simp add: run_quiet)
  have m: "fst (LoginToComplyAdvantageMesh env_mesh_signed_in penv_ok []) = Inr ?ok \<and> success ?ok"
    by (simp add: run_mesh_signed_in)
  from p l m precheck_short_circuit [of env_quiet penv_ok "[]"]
    precheck_short_circuit [of env_mesh_signed_in penv_ok "[]" ?ok]
  show ?thesis by (simp add: already_authenticated_def)
qed

text \<open>
  Claim C2: in every attempt of the LinkedIn flow the Enter key-press on the password
  field happens at most once and the Enter key-press on a one-time-code field at most
  once; the only other submit action is at most one click, after the key-press on the
  code field, on the first match of a generic submit selector, which is none of the
  selectors of the password and code fields. The submit actions of an attempt are, in
  order, one of: none; the password key-press; the password and the code key-press;
  these two and the generic click.
\<close>

theorem at_most_one_submit_of_each_kind:
  "submits (snd (LoginToLinkedin E penv h)) \<in>
     {[], [PasswordKey], [PasswordKey, OtpKey], [PasswordKey, OtpKey, GenericClick]} \<and>
   count_list (submits (snd (LoginToLinkedin E penv h))) PasswordKey \<le> 1 \<and>
   count_list (submits (snd (LoginToLinkedin E penv h))) OtpKey \<le> 1 \<and>
   count_list (submits (snd (LoginToLinkedin E penv h))) GenericClick \<le> 1 \<and>
   count_list (submits (snd (LoginToLinkedin E penv h))) OtherSubmit = 0 \<and>
   set submitSelectors \<inter> set (li_passwordField # digitInputsSelector # singleSelectors) = {}"
proof -
  have m: "submits (snd (LoginToLinkedin E penv h)) \<in>
     {[], [PasswordKey], [PasswordKey, OtpKey], [PasswordKey, OtpKey, GenericClick]}"
    using li_submits_run [of E penv h "fst (LoginToLinkedin E penv h)" "snd (LoginToLinkedin E penv h)"]
    by simp
  have d: "set submitSelectors \<inter> set (li_passwordField # digitInputsSelector # singleSelectors) = {}"
    by (simp add: submitSelectors_def li_passwordField_def digitInputsSelector_def singleSelectors_def)
  from m d show ?thesis by auto
qed

theorem at_most_one_submit_witness:
  "submits (snd (LoginToLinkedin env_otp_fallback penv_ok [])) = [PasswordKey, OtpKey, GenericClick] \<and>
   count_list (submits (snd (LoginToLinkedin env_otp_fallback penv_ok []))) PasswordKey = 1 \<and>
   count_list (submits (snd (LoginToLinkedin env_otp_fallback penv_ok []))) OtpKey = 1 \<and>
   count_list (submits (snd (LoginToLinkedin env_otp_fallback penv_ok []))) GenericClick = 1"
  using at_most_one_submit_of_each_kind [of env_otp_fallback penv_ok "[]"]
  by (simp add: run_otp_fallback_submits)




text \<open>
  Claim C10, as stated: when the initial bundle contains an OTP record, the bundle is
  retrieved a second time after the password submit. The flow tests the code that it
  extracted, and a later authenticator record without a code resets it: with the bundle
  below, which contains an OTP record with the code 123456, the password is submitted
  and the bundle is retrieved once only.
\<close>

theorem no_refresh_when_extracted_code_is_empty:
  "Authenticator (Some ''123456'') \<in> set (ir_credentials response_two_authenticators) \<and>
   LoginToLinkedin env_two_authenticators penv_ok [] =
     (Inr \<lparr>success = True, message = ''Logged in to Linkedin as u.''\<rparr>,
      [RetrieveCredentials ''id-1'' (Inr response_two_authenticators),
       Act (Create ExtraStealth) (Inr ()), Contexts [0], Pages 0 [0],
       Act (Goto 0 ''https://www.linkedin.com/uas/login'' 10000) (Inr ()),
       Act (WaitForURL 0 feedPattern 10000) (Inl (ErrorObj ''Timeout'')),
       Url 0 ''https://www.linkedin.com/uas/login'',
       Act (WaitForSelector 0 li_usernameField 10000) (Inr ()),
       Act (Fill (Locator 0 li_usernameField) ''u'') (Inr ()),
       Act (Press (Locator 0 li_usernameField) ''Tab'') (Inr ()),
       Act (WaitForSelector 0 li_passwordField 10000) (Inr ()),
       Act (Fill (Locator 0 li_passwordField) ''p'') (Inr ()),
       Act (Press (Locator 0 li_passwordField) ''Enter'') (Inr ()),
       Act (WaitForURL 0 feedPattern 10000) (Inr ()),
       Act Close (Inr ())])"
  by (simp add: run_two_authenticators response_two_authenticators_def)

text \<open>
  Claim C10, amended: in the LinkedIn flow, when the credentials extracted from the
  first bundle carry a non-empty one-time code and the password has been submitted, the
  call that follows the password submit is a second retrieval of the bundle of the
  same identity; the whole bundle is extracted again and the one-time-code step runs
  with the code of the refreshed bundle: when that step completes, the calls that
  follow the retrieval begin with the single-field or the multi-field tactic for the
  refreshed code. When the refreshed bundle lacks a username or a password, the second
  extraction throws in the middle of the attempt: nothing but the closing of the
  browser follows, and the flow ends with the failure result that carries the
  extraction error.
\<close>

theorem otp_refreshed_after_password_submit:
  "li_getConfig penv = Inr config \<and>
   e_retrieveCredentials E h (li_identityId config) = Inr resp \<and>
   parseLinkedinCredentials (ir_credentials resp) = Inr creds \<and>
   li_otp creds \<noteq> [] \<and>
   list_ex is_password_submitted (snd (LoginToLinkedin E penv h)) \<longrightarrow>
     (\<exists>page t1 r2 t2.
        snd (LoginToLinkedin E penv h) =
          t1 @ [password_press page, RetrieveCredentials (li_identityId config) r2] @ t2 \<and>
        \<not> list_ex is_password_submitted t1 \<and>
        (case r2 of
           Inl e \<Rightarrow> (\<exists>rc. t2 = [Act Close rc])
         | Inr resp2 \<Rightarrow>
             (case parseLinkedinCredentials (ir_credentials resp2) of
                Inl err \<Rightarrow>
                  (\<exists>rc. t2 = [Act Close rc] \<and>
                     fst (LoginToLinkedin E penv h) =
                       (case rc of Inl e \<Rightarrow> Inl e
                        | Inr u \<Rightarrow> Inr \<lparr>success = False, message = errorMessage err\<rparr>))
              | Inr creds2 \<Rightarrow>
                  (\<exists>t3. t2 = snd (submitOtpCode E page (li_otp creds2) 6 (li_timeoutMs config)
                              (h @ t1 @ [password_press page, RetrieveCredentials (li_identityId config) r2]))
                            @ t3) \<and>
                  (fst (submitOtpCode E page (li_otp creds2) 6 (li_timeoutMs config)
                         (h @ t1 @ [password_press page, RetrieveCredentials (li_identityId config) r2])) = Inr ()
                   \<longrightarrow> enters_code page (li_otp creds2) t2))))"
  using li_refresh_enters [of E penv h "fst (LoginToLinkedin E penv h)" "snd (LoginToLinkedin E penv h)"
      config resp creds]
  by simp

theorem otp_refreshed_witness:
  "parseLinkedinCredentials (ir_credentials response_otp) =
     Inr \<lparr>li_username = ''u'', li_password = ''p'', li_otp = ''123456''\<rparr> \<and>
   parseLinkedinCredentials (ir_credentials response_otp_new) =
     Inr \<lparr>li_username = ''u'', li_password = ''p'', li_otp = ''654321''\<rparr> \<and>
   LoginToLinkedin env_refresh_new_code penv_ok [] =
     (Inr \<lparr>success = True, message = ''Logged in to Linkedin as u.''\<rparr>,
      [RetrieveCredentials ''id-1'' (Inr response_otp),
       Act (Create EmptyConfiguration) (Inr ()), Contexts [0], Pages 0 [0],
       Act (Goto 0 ''https://www.linkedin.com/uas/login'' 10000) (Inr ()),
       Act (WaitForURL 0 feedPattern 10000) (Inl (ErrorObj ''Timeout'')),
       Url 0 ''https://www.linkedin.com/uas/login'',
       Act (WaitForSelector 0 li_usernameField 10000) (Inr ()),
       Act (Fill (Locator 0 li_usernameField) ''u'') (Inr ()),
       Act (Press (Locator 0 li_usernameField) ''Tab'') (Inr ()),
       Act (WaitForSelector 0 li_passwordField 10000) (Inr ()),
       Act (Fill (Locator 0 li_passwordField) ''p'') (Inr ())] @
      [password_press 0, RetrieveCredentials ''id-1'' (Inr response_otp_new)] @
      map (\<lambda>sel. IsVisibleIssued (First (Locator 0 sel)) None) singleSelectors @
      map (\<lambda>sel. IsVisibleSettled (First (Locator 0 sel)) None (Inr (sel = singleSelectors ! 1))) singleSelectors @
      [Act (Fill (First (Locator 0 (singleSelectors ! 1))) []) (Inr ()),
       Act (Fill (First (Locator 0 (singleSelectors ! 1))) ''654321'') (Inr ()),
       Act (WaitForNavigation 0 45000) (Inr ()),
       Act (Press (First (Locator 0 (singleSelectors ! 1))) ''Enter'') (Inr ()),
       Act (WaitForURL 0 feedPattern 10000) (Inr ()),
       Act (WaitForURL 0 feedPattern 10000) (Inr ()),
       Act Close (Inr ())]) \<and>
   enters_code 0 ''654321''
     (map (\<lambda>sel. IsVisibleIssued (First (Locator 0 sel)) None) singleSelectors @
      map (\<lambda>sel. IsVisibleSettled (First (Locator 0 sel)) None (Inr (sel = singleSelectors ! 1))) singleSelectors @
      [Act (Fill (First (Locator 0 (singleSelectors ! 1))) []) (Inr ()),
       Act (Fill (First (Locator 0 (singleSelectors ! 1))) ''654321'') (Inr ()),
       Act (WaitForNavigation 0 45000) (Inr ()),
       Act (Press (First (Locator 0 (singleSelectors ! 1))) ''Enter'') (Inr ()),
       Act (WaitForURL 0 feedPattern 10000) (Inr ()),
       Act (WaitForURL 0 feedPattern 10000) (Inr ()),
       Act Close (Inr ())]) \<and>
   fst (LoginToLinkedin env_refresh_loses_password penv_ok []) =
     Inr \<lparr>success = False, message = ''Missing required credentials. Found: username=true, password=false''\<rparr> \<and>
   snd (LoginToLinkedin env_refresh_loses_password penv_ok []) =
     [RetrieveCredentials ''id-1'' (Inr response_otp),
       Act (Create EmptyConfiguration) (Inr ()), Contexts [0], Pages 0 [0],
       Act (Goto 0 ''https://www.linkedin.com/uas/login'' 10000) (Inr ()),
       Act (WaitForURL 0 feedPattern 10000) (Inl (ErrorObj ''Timeout'')),
       Url 0 ''https://www.linkedin.com/uas/login'',
       Act (WaitForSelector 0 li_usernameField 10000) (Inr ()),
       Act (Fill (Locator 0 li_usernameField) ''u'') (Inr ()),
       Act (Press (Locator 0 li_usernameField) ''Tab'') (Inr ()),
       Act (WaitForSelector 0 li_passwordField 10000) (Inr ()),
       Act (Fill (Locator 0 li_passwordField) ''p'') (Inr ())] @
     [password_press 0, RetrieveCredentials ''id-1'' (Inr response_no_password)] @ [Act Close (Inr ())]"
proof -
  let ?c = "\<lparr>li_sessionId = [], li_identityId = ''id-1'', li_timeoutMs = 10000,
          li_homeUrl = ''https://www.linkedin.com/uas/login''\<rparr>"
  let ?k = "\<lparr>li_username = ''u'', li_password = ''p'', li_otp = ''123456''\<rparr>"
  let ?k2 = "\<lparr>li_username = ''u'', li_password = ''p'', li_otp = ''654321''\<rparr>"
  let ?A = "[RetrieveCredentials ''id-1'' (Inr response_otp),
       Act (Create EmptyConfiguration) (Inr ()), Contexts [0], Pages 0 [0],
       Act (Goto 0 ''https://www.linkedin.com/uas/login'' 10000) (Inr ()),
       Act (WaitForURL 0 feedPattern 10000) (Inl (ErrorObj ''Timeout'')),
       Url 0 ''https://www.linkedin.com/uas/login'',
       Act (WaitForSelector 0 li_usernameField 10000) (Inr ()),
       Act (Fill (Locator 0 li_usernameField) ''u'') (Inr ()),
       Act (Press (Locator 0 li_usernameField) ''Tab'') (Inr ()),
       Act (WaitForSelector 0 li_passwordField 10000) (Inr ()),
       Act (Fill (Locator 0 li_passwordField) ''p'') (Inr ())]"
  let ?B = "map (\<lambda>sel. IsVisibleIssued (First (Locator 0 sel)) None) singleSelectors @
      map (\<lambda>sel. IsVisibleSettled (First (Locator 0 sel)) None (Inr (sel = singleSelectors ! 1))) singleSelectors @
      [Act (Fill (First (Locator 0 (singleSelectors ! 1))) []) (Inr ()),
       Act (Fill (First (Locator 0 (singleSelectors ! 1))) ''654321'') (Inr ()),
       Act (WaitForNavigation 0 45000) (Inr ()),
       Act (Press (First (Locator 0 (singleSelectors ! 1))) ''Enter'') (Inr ()),
       Act (WaitForURL 0 feedPattern 10000) (Inr ()),
       Act (WaitForURL 0 feedPattern 10000) (Inr ()),
       Act Close (Inr ())]"
  let ?E = env_refresh_new_code
  have p: "parseLinkedinCredentials (ir_credentials response_otp) = Inr ?k"
    by (simp add: response_otp_def parse_defs)
  have p2: "parseLinkedinCredentials (ir_credentials response_otp_new) = Inr ?k2"
    by (simp add: response_otp_new_def parse_defs)
  have run: "LoginToLinkedin ?E penv_ok [] =
     (Inr \<lparr>success = True, message = ''Logged in to Linkedin as u.''\<rparr>,
      ?A @ [password_press 0, RetrieveCredentials ''id-1'' (Inr response_otp_new)] @ ?B)"
    using run_refresh_new_code by simp
  have nA: "\<not> list_ex is_password_submitted ?A"
    by (simp add: li_usernameField_def li_passwordField_def)
  have s: "list_ex is_password_submitted (snd (LoginToLinkedin ?E penv_ok []))"
    by (simp add: run password_press_def del: append.simps)
  have r: "e_retrieveCredentials ?E [] ''id-1'' = Inr response_otp"
    by (simp add: env_refresh_new_code_def)
  have prem: "li_getConfig penv_ok = Inr ?c \<and>
     e_retrieveCredentials ?E [] (li_identityId ?c) = Inr response_otp \<and>
     parseLinkedinCredentials (ir_credentials response_otp) = Inr ?k \<and>
     li_otp ?k \<noteq> [] \<and>
     list_ex is_password_submitted (snd (LoginToLinkedin ?E penv_ok []))"
    using p s r penv_ok_li_config by simp
  from mp [OF otp_refreshed_after_password_submit [of penv_ok ?c ?E "[]" response_otp ?k] prem]
  obtain page t1 r2 t2 where
    t: "snd (LoginToLinkedin ?E penv_ok []) = t1 @ [password_press page, RetrieveCredentials ''id-1'' r2] @ t2"
    and n1: "\<not> list_ex is_password_submitted t1"
    and k: "case r2 of
           Inl e \<Rightarrow> (\<exists>rc. t2 = [Act Close rc])
         | Inr resp2 \<Rightarrow>
             (case parseLinkedinCredentials (ir_credentials resp2) of
                Inl err \<Rightarrow>
                  (\<exists>rc. t2 = [Act Close rc] \<and>
                     fst (LoginToLinkedin ?E penv_ok []) =
                       (case rc of Inl e \<Rightarrow> Inl e
                        | Inr u \<Rightarrow> Inr \<lparr>success = False, message = errorMessage err\<rparr>))
              | Inr creds2 \<Rightarrow>
                  (\<exists>t3. t2 = snd (submitOtpCode ?E page (li_otp creds2) 6 10000
                              ([] @ t1 @ [password_press page, RetrieveCredentials ''id-1'' r2]))
                            @ t3) \<and>
                  (fst (submitOtpCode ?E page (li_otp creds2) 6 10000
                         ([] @ t1 @ [password_press page, RetrieveCredentials ''id-1'' r2])) = Inr ()
                   \<longrightarrow> enters_code page (li_otp creds2) t2))"
    by (auto simp: cong: sum.case_cong)
  from t run have "?A @ password_press 0 # (RetrieveCredentials ''id-1'' (Inr response_otp_new) # ?B) =
      t1 @ password_press page # (RetrieveCredentials ''id-1'' r2 # t2)"
    by simp
  from split_at_first [OF this, of is_password_submitted] nA n1
  have e: "t1 = ?A" "password_press 0 = password_press page" "r2 = Inr response_otp_new" "t2 = ?B"
    by (simp_all add: password_press_def)
  then have pg: "page = 0" by (simp add: password_press_def)
  have "fst (submitOtpCode ?E 0 ''654321'' 6 10000
               ([] @ ?A @ [password_press 0, RetrieveCredentials ''id-1'' (Inr response_otp_new)])) = Inr ()"
    using submitOtpCode_run_single [OF refresh_examples(3) refresh_examples(1),
        where h = "[] @ ?A @ [password_press 0, RetrieveCredentials ''id-1'' (Inr response_otp_new)]"
          and otp = "''654321''" and step = 6 and tm = 10000]
    by auto
  moreover from k have "fst (submitOtpCode ?E page ''654321'' 6 10000
               ([] @ t1 @ [password_press page, RetrieveCredentials ''id-1'' r2])) = Inr ()
             \<longrightarrow> enters_code page ''654321'' t2"
    unfolding e(3) by (simp add: p2)
  ultimately have en: "enters_code 0 ''654321'' ?B"
    unfolding e(1) e(3) e(4) pg by (rule rev_mp)
  have f: "fst (LoginToLinkedin env_refresh_loses_password penv_ok []) =
     Inr \<lparr>success = False, message = ''Missing required credentials. Found: username=true, password=false''\<rparr>"
    by (simp add: run_refresh_loses_password)
  have g: "snd (LoginToLinkedin env_refresh_loses_password penv_ok []) =
     ?A @ [password_press 0, RetrieveCredentials ''id-1'' (Inr response_no_password)] @ [Act Close (Inr ())]"
    by (simp add: run_refresh_loses_password)
  from p p2 run en f g show ?thesis by simp
qed


end
